(* ===== verification/Prelude.thy ===== *)
theory Prelude
  imports Complex_Main "HOL-Library.List_Lexorder" "HOL-Library.Char_ord"
    "HOL-Library.Product_Lexorder" "HOL-Library.Sublist" "HOL-Library.Countable"
begin

text \<open>
  What every component shares: the names of the types, the exceptions and the results of fallible
  calls, the sorted sets that Redis keeps (a type of its own, so that being sorted by score and
  free of duplicates is part of the type), Redis' way of slicing a sequence by signed indices, and
  the generic transition system whose invariants the components with steps instantiate.
\<close>

named_theorems redis_law \<open>what a command of the Redis server does to the view of its data\<close>
named_theorems key_law \<open>which Redis keys are equal, and the type of the data under a key\<close>

subsection \<open>Names\<close>

text \<open>
  Scores and times are Python floats, that is, rational numbers; rounding is not modelled.
\<close>

type_synonym key = string
type_synonym member = string
type_synonym queue_name = string
type_synonym task_id = string
type_synonym score = rat
type_synonym time = rat

subsection \<open>Exceptions and results\<close>

text \<open>
  The exceptions of \<^verbatim>\<open>tasktiger/exceptions.py\<close> and the Python exceptions that its code
  raises or catches. \<open>RetryException\<close> carries the two attributes that its constructor stores and
  the executor reads: the retry method (already serialized) and the flag \<open>log_error\<close>.
  \<open>UserException\<close> is any other exception that the code of a task raises, with the serialized name
  of its class and whether that class derives from \<^verbatim>\<open>Exception\<close>; \<open>SystemExit\<close> is that of \<^verbatim>\<open>sys.exit\<close>.
\<close>

datatype exn =
    TaskImportError
  | JobTimeoutException
  | QueueFullException int
  | StopRetry
  | RetryException "(string \<times> rat list) option" bool
  | TaskNotFound task_id
  | NotImplementedError
  | ValueError
  | AssertionError
  | AttributeError
  | KeyError
  | UnboundLocalError
  | RuntimeError
  | ZeroDivisionError
  | IndexError
  | TypeError
  | UserException string bool
  | SystemExit
  | ResponseError string

abbreviation KeyboardInterrupt :: exn where
  "KeyboardInterrupt \<equiv> UserException ''builtins:KeyboardInterrupt'' False"

type_synonym 'a result = "exn + 'a"

fun is_error :: "'a result \<Rightarrow> bool" where
  "is_error (Inl _) = True"
| "is_error (Inr _) = False"

text \<open>
  A call that may raise, followed by code that uses its value. The second form is for calls that
  also change a state: what was done before the exception stays done.
\<close>

fun bind_result :: "'a result \<Rightarrow> ('a \<Rightarrow> 'b result) \<Rightarrow> 'b result" where
  "bind_result (Inl e) f = Inl e"
| "bind_result (Inr x) f = f x"

fun bind_state :: "'a result \<times> 's \<Rightarrow> ('a \<Rightarrow> 's \<Rightarrow> 'b result \<times> 's) \<Rightarrow> 'b result \<times> 's" where
  "bind_state (Inl e, s) f = (Inl e, s)"
| "bind_state (Inr x, s) f = f x s"

lemma bind_result_Inr_iff: "bind_result r f = Inr y \<longleftrightarrow> (\<exists>x. r = Inr x \<and> f x = Inr y)"
  by (cases r) simp_all

lemma bind_state_Inr_iff:
  "bind_state r f = (Inr y, s') \<longleftrightarrow> (\<exists>x s. r = (Inr x, s) \<and> f x s = (Inr y, s'))"
  by (cases r; cases "fst r") auto

subsection \<open>Sorted sets\<close>

text \<open>
  A Redis sorted set lists its members by ascending score, and by the bytes of the member where
  two scores agree; a member occurs once.
\<close>

typedef zset = "{z :: (score \<times> member) list. sorted z \<and> distinct (map snd z)}"
  morphisms zlist ZSet
  by (rule exI [of _ "[]"]) simp

setup_lifting type_definition_zset

lift_definition zempty :: zset is "[]" by simp

lemma distinct_map_insort:
  "distinct (map snd (insort e z)) \<longleftrightarrow> snd e \<notin> snd ` set z \<and> distinct (map snd z)"
  by (induction z) (auto simp: set_insort_key)

lift_definition zins :: "score \<Rightarrow> member \<Rightarrow> zset \<Rightarrow> zset"
  is "\<lambda>sc m z. insort (sc, m) (filter (\<lambda>e. snd e \<noteq> m) z)"
  by (auto simp: distinct_map_insort distinct_map_filter sorted_insort sorted_wrt_filter)

lift_definition zfilter :: "(score \<times> member \<Rightarrow> bool) \<Rightarrow> zset \<Rightarrow> zset" is filter
  by (auto simp: sorted_wrt_filter distinct_map_filter)

lift_definition zdrop :: "nat \<Rightarrow> zset \<Rightarrow> zset" is drop
  by (auto simp: drop_map [symmetric])

definition zget :: "zset \<Rightarrow> member \<Rightarrow> score option" where
  "zget z m = map_of (map prod.swap (zlist z)) m"

definition zmembers :: "zset \<Rightarrow> member list" where
  "zmembers z = map snd (zlist z)"

definition zdel :: "member \<Rightarrow> zset \<Rightarrow> zset" where
  "zdel m z = zfilter (\<lambda>e. snd e \<noteq> m) z"

text \<open>Several members added in one command, in the order of the command's arguments.\<close>

definition zins_all :: "(score \<times> member) list \<Rightarrow> zset \<Rightarrow> zset" where
  "zins_all ps z = fold (\<lambda>(sc, m). zins sc m) ps z"

subsubsection \<open>The member-to-score view\<close>

lemma zlist_sorted: "sorted (zlist z)"
  using zlist [of z] by simp

lemma zlist_distinct: "distinct (map snd (zlist z))"
  using zlist [of z] by simp

lemma zmembers_distinct [simp]: "distinct (zmembers z)"
  by (simp add: zmembers_def zlist_distinct)

lemma zget_Some_iff: "zget z m = Some sc \<longleftrightarrow> (sc, m) \<in> set (zlist z)"
proof -
  have "distinct (map fst (map prod.swap (zlist z)))"
    using zlist_distinct [of z] by (simp add: comp_def)
  then have "map_of (map prod.swap (zlist z)) m = Some sc
      \<longleftrightarrow> (m, sc) \<in> set (map prod.swap (zlist z))"
    by (rule map_of_eq_Some_iff)
  then show ?thesis by (force simp: zget_def)
qed

lemma zget_None_iff: "zget z m = None \<longleftrightarrow> m \<notin> set (zmembers z)"
  by (force simp: zget_Some_iff zmembers_def simp flip: not_Some_eq)

lemma zget_eqI:
  assumes "\<And>sc. (sc, m) \<in> set (zlist z) \<longleftrightarrow> x = Some sc"
  shows "zget z m = x"
proof (cases x)
  case None
  then have "\<forall>sc. zget z m \<noteq> Some sc" using assms by (simp add: zget_Some_iff)
  with None show ?thesis by (cases "zget z m") auto
qed (use assms in \<open>simp add: zget_Some_iff\<close>)

lemma zget_zempty [simp]: "zget zempty m = None"
  by (simp add: zget_def zempty.rep_eq)

lemma zget_zins [simp]: "zget (zins sc m z) m' = (if m' = m then Some sc else zget z m')"
  by (rule zget_eqI) (auto simp: zins.rep_eq set_insort_key zget_Some_iff)

lemma zget_zfilter:
  "zget (zfilter P z) m = (case zget z m of None \<Rightarrow> None | Some sc \<Rightarrow> if P (sc, m) then Some sc else None)"
  by (rule zget_eqI) (auto simp: zfilter.rep_eq simp flip: zget_Some_iff split: option.splits)

lemma zget_zdel [simp]: "zget (zdel m z) m' = (if m' = m then None else zget z m')"
  by (auto simp: zdel_def zget_zfilter split: option.splits)

lemma zmembers_zdrop: "zmembers (zdrop n z) = drop n (zmembers z)"
  by (simp add: zmembers_def zdrop.rep_eq drop_map)

lemma zget_zdrop:
  "zget (zdrop n z) m = (if m \<in> set (take n (zmembers z)) then None else zget z m)"
proof (rule zget_eqI)
  fix sc
  let ?xs = "take n (zlist z)" and ?ys = "drop n (zlist z)"
  have "distinct (map snd (?xs @ ?ys))"
    using zlist_distinct [of z] by simp
  then have disj: "snd ` set ?xs \<inter> snd ` set ?ys = {}"
    by (simp only: map_append distinct_append set_map)
  have all: "set (zlist z) = set ?xs \<union> set ?ys"
    by (metis append_take_drop_id set_append)
  have "m \<in> set (take n (zmembers z)) \<longleftrightarrow> m \<in> snd ` set ?xs"
    by (simp add: zmembers_def take_map)
  with disj show "(sc, m) \<in> set (zlist (zdrop n z)) \<longleftrightarrow>
      (if m \<in> set (take n (zmembers z)) then None else zget z m) = Some sc"
    by (force simp: zdrop.rep_eq zget_Some_iff all)
qed

lemma zset_eq_zempty_iff: "z = zempty \<longleftrightarrow> (\<forall>m. zget z m = None)"
proof
  assume "\<forall>m. zget z m = None"
  then have "zlist z = []"
    by (auto simp: zget_None_iff zmembers_def)
  then show "z = zempty"
    by (metis zlist_inverse zempty.abs_eq)
qed simp

text \<open>The map determines the sorted set: sorting leaves one list.\<close>

lemma zset_eqI: "(\<And>m. zget z m = zget z' m) \<Longrightarrow> z = z'"
proof -
  assume eq: "\<And>m. zget z m = zget z' m"
  have "set (zlist z) = set (zlist z')"
    using eq by (auto simp flip: zget_Some_iff)
  moreover have "distinct (zlist z)" "distinct (zlist z')"
    using zlist_distinct distinct_map by blast+
  ultimately have "zlist z = zlist z'"
    by (intro sorted_distinct_set_unique zlist_sorted)
  then show ?thesis by (simp add: zlist_inject)
qed

lemma zget_zins_all:
  "zget (zins_all ps z) m =
     (case map_of (rev (map prod.swap ps)) m of None \<Rightarrow> zget z m | Some sc \<Rightarrow> Some sc)"
  unfolding zins_all_def
  by (induction ps arbitrary: z) (auto simp: map_add_def split: option.splits)

lemma zins_all_simps [simp]:
  "zins_all [] z = z"
  "zins_all ((sc, m) # ps) z = zins_all ps (zins sc m z)"
  by (simp_all add: zins_all_def)

lemma zget_zins_all_const:
  "zget (zins_all (map (\<lambda>m. (sc, m)) ms) z) m' = (if m' \<in> set ms then Some sc else zget z m')"
  by (induction ms arbitrary: z) auto

lemma zins_neq_zempty [simp]: "zins sc m z \<noteq> zempty"
  by (auto simp: zset_eq_zempty_iff)

lemma zins_all_eq_zempty_iff [simp]: "zins_all ps z = zempty \<longleftrightarrow> ps = [] \<and> z = zempty"
  by (induction ps arbitrary: z) auto

text \<open>A sorted set without the members of a list, and with a member at the smaller of two scores.\<close>

definition zremove_all :: "member list \<Rightarrow> zset \<Rightarrow> zset" where
  "zremove_all ms z = zfilter (\<lambda>e. snd e \<notin> set ms) z"

definition zins_min :: "score \<Rightarrow> member \<Rightarrow> zset \<Rightarrow> zset" where
  "zins_min sc m z = zins (case zget z m of None \<Rightarrow> sc | Some old \<Rightarrow> min old sc) m z"

definition zins_new :: "score \<Rightarrow> member \<Rightarrow> zset \<Rightarrow> zset" where
  "zins_new sc m z = (if zget z m = None then zins sc m z else z)"

lemma zget_zremove_all [simp]:
  "zget (zremove_all ms z) m = (if m \<in> set ms then None else zget z m)"
  by (auto simp: zremove_all_def zget_zfilter split: option.splits)

lemma zremove_all_Nil [simp]: "zremove_all [] z = z"
  by (rule zset_eqI) simp

lemma zget_zins_min [simp]: "zget (zins_min sc m z) m' =
    (if m' = m then Some (case zget z m of None \<Rightarrow> sc | Some old \<Rightarrow> min old sc) else zget z m')"
  by (simp add: zins_min_def)

lemma zget_zins_new [simp]: "zget (zins_new sc m z) m' =
    (if m' = m \<and> zget z m = None then Some sc else zget z m')"
  by (simp add: zins_new_def)

lemma zins_min_neq_zempty [simp]: "zins_min sc m z \<noteq> zempty"
  by (simp add: zins_min_def)

lemma zins_new_neq_zempty [simp]: "zins_new sc m z \<noteq> zempty"
  by (auto simp: zins_new_def)

lemma zget_fold_zins_min:
  "zget (fold (zins_min sc) ms z) m =
     (if m \<in> set ms then Some (case zget z m of None \<Rightarrow> sc | Some old \<Rightarrow> min old sc) else zget z m)"
  by (induction ms arbitrary: z) (auto split: option.splits)

lemma zdrop_prefix: "take (length ms) (zmembers z) = ms \<Longrightarrow> zdrop (length ms) z = zremove_all ms z"
  by (rule zset_eqI) (simp add: zget_zdrop)

text \<open>The members with scores up to a bound come first.\<close>

lemma filter_takeWhile_sorted:
  "sorted_wrt (\<lambda>a b. P b \<longrightarrow> P a) xs \<Longrightarrow> filter P xs = takeWhile P xs"
  by (induction xs) (auto simp: filter_empty_conv)

lemma zlist_sorted_fst: "sorted_wrt (\<lambda>a b. fst a \<le> fst b) (zlist z)"
  using zlist_sorted [of z] by (rule sorted_wrt_mono_rel [rotated]) (auto simp: less_eq_prod_def)

lemma zlist_filter_prefix:
  assumes "\<And>a b. a \<le> b \<Longrightarrow> P b \<Longrightarrow> P a"
  shows "filter (\<lambda>e. P (fst e)) (zlist z) = take (length (filter (\<lambda>e. P (fst e)) (zlist z))) (zlist z)"
proof -
  have "sorted_wrt (\<lambda>a b. P (fst b) \<longrightarrow> P (fst a)) (zlist z)"
    using zlist_sorted_fst by (rule sorted_wrt_mono_rel [rotated]) (use assms in blast)
  from filter_takeWhile_sorted [OF this] show ?thesis
    by (metis takeWhile_eq_take)
qed

subsection \<open>Slices with signed indices\<close>

text \<open>
  \<open>ZRANGE\<close>, \<open>LRANGE\<close> and \<open>LTRIM\<close> take the positions of the first and the last
  element; a negative position counts from the end, positions outside the sequence are clipped.
\<close>

definition slice_range :: "int \<Rightarrow> int \<Rightarrow> 'a list \<Rightarrow> 'a list" where
  "slice_range i j xs =
     (let n = int (length xs);
          i' = max 0 (if i < 0 then n + i else i);
          j' = (if j < 0 then n + j else j)
      in take (nat (j' + 1 - i')) (drop (nat i') xs))"

lemma slice_range_last: "0 < n \<Longrightarrow> slice_range (- n) (- 1) xs = drop (length xs - nat n) xs"
  by (auto simp: slice_range_def Let_def max_def nat_diff_distrib)

lemma slice_range_length: "length (slice_range i j xs) \<le> length xs"
  by (simp add: slice_range_def Let_def)

subsection \<open>Decimal numbers\<close>

text \<open>Redis and Python exchange counters as decimal strings.\<close>

fun dec_of_nat :: "nat \<Rightarrow> string" where
  "dec_of_nat n =
     (if n < 10 then [char_of (48 + n)] else dec_of_nat (n div 10) @ [char_of (48 + n mod 10)])"

declare dec_of_nat.simps [simp del]

definition nat_of_dec :: "string \<Rightarrow> nat" where
  "nat_of_dec ds = foldl (\<lambda>n d. 10 * n + (of_char d - 48)) 0 ds"

lemma nat_of_dec_of_nat [simp]: "nat_of_dec (dec_of_nat n) = n"
proof (induction n rule: dec_of_nat.induct)
  case (1 n)
  have small: "of_char (char_of (48 + m) :: char) = 48 + m" if "m < 10" for m :: nat
    using that by (simp add: of_char_of)
  show ?case
  proof (cases "n < 10")
    case True
    then show ?thesis
      by (subst dec_of_nat.simps) (simp add: nat_of_dec_def small del: of_char_of)
  next
    case False
    with 1 have "nat_of_dec (dec_of_nat (n div 10)) = n div 10" by simp
    with False show ?thesis
      by (subst dec_of_nat.simps) (simp add: nat_of_dec_def small del: of_char_of)
  qed
qed

subsection \<open>Transition systems\<close>

inductive reach :: "('s \<Rightarrow> bool) \<Rightarrow> ('s \<Rightarrow> 's \<Rightarrow> bool) \<Rightarrow> 's \<Rightarrow> bool" for init step where
  reach_init: "init s \<Longrightarrow> reach init step s"
| reach_step: "reach init step s \<Longrightarrow> step s t \<Longrightarrow> reach init step t"

locale inductive_invariant =
  fixes init :: "'s \<Rightarrow> bool" and step :: "'s \<Rightarrow> 's \<Rightarrow> bool" and inv :: "'s \<Rightarrow> bool"
  assumes init_inv: "init s \<Longrightarrow> inv s"
    and step_inv: "inv s \<Longrightarrow> step s t \<Longrightarrow> inv t"
begin

lemma reach_inv: "reach init step s \<Longrightarrow> inv s"
  by (induction rule: reach.induct) (auto intro: init_inv step_inv)

end

end
