(* ===== verification/Schedules.thy ===== *)
theory Schedules
  imports Prelude
begin

text \<open>
  When a failed task runs again (\<^verbatim>\<open>tasktiger/retry.py\<close>) and when a periodic task runs next
  (\<^verbatim>\<open>tasktiger/schedule.py\<close>). A naive UTC datetime is a whole number of microseconds since the
  epoch. The third-party packages croniter and pytz are parameters of \<open>cron_next\<close>: whether an
  expression is valid, and the next time that matches it.
\<close>

subsection \<open>Retry strategies\<close>

definition fixed_delay :: "int \<Rightarrow> rat \<Rightarrow> int \<Rightarrow> rat result" where
  "fixed_delay retry delay max_retries =
     (if retry > max_retries then Inl StopRetry else Inr delay)"

definition linear_delay :: "int \<Rightarrow> rat \<Rightarrow> rat \<Rightarrow> int \<Rightarrow> rat result" where
  "linear_delay retry delay increment max_retries =
     (if retry > max_retries then Inl StopRetry
      else Inr (delay + increment * of_int (retry - 1)))"

definition exponential_delay :: "int \<Rightarrow> rat \<Rightarrow> rat \<Rightarrow> int \<Rightarrow> rat result" where
  "exponential_delay retry delay factor max_retries =
     (if retry > max_retries then Inl StopRetry
      else if factor = 0 \<and> retry < 1 then Inl ZeroDivisionError
      else Inr (delay * power_int factor (retry - 1)))"

text \<open>
  The delays that a strategy gives for the attempts 1, 2, \<dots> of a task, up to the attempt for which
  it raises an exception, looking at \<open>n\<close> attempts at most.
\<close>

fun retry_delays :: "(int \<Rightarrow> rat result) \<Rightarrow> int \<Rightarrow> nat \<Rightarrow> rat list" where
  "retry_delays strategy attempt 0 = []"
| "retry_delays strategy attempt (Suc n) =
     (case strategy attempt of
        Inl _ \<Rightarrow> []
      | Inr d \<Rightarrow> d # retry_delays strategy (attempt + 1) n)"

lemma retry_delays_eq:
  assumes "\<And>r. 1 \<le> r \<Longrightarrow> r \<le> m \<Longrightarrow> strategy r = Inr (f r)"
    and "\<And>r. m < r \<Longrightarrow> is_error (strategy r)" and "1 \<le> a"
  shows "retry_delays strategy a n = map (\<lambda>i. f (a + int i)) [0..<min n (nat (m + 1 - a))]"
  using assms(3)
proof (induction n arbitrary: a)
  case (Suc n)
  show ?case
  proof (cases "a \<le> m")
    case True
    then have "nat (m + 1 - a) = Suc (nat (m + 1 - (a + 1)))" by simp
    with True Suc show ?thesis
      by (simp add: assms(1) upt_conv_Cons map_Suc_upt [symmetric] ac_simps del: upt_Suc)
  next
    case False
    then have "is_error (strategy a)" by (simp add: assms(2))
    with False show ?thesis by (cases "strategy a") simp_all
  qed
qed simp

text \<open>Under each strategy a task that keeps failing is retried \<open>max_retries\<close> times and not once
  more, after delays that are constant, grow by the increment, or grow by the factor.\<close>

theorem retry_delays_strategies:
  "retry_delays (\<lambda>r. fixed_delay r d m) 1 n = replicate (min n (nat m)) d \<and>
   retry_delays (\<lambda>r. linear_delay r d inc m) 1 n =
     map (\<lambda>i. d + inc * of_nat i) [0..<min n (nat m)] \<and>
   retry_delays (\<lambda>r. exponential_delay r d factor m) 1 n =
     map (\<lambda>i. d * factor ^ i) [0..<min n (nat m)]"
proof (intro conjI)
  show "retry_delays (\<lambda>r. fixed_delay r d m) 1 n = replicate (min n (nat m)) d"
    by (subst retry_delays_eq [where m = m and f = "\<lambda>_. d"])
      (simp_all add: fixed_delay_def map_replicate_const)
  show "retry_delays (\<lambda>r. linear_delay r d inc m) 1 n =
      map (\<lambda>i. d + inc * of_nat i) [0..<min n (nat m)]"
    by (subst retry_delays_eq [where m = m and f = "\<lambda>r. d + inc * of_int (r - 1)"])
      (simp_all add: linear_delay_def)
  show "retry_delays (\<lambda>r. exponential_delay r d factor m) 1 n =
      map (\<lambda>i. d * factor ^ i) [0..<min n (nat m)]"
    by (subst retry_delays_eq [where m = m and f = "\<lambda>r. d * power_int factor (r - 1)"])
      (simp_all add: exponential_delay_def)
qed

lemma sum_list_upt: "sum_list (map f [0..<n]) = sum f {..<n}"
  by (simp add: interv_sum_list_conv_sum_set_nat atLeast0LessThan)

text \<open>The whole time a task waits before it is given up.\<close>

lemma exponential_total:
  "(factor - 1) * sum_list (map (\<lambda>i. d * factor ^ i) [0..<n]) = d * (factor ^ n - (1::rat))"
  by (induction n) (simp_all add: algebra_simps)

subsection \<open>Periodic schedules\<close>

text \<open>
  A timedelta keeps whole days, seconds below a day and microseconds below a second;
  \<open>delta_seconds\<close> is \<^verbatim>\<open>delta.seconds + delta.days * 86400\<close>.
\<close>

definition delta_seconds :: "int \<Rightarrow> int" where
  "delta_seconds d = d mod 86400000000 div 1000000 + d div 86400000000 * 86400"

definition periodic_next :: "int \<Rightarrow> int \<Rightarrow> int \<Rightarrow> int option \<Rightarrow> int option" where
  "periodic_next dt period start_date end_date =
     (if \<exists>e \<in> set_option end_date. dt \<ge> e then None
      else if dt < start_date then Some start_date
      else
        let seconds = delta_seconds (dt - start_date);
            runs = seconds div period;
            next_run = runs + 1;
            next_date = start_date + next_run * period * 1000000
        in if \<exists>e \<in> set_option end_date. next_date > e then None else Some next_date)"

definition START_DATE :: int where
  "START_DATE = 946684800000000"

text \<open>\<^verbatim>\<open>periodic\<close> checks its period and returns the arguments of \<open>periodic_next\<close> after the time.\<close>

definition periodic ::
    "int \<Rightarrow> int \<Rightarrow> int \<Rightarrow> int \<Rightarrow> int \<Rightarrow> int option \<Rightarrow> int option \<Rightarrow> (int \<times> int \<times> int option) result" where
  "periodic seconds minutes hours days weeks start_date end_date =
     (let period = seconds + minutes * 60 + hours * 3600 + days * 86400 + weeks * 604800 in
      if \<not> period > 0 then Inl AssertionError
      else Inr (period, case start_date of None \<Rightarrow> START_DATE | Some d \<Rightarrow> d, end_date))"

lemma delta_seconds_eq: "delta_seconds d = d div 1000000"
proof -
  let ?q = "d div 86400000000" and ?r = "d mod 86400000000"
  have "d = ?r + ?q * 86400 * 1000000" by (simp add: mod_mult_div_eq)
  then have "d div 1000000 = (?r + ?q * 86400 * 1000000) div 1000000" by simp
  also have "\<dots> = ?q * 86400 + ?r div 1000000" by (rule div_mult_self1) simp
  finally show ?thesis by (simp add: delta_seconds_def)
qed

text \<open>The instants at which a task of the given period runs, and the first one after \<open>dt\<close>.\<close>

definition on_grid :: "int \<Rightarrow> int \<Rightarrow> int \<Rightarrow> bool" where
  "on_grid start period t \<longleftrightarrow> start \<le> t \<and> (t - start) mod (period * 1000000) = 0"

definition first_after :: "int \<Rightarrow> int \<Rightarrow> int \<Rightarrow> int \<Rightarrow> bool" where
  "first_after start period dt t \<longleftrightarrow>
     on_grid start period t \<and> dt < t \<and> (\<forall>u. on_grid start period u \<and> dt < u \<longrightarrow> t \<le> u)"

lemma first_after_unique:
  "first_after start period dt t \<Longrightarrow> first_after start period dt u \<Longrightarrow> t = u"
  by (simp add: first_after_def order_antisym)

lemma first_after_start: "dt < start \<Longrightarrow> first_after start period dt start"
  by (simp add: first_after_def on_grid_def)

lemma first_after_step:
  assumes "0 < period" "start \<le> dt"
  shows "first_after start period dt
    (start + (delta_seconds (dt - start) div period + 1) * period * 1000000)"
proof -
  let ?P = "period * 1000000" and ?k = "delta_seconds (dt - start) div period"
  have k: "?k = (dt - start) div ?P"
    using assms(1) by (simp add: delta_seconds_eq zdiv_zmult2_eq mult.commute [of period])
  have P: "0 < ?P" using assms(1) by simp
  have "0 \<le> ?k" using assms by (simp add: k pos_imp_zdiv_nonneg_iff)
  then have "0 \<le> (?k + 1) * ?P" using P by simp
  have "(dt - start) div ?P * ?P + (dt - start) mod ?P = dt - start" by (rule div_mult_mod_eq)
  moreover have "0 \<le> (dt - start) mod ?P" "(dt - start) mod ?P < ?P" using P by simp_all
  moreover have "(?k + 1) * ?P = ?k * ?P + ?P" by (simp only: distrib_right mult_1)
  ultimately have below: "?k * ?P \<le> dt - start" and above: "dt - start < (?k + 1) * ?P"
    unfolding k by linarith+
  have "start + (?k + 1) * ?P \<le> u" if "on_grid start period u" "dt < u" for u
  proof -
    from that(1) have "?P dvd u - start" by (simp add: on_grid_def dvd_eq_mod_eq_0)
    then obtain j where "u - start = ?P * j" ..
    then have j: "u - start = j * ?P" by (simp only: mult.commute)
    with that(2) below have "?k * ?P < j * ?P" by linarith
    then have "?k + 1 \<le> j" using P by simp
    then have "(?k + 1) * ?P \<le> j * ?P" using P by (intro mult_right_mono) simp_all
    with j show ?thesis by linarith
  qed
  with above \<open>0 \<le> (?k + 1) * ?P\<close> show ?thesis
    by (simp add: first_after_def on_grid_def mult.assoc)
qed

text \<open>C38: a periodic task runs next at the first instant of its grid after now, if that instant is
  not after the end date and now is before it; otherwise it does not run again.\<close>

theorem periodic_next_iff:
  assumes "0 < period" and "\<forall>e \<in> set_option end_date. start_date \<le> e"
  shows "periodic_next dt period start_date end_date = Some t \<longleftrightarrow>
    first_after start_date period dt t \<and> (\<forall>e \<in> set_option end_date. dt < e \<and> t \<le> e)"
proof (cases "dt < start_date")
  case True
  then show ?thesis
    using first_after_unique [OF first_after_start [OF True]] first_after_start [OF True] assms(2)
    by (cases end_date) (auto simp: periodic_next_def)
next
  case False
  then have "start_date \<le> dt" by simp
  note step = first_after_step [OF assms(1) this]
  define n where "n = start_date + (delta_seconds (dt - start_date) div period + 1) * period * 1000000"
  have next_eq: "periodic_next dt period start_date end_date =
      (if \<exists>e \<in> set_option end_date. dt \<ge> e then None
       else if \<exists>e \<in> set_option end_date. n > e then None else Some n)"
    using False by (simp add: periodic_next_def Let_def n_def)
  have "first_after start_date period dt t \<longleftrightarrow> t = n"
    using first_after_unique [OF step] step unfolding n_def by blast
  then show ?thesis unfolding next_eq by (cases "t = n"; cases end_date) auto
qed

theorem periodic_next_iff_witness:
  "periodic_next 946684805500000 5 START_DATE (Some 946684900000000) = Some 946684810000000 \<and>
   first_after START_DATE 5 946684805500000 946684810000000"
proof -
  have eval: "periodic_next 946684805500000 5 START_DATE (Some 946684900000000) = Some 946684810000000"
    by (simp add: periodic_next_def START_DATE_def delta_seconds_def)
  have "(0::int) < 5" "\<forall>e \<in> set_option (Some 946684900000000). START_DATE \<le> e"
    by (simp_all add: START_DATE_def)
  from periodic_next_iff [OF this, of 946684805500000 946684810000000] eval show ?thesis by blast
qed

subsection \<open>Cron schedules\<close>

definition cron_next ::
    "(string \<Rightarrow> bool) \<Rightarrow> (string \<Rightarrow> int \<Rightarrow> int) \<Rightarrow> int \<Rightarrow> string \<Rightarrow> int \<Rightarrow> int option \<Rightarrow> int option result" where
  "cron_next is_valid get_next dt expr start_date end_date =
     (if \<exists>e \<in> set_option end_date. dt \<ge> e then Inr None
      else if dt < start_date then Inr (Some start_date)
      else if \<not> is_valid expr then Inl AssertionError
      else
        let next_utc = get_next expr dt
        in if \<exists>e \<in> set_option end_date. next_utc > e then Inr None else Inr (Some next_utc))"

definition cron_expr :: "string \<Rightarrow> int option \<Rightarrow> int option \<Rightarrow> string \<times> int \<times> int option" where
  "cron_expr expr start_date end_date =
     (expr, case start_date of None \<Rightarrow> START_DATE | Some d \<Rightarrow> d, end_date)"

text \<open>A cron schedule fails only for an invalid expression; a time it returns is after now and
  not after the end date; without a time, the end date has passed or comes before the next match.\<close>

theorem cron_next_cases:
  assumes "is_valid expr \<Longrightarrow> dt < get_next expr dt"
    and "\<forall>e \<in> set_option end_date. start_date \<le> e"
  shows "case cron_next is_valid get_next dt expr start_date end_date of
      Inl err \<Rightarrow> err = AssertionError \<and> \<not> is_valid expr
    | Inr None \<Rightarrow> (\<exists>e \<in> set_option end_date. e \<le> dt \<or> e < get_next expr dt)
    | Inr (Some t) \<Rightarrow> dt < t \<and> (\<forall>e \<in> set_option end_date. dt < e \<and> t \<le> e)"
  using assms by (cases end_date) (auto simp: cron_next_def Let_def)

theorem cron_next_cases_witness:
  "cron_next (\<lambda>_. True) (\<lambda>_ t. t + 60000000) 946684805500000 ''* * * * *'' START_DATE None
     = Inr (Some 946684865500000) \<and> (946684805500000::int) < 946684865500000"
proof -
  have "cron_next (\<lambda>_. True) (\<lambda>_ t. t + 60000000) 946684805500000 ''* * * * *'' START_DATE None
      = Inr (Some 946684865500000)"
    by (simp add: cron_next_def START_DATE_def)
  then show ?thesis
    using cron_next_cases [of "\<lambda>_. True" "''* * * * *''" 946684805500000 "\<lambda>_ t. t + 60000000"
      None START_DATE] by simp
qed

end
