(* ===== verification/Redis_Server.thy ===== *)
theory Redis_Server
  imports Prelude
begin

text \<open>
  The Redis server (and the \<open>Lock\<close> of its client library redis-py), which TaskTiger uses but
  does not contain. It is a parameter of the model: a record \<open>'r redis\<close> of the commands that
  TaskTiger issues, over a type \<open>'r\<close> of server states of which nothing is known. What the code
  relies on are the laws of the locale \<open>redis_server\<close>, taken from the command reference: they
  say how each command answers and how it changes the view of the server's data.

  Redis gives every key one type of value and refuses a command of another type. The function
  \<open>kind\<close> fixes the type under which a client uses each key; the laws only speak of commands
  on keys of their own type. \<open>mem_redis\<close> is a small server in memory that obeys every law, so
  the laws can hold together; concrete examples run on it.
\<close>

subsection \<open>The data of a server\<close>

datatype ktype = KSet | KZset | KStr | KList | KLock

record db =
  zsets :: "key \<Rightarrow> zset"
  sets :: "key \<Rightarrow> string set"
  strs :: "key \<Rightarrow> string option"
  lists :: "key \<Rightarrow> string list"
  held :: "key \<Rightarrow> string option"
  published :: "(string \<times> string) list"

text \<open>
  \<open>zsets\<close>, \<open>sets\<close>, \<open>strs\<close> and \<open>lists\<close> hold the sorted sets, sets, strings and lists (an
  absent key is an empty collection), \<open>held\<close> the token that holds a redis-py lock, \<open>published\<close>
  the messages sent so far, channel first.
\<close>

definition del_keys :: "key set \<Rightarrow> db \<Rightarrow> db" where
  "del_keys ks d = d
     \<lparr>zsets := (\<lambda>k. if k \<in> ks then zempty else zsets d k),
      sets := (\<lambda>k. if k \<in> ks then {} else sets d k),
      strs := (\<lambda>k. if k \<in> ks then None else strs d k),
      lists := (\<lambda>k. if k \<in> ks then [] else lists d k),
      held := (\<lambda>k. if k \<in> ks then None else held d k)\<rparr>"

fun key_present :: "ktype \<Rightarrow> db \<Rightarrow> key \<Rightarrow> bool" where
  "key_present KZset d k = (zsets d k \<noteq> zempty)"
| "key_present KSet d k = (sets d k \<noteq> {})"
| "key_present KStr d k = (strs d k \<noteq> None)"
| "key_present KList d k = (lists d k \<noteq> [])"
| "key_present KLock d k = (held d k \<noteq> None)"

definition limit_take :: "int \<Rightarrow> 'a list \<Rightarrow> 'a list" where
  "limit_take n xs = (if n < 0 then xs else take (nat n) xs)"

definition in_scores :: "score option \<Rightarrow> score option \<Rightarrow> score \<Rightarrow> bool" where
  "in_scores lo hi sc \<longleftrightarrow> (\<forall>a \<in> set_option lo. a \<le> sc) \<and> (\<forall>b \<in> set_option hi. sc \<le> b)"

lemma in_scores_simps [simp]:
  "in_scores None None sc"
  "in_scores (Some a) None sc \<longleftrightarrow> a \<le> sc"
  "in_scores None (Some b) sc \<longleftrightarrow> sc \<le> b"
  "in_scores (Some a) (Some b) sc \<longleftrightarrow> a \<le> sc \<and> sc \<le> b"
  by (simp_all add: in_scores_def)

definition incr_string :: "string option \<Rightarrow> string" where
  "incr_string v = dec_of_nat (Suc (case v of None \<Rightarrow> 0 | Some ds \<Rightarrow> nat_of_dec ds))"

subsection \<open>The commands\<close>

text \<open>
  Scores bounds are \<open>None\<close> for \<open>-inf\<close> and \<open>+inf\<close>. A command that answers with a number the
  code returns gives it beside the new state. \<open>r_ttl\<close> is the deadline at which the server drops
  a key, \<open>r_clock\<close> the server's clock.
\<close>

record 'r redis =
  view :: "'r \<Rightarrow> db"
  r_ttl :: "key \<Rightarrow> 'r \<Rightarrow> time option"
  r_clock :: "'r \<Rightarrow> time"
  r_zadd :: "key \<Rightarrow> (score \<times> member) list \<Rightarrow> 'r \<Rightarrow> nat \<times> 'r"
  r_zrem :: "key \<Rightarrow> member \<Rightarrow> 'r \<Rightarrow> nat \<times> 'r"
  r_zremrangebyrank :: "key \<Rightarrow> int \<Rightarrow> int \<Rightarrow> 'r \<Rightarrow> 'r"
  r_zremrangebyscore :: "key \<Rightarrow> score \<Rightarrow> score \<Rightarrow> 'r \<Rightarrow> 'r"
  r_zscore :: "key \<Rightarrow> member \<Rightarrow> 'r \<Rightarrow> score option"
  r_zcard :: "key \<Rightarrow> 'r \<Rightarrow> nat"
  r_zrangebyscore :: "key \<Rightarrow> score option \<Rightarrow> score option \<Rightarrow> int \<Rightarrow> 'r \<Rightarrow> (score \<times> member) list"
  r_zrange :: "key \<Rightarrow> int \<Rightarrow> int \<Rightarrow> 'r \<Rightarrow> (score \<times> member) list"
  r_sadd :: "key \<Rightarrow> string \<Rightarrow> 'r \<Rightarrow> 'r"
  r_srem :: "key \<Rightarrow> string \<Rightarrow> 'r \<Rightarrow> nat \<times> 'r"
  r_smembers :: "key \<Rightarrow> 'r \<Rightarrow> string list"
  r_exists :: "key \<Rightarrow> 'r \<Rightarrow> bool"
  r_del :: "key list \<Rightarrow> 'r \<Rightarrow> nat \<times> 'r"
  r_expire :: "key \<Rightarrow> int \<Rightarrow> 'r \<Rightarrow> 'r"
  r_get :: "key \<Rightarrow> 'r \<Rightarrow> string option"
  r_set :: "key \<Rightarrow> string \<Rightarrow> 'r \<Rightarrow> 'r"
  r_incr :: "key \<Rightarrow> 'r \<Rightarrow> 'r"
  r_rpush :: "key \<Rightarrow> string \<Rightarrow> 'r \<Rightarrow> 'r"
  r_ltrim :: "key \<Rightarrow> int \<Rightarrow> int \<Rightarrow> 'r \<Rightarrow> 'r"
  r_lrange :: "key \<Rightarrow> int \<Rightarrow> int \<Rightarrow> 'r \<Rightarrow> string list"
  r_llen :: "key \<Rightarrow> 'r \<Rightarrow> nat"
  r_lindex :: "key \<Rightarrow> int \<Rightarrow> 'r \<Rightarrow> string option"
  r_publish :: "string \<Rightarrow> string \<Rightarrow> 'r \<Rightarrow> 'r"
  r_lock_acquire :: "key \<Rightarrow> time \<Rightarrow> 'r \<Rightarrow> string option \<times> 'r"
  r_lock_release :: "key \<Rightarrow> string \<Rightarrow> 'r \<Rightarrow> bool \<times> 'r"
  r_lock_reacquire :: "key \<Rightarrow> string \<Rightarrow> 'r \<Rightarrow> bool \<times> 'r"

subsection \<open>The laws\<close>

locale redis_server =
  fixes R :: "'r redis" and kind :: "key \<Rightarrow> ktype"
  assumes view_zadd [redis_law]: "kind k = KZset \<Longrightarrow> ps \<noteq> [] \<Longrightarrow>
      view R (snd (r_zadd R k ps s)) =
        (view R s)\<lparr>zsets := (zsets (view R s))(k := zins_all ps (zsets (view R s) k))\<rparr>"
    and reply_zadd: "kind k = KZset \<Longrightarrow>
      fst (r_zadd R k [(sc, m)] s) = (if zget (zsets (view R s) k) m = None then 1 else 0)"
    and view_zrem [redis_law]: "kind k = KZset \<Longrightarrow>
      view R (snd (r_zrem R k m s)) =
        (view R s)\<lparr>zsets := (zsets (view R s))(k := zdel m (zsets (view R s) k))\<rparr>"
    and view_zremrangebyrank [redis_law]: "kind k = KZset \<Longrightarrow> 0 \<le> j \<Longrightarrow>
      view R (r_zremrangebyrank R k 0 j s) =
        (view R s)\<lparr>zsets := (zsets (view R s))(k := zdrop (nat (j + 1)) (zsets (view R s) k))\<rparr>"
    and view_zremrangebyscore [redis_law]: "kind k = KZset \<Longrightarrow>
      view R (r_zremrangebyscore R k lo hi s) =
        (view R s)\<lparr>zsets := (zsets (view R s))
          (k := zfilter (\<lambda>e. \<not> (lo \<le> fst e \<and> fst e \<le> hi)) (zsets (view R s) k))\<rparr>"
    and zscore [redis_law]: "kind k = KZset \<Longrightarrow> r_zscore R k m s = zget (zsets (view R s) k) m"
    and zcard [redis_law]: "kind k = KZset \<Longrightarrow> r_zcard R k s = length (zlist (zsets (view R s) k))"
    and zrangebyscore [redis_law]: "kind k = KZset \<Longrightarrow>
      r_zrangebyscore R k a b n s =
        limit_take n (filter (\<lambda>e. in_scores a b (fst e)) (zlist (zsets (view R s) k)))"
    and zrange [redis_law]: "kind k = KZset \<Longrightarrow>
      r_zrange R k i j s = slice_range i j (zlist (zsets (view R s) k))"
    and view_sadd [redis_law]: "kind k = KSet \<Longrightarrow>
      view R (r_sadd R k x s) = (view R s)\<lparr>sets := (sets (view R s))(k := insert x (sets (view R s) k))\<rparr>"
    and view_srem [redis_law]: "kind k = KSet \<Longrightarrow>
      view R (snd (r_srem R k x s)) = (view R s)\<lparr>sets := (sets (view R s))(k := sets (view R s) k - {x})\<rparr>"
    and reply_srem [redis_law]: "kind k = KSet \<Longrightarrow>
      fst (r_srem R k x s) = (if x \<in> sets (view R s) k then 1 else 0)"
    and smembers_set [redis_law]: "kind k = KSet \<Longrightarrow> set (r_smembers R k s) = sets (view R s) k"
    and smembers_distinct: "kind k = KSet \<Longrightarrow> distinct (r_smembers R k s)"
    and exists_key [redis_law]: "r_exists R k s \<longleftrightarrow> key_present (kind k) (view R s) k"
    and view_del [redis_law]: "view R (snd (r_del R ks s)) = del_keys (set ks) (view R s)"
    and reply_del: "fst (r_del R ks s) = length (filter (\<lambda>k. r_exists R k s) (remdups ks))"
    and view_expire [redis_law]: "0 < n \<Longrightarrow> view R (r_expire R k n s) = view R s"
    and get_str [redis_law]: "kind k = KStr \<Longrightarrow> r_get R k s = strs (view R s) k"
    and view_set [redis_law]: "kind k = KStr \<Longrightarrow>
      view R (r_set R k x s) = (view R s)\<lparr>strs := (strs (view R s))(k := Some x)\<rparr>"
    and view_incr [redis_law]: "kind k = KStr \<Longrightarrow>
      view R (r_incr R k s) =
        (view R s)\<lparr>strs := (strs (view R s))(k := Some (incr_string (strs (view R s) k)))\<rparr>"
    and view_rpush [redis_law]: "kind k = KList \<Longrightarrow>
      view R (r_rpush R k x s) = (view R s)\<lparr>lists := (lists (view R s))(k := lists (view R s) k @ [x])\<rparr>"
    and view_ltrim [redis_law]: "kind k = KList \<Longrightarrow>
      view R (r_ltrim R k i j s) =
        (view R s)\<lparr>lists := (lists (view R s))(k := slice_range i j (lists (view R s) k))\<rparr>"
    and lrange [redis_law]: "kind k = KList \<Longrightarrow> r_lrange R k i j s = slice_range i j (lists (view R s) k)"
    and llen [redis_law]: "kind k = KList \<Longrightarrow> r_llen R k s = length (lists (view R s) k)"
    and lindex_last [redis_law]: "kind k = KList \<Longrightarrow>
      r_lindex R k (- 1) s = (if lists (view R s) k = [] then None else Some (last (lists (view R s) k)))"
    and view_publish [redis_law]:
      "view R (r_publish R c x s) = (view R s)\<lparr>published := published (view R s) @ [(c, x)]\<rparr>"
    and lock_acquire_None [redis_law]: "kind k = KLock \<Longrightarrow>
      fst (r_lock_acquire R k t s) = None \<longleftrightarrow> held (view R s) k \<noteq> None"
    and view_lock_acquire [redis_law]: "kind k = KLock \<Longrightarrow>
      view R (snd (r_lock_acquire R k t s)) =
        (case fst (r_lock_acquire R k t s) of None \<Rightarrow> view R s
         | Some token \<Rightarrow> (view R s)\<lparr>held := (held (view R s))(k \<mapsto> token)\<rparr>)"
    and lock_release [redis_law]: "kind k = KLock \<Longrightarrow>
      fst (r_lock_release R k tok s) \<longleftrightarrow> held (view R s) k = Some tok"
    and view_lock_release [redis_law]: "kind k = KLock \<Longrightarrow>
      view R (snd (r_lock_release R k tok s)) =
        (if held (view R s) k = Some tok
         then (view R s)\<lparr>held := (held (view R s))(k := None)\<rparr> else view R s)"
    and lock_reacquire [redis_law]: "kind k = KLock \<Longrightarrow>
      fst (r_lock_reacquire R k tok s) \<longleftrightarrow> held (view R s) k = Some tok"
    and view_lock_reacquire [redis_law]: "kind k = KLock \<Longrightarrow>
      view R (snd (r_lock_reacquire R k tok s)) = view R s"
    and ttl_absent: "\<not> r_exists R k s \<Longrightarrow> r_ttl R k s = None"
    and ttl_zadd: "kind k = KZset \<Longrightarrow> r_ttl R k' (snd (r_zadd R k ps s)) = r_ttl R k' s"
    and ttl_zremrangebyscore: "kind k = KZset \<Longrightarrow>
      r_ttl R k' (r_zremrangebyscore R k lo hi s) =
        (if r_exists R k' (r_zremrangebyscore R k lo hi s) then r_ttl R k' s else None)"
    and ttl_expire: "0 < n \<Longrightarrow> r_ttl R k' (r_expire R k n s) =
        (if k' = k \<and> r_exists R k s then Some (r_clock R s + of_int n) else r_ttl R k' s)"
    and clock_zadd: "r_clock R (snd (r_zadd R k ps s)) = r_clock R s"
    and clock_zremrangebyscore: "r_clock R (r_zremrangebyscore R k lo hi s) = r_clock R s"
    and clock_expire: "r_clock R (r_expire R k n s) = r_clock R s"

subsection \<open>A server in memory\<close>

record memdb =
  m_zsets :: "key \<Rightarrow> zset"
  m_sets :: "key \<Rightarrow> string list"
  m_strs :: "key \<Rightarrow> string option"
  m_lists :: "key \<Rightarrow> string list"
  m_held :: "key \<Rightarrow> string option"
  m_ttl :: "key \<Rightarrow> time option"
  m_clock :: time
  m_published :: "(string \<times> string) list"

definition mem_view :: "memdb \<Rightarrow> db" where
  "mem_view d = \<lparr>zsets = m_zsets d, sets = (\<lambda>k. set (m_sets d k)), strs = m_strs d,
     lists = m_lists d, held = m_held d, published = m_published d\<rparr>"

definition mem_empty :: memdb where
  "mem_empty = \<lparr>m_zsets = (\<lambda>_. zempty), m_sets = (\<lambda>_. []), m_strs = (\<lambda>_. None),
     m_lists = (\<lambda>_. []), m_held = (\<lambda>_. None), m_ttl = (\<lambda>_. None), m_clock = 0,
     m_published = []\<rparr>"

definition mem_present :: "(key \<Rightarrow> ktype) \<Rightarrow> key \<Rightarrow> memdb \<Rightarrow> bool" where
  "mem_present kind k d =
     (case kind k of
        KZset \<Rightarrow> zlist (m_zsets d k) \<noteq> []
      | KSet \<Rightarrow> m_sets d k \<noteq> []
      | KStr \<Rightarrow> m_strs d k \<noteq> None
      | KList \<Rightarrow> m_lists d k \<noteq> []
      | KLock \<Rightarrow> m_held d k \<noteq> None)"

text \<open>A write at a key that is absent forgets the deadline a former value left behind.\<close>

definition mem_fresh :: "(key \<Rightarrow> ktype) \<Rightarrow> key \<Rightarrow> memdb \<Rightarrow> memdb" where
  "mem_fresh kind k d =
     (if mem_present kind k d then d else d\<lparr>m_ttl := (m_ttl d)(k := None)\<rparr>)"

definition mem_zput :: "(key \<Rightarrow> ktype) \<Rightarrow> key \<Rightarrow> zset \<Rightarrow> memdb \<Rightarrow> memdb" where
  "mem_zput kind k z d = (mem_fresh kind k d)\<lparr>m_zsets := (m_zsets d)(k := z)\<rparr>"

definition mem_del :: "key list \<Rightarrow> memdb \<Rightarrow> memdb" where
  "mem_del ks d = d
     \<lparr>m_zsets := (\<lambda>k. if k \<in> set ks then zempty else m_zsets d k),
      m_sets := (\<lambda>k. if k \<in> set ks then [] else m_sets d k),
      m_strs := (\<lambda>k. if k \<in> set ks then None else m_strs d k),
      m_lists := (\<lambda>k. if k \<in> set ks then [] else m_lists d k),
      m_held := (\<lambda>k. if k \<in> set ks then None else m_held d k)\<rparr>"

definition mem_redis :: "(key \<Rightarrow> ktype) \<Rightarrow> memdb redis" where
  "mem_redis kind =
   \<lparr>view = mem_view,
    r_ttl = (\<lambda>k d. if mem_present kind k d then m_ttl d k else None),
    r_clock = m_clock,
    r_zadd = (\<lambda>k ps d. (length (filter (\<lambda>m. zget (m_zsets d k) m = None) (remdups (map snd ps))),
                          mem_zput kind k (zins_all ps (m_zsets d k)) d)),
    r_zrem = (\<lambda>k m d. (if zget (m_zsets d k) m = None then 0 else 1,
                         mem_zput kind k (zdel m (m_zsets d k)) d)),
    r_zremrangebyrank = (\<lambda>k i j d. mem_zput kind k (zdrop (nat (j + 1)) (m_zsets d k)) d),
    r_zremrangebyscore = (\<lambda>k lo hi d.
       mem_zput kind k (zfilter (\<lambda>e. \<not> (lo \<le> fst e \<and> fst e \<le> hi)) (m_zsets d k)) d),
    r_zscore = (\<lambda>k m d. zget (m_zsets d k) m),
    r_zcard = (\<lambda>k d. length (zlist (m_zsets d k))),
    r_zrangebyscore = (\<lambda>k lo hi n d.
       limit_take n (filter (\<lambda>e. in_scores lo hi (fst e)) (zlist (m_zsets d k)))),
    r_zrange = (\<lambda>k i j d. slice_range i j (zlist (m_zsets d k))),
    r_sadd = (\<lambda>k x d. (mem_fresh kind k d)\<lparr>m_sets := (m_sets d)(k := List.insert x (m_sets d k))\<rparr>),
    r_srem = (\<lambda>k x d. (if x \<in> set (m_sets d k) then 1 else 0,
                         d\<lparr>m_sets := (m_sets d)(k := filter (\<lambda>y. y \<noteq> x) (m_sets d k))\<rparr>)),
    r_smembers = (\<lambda>k d. remdups (m_sets d k)),
    r_exists = mem_present kind,
    r_del = (\<lambda>ks d. (length (filter (\<lambda>k. mem_present kind k d) (remdups ks)), mem_del ks d)),
    r_expire = (\<lambda>k n d. if mem_present kind k d
                          then d\<lparr>m_ttl := (m_ttl d)(k := Some (m_clock d + of_int n))\<rparr> else d),
    r_get = (\<lambda>k d. m_strs d k),
    r_set = (\<lambda>k x d. d\<lparr>m_strs := (m_strs d)(k := Some x), m_ttl := (m_ttl d)(k := None)\<rparr>),
    r_incr = (\<lambda>k d. (mem_fresh kind k d)\<lparr>m_strs := (m_strs d)(k := Some (incr_string (m_strs d k)))\<rparr>),
    r_rpush = (\<lambda>k x d. (mem_fresh kind k d)\<lparr>m_lists := (m_lists d)(k := m_lists d k @ [x])\<rparr>),
    r_ltrim = (\<lambda>k i j d. d\<lparr>m_lists := (m_lists d)(k := slice_range i j (m_lists d k))\<rparr>),
    r_lrange = (\<lambda>k i j d. slice_range i j (m_lists d k)),
    r_llen = (\<lambda>k d. length (m_lists d k)),
    r_lindex = (\<lambda>k i d. case slice_range i i (m_lists d k) of [] \<Rightarrow> None | x # _ \<Rightarrow> Some x),
    r_publish = (\<lambda>c x d. d\<lparr>m_published := m_published d @ [(c, x)]\<rparr>),
    r_lock_acquire = (\<lambda>k t d. case m_held d k of None \<Rightarrow> (Some ''token'', d\<lparr>m_held := (m_held d)(k := Some ''token'')\<rparr>)
                                | Some _ \<Rightarrow> (None, d)),
    r_lock_release = (\<lambda>k tok d. if m_held d k = Some tok
                                  then (True, d\<lparr>m_held := (m_held d)(k := None)\<rparr>) else (False, d)),
    r_lock_reacquire = (\<lambda>k tok d. (m_held d k = Some tok, d))\<rparr>"

lemma zlist_eq_Nil_iff [simp]: "zlist z = [] \<longleftrightarrow> z = zempty"
  by (metis zempty.rep_eq zlist_inverse)

lemmas mem_defs = mem_redis_def mem_view_def mem_zput_def mem_fresh_def mem_del_def del_keys_def

lemma mem_present_view: "mem_present kind k d \<longleftrightarrow> key_present (kind k) (mem_view d) k"
  by (simp add: mem_present_def mem_view_def split: ktype.split)

lemma slice_range_last_elem:
  "(case slice_range (- 1) (- 1) xs of [] \<Rightarrow> None | x # _ \<Rightarrow> Some x) =
     (if xs = [] then None else Some (last xs))"
proof (cases xs rule: rev_cases)
  case (snoc ys y)
  then have "slice_range (- 1) (- 1) xs = [y]"
    by (simp add: slice_range_last)
  with snoc show ?thesis by simp
qed (simp add: slice_range_def)

interpretation mem: redis_server "mem_redis kind" kind
proof (unfold_locales, goal_cases)
  case (15 k s)
  then show ?case by (simp add: mem_redis_def mem_present_view)
next
  case (26 k s)
  then show ?case by (simp add: mem_redis_def mem_view_def slice_range_last_elem)
qed (auto simp: mem_defs fun_eq_iff mem_present_def split: ktype.split option.split if_splits)

end
