(* ===== verification/Tiger_Keys.thy ===== *)
theory Tiger_Keys
  imports Redis_Server
begin

text \<open>
  The Redis keys of TaskTiger: \<^verbatim>\<open>TaskTiger._key\<close> joins the configured prefix and the parts of a
  key with colons, without escaping. Keys whose parts before the last are free of colons never
  collide. The locale \<open>tiger_redis\<close> is a Redis server on which every key of TaskTiger holds the
  type of data that the comment at the head of \<^verbatim>\<open>tasktiger/tasktiger.py\<close> gives it.
\<close>

subsection \<open>Task states\<close>

datatype task_state = QUEUED | ACTIVE | SCHEDULED | ERROR

fun state_name :: "task_state \<Rightarrow> string" where
  "state_name QUEUED = ''queued''"
| "state_name ACTIVE = ''active''"
| "state_name SCHEDULED = ''scheduled''"
| "state_name ERROR = ''error''"

definition all_states :: "task_state list" where
  "all_states = [ACTIVE, QUEUED, ERROR, SCHEDULED]"

lemma all_states_set [simp]: "st \<in> set all_states"
  by (cases st) (simp_all add: all_states_def)

text \<open>There are finitely many states, so that quantifiers over them compute.\<close>

instantiation task_state :: enum
begin

definition enum_task_state :: "task_state list" where
  "enum_task_state = all_states"

definition enum_all_task_state :: "(task_state \<Rightarrow> bool) \<Rightarrow> bool" where
  "enum_all_task_state P = list_all P all_states"

definition enum_ex_task_state :: "(task_state \<Rightarrow> bool) \<Rightarrow> bool" where
  "enum_ex_task_state P = list_ex P all_states"

instance
proof
  show "(UNIV :: task_state set) = set enum_class.enum"
    by (auto simp: enum_task_state_def)
  show "distinct (enum_class.enum :: task_state list)"
    by (simp add: enum_task_state_def all_states_def)
  show "enum_class.enum_all P \<longleftrightarrow> Ball UNIV P" "enum_class.enum_ex P \<longleftrightarrow> Bex UNIV P" for P :: "task_state \<Rightarrow> bool"
    by (auto simp: enum_all_task_state_def enum_ex_task_state_def list_all_iff list_ex_iff)
qed

end

lemma ex_state: "(\<exists>st. P st) \<longleftrightarrow> (\<exists>st \<in> {ACTIVE, QUEUED, ERROR, SCHEDULED}. P st)"
  using UNIV_enum [where 'a = task_state] by (auto simp: enum_task_state_def all_states_def)

lemma state_name_inject [simp]: "state_name a = state_name b \<longleftrightarrow> a = b"
  by (cases a; cases b) simp_all

subsection \<open>Joining the parts of a key\<close>

fun str_join :: "string \<Rightarrow> string list \<Rightarrow> string" where
  "str_join sep [] = []"
| "str_join sep [x] = x"
| "str_join sep (x # y # ys) = x @ sep @ str_join sep (y # ys)"

definition tiger_key :: "string \<Rightarrow> string list \<Rightarrow> key" where
  "tiger_key p parts = str_join '':'' (p # parts)"

abbreviation state_key :: "string \<Rightarrow> task_state \<Rightarrow> key" where
  "state_key p st \<equiv> tiger_key p [state_name st]"

abbreviation queue_key :: "string \<Rightarrow> task_state \<Rightarrow> queue_name \<Rightarrow> key" where
  "queue_key p st q \<equiv> tiger_key p [state_name st, q]"

abbreviation task_key :: "string \<Rightarrow> task_id \<Rightarrow> key" where
  "task_key p i \<equiv> tiger_key p [''task'', i]"

abbreviation executions_key :: "string \<Rightarrow> task_id \<Rightarrow> key" where
  "executions_key p i \<equiv> tiger_key p [''task'', i, ''executions'']"

abbreviation count_key :: "string \<Rightarrow> task_id \<Rightarrow> key" where
  "count_key p i \<equiv> tiger_key p [''task'', i, ''executions_count'']"

abbreviation activity_channel :: "string \<Rightarrow> string" where
  "activity_channel p \<equiv> tiger_key p [''activity'']"

definition colon_free :: "string \<Rightarrow> bool" where
  "colon_free x \<longleftrightarrow> CHR '':'' \<notin> set x"

lemma colon_free_state [simp]: "colon_free (state_name st)"
  by (cases st) (simp_all add: colon_free_def)

definition key_tail :: "string list \<Rightarrow> string" where
  "key_tail parts = concat (map (Cons (CHR '':'')) parts)"

lemma str_join_colon: "str_join '':'' (x # xs) = x @ key_tail xs"
  by (induction xs arbitrary: x) (simp_all add: key_tail_def)

lemma tiger_key_tail: "tiger_key p parts = p @ key_tail parts"
  by (simp add: tiger_key_def str_join_colon)

lemma key_tail_simps [simp]:
  "key_tail [] = []" "key_tail (x # xs) = CHR '':'' # x @ key_tail xs"
  by (simp_all add: key_tail_def)

text \<open>What follows a part starts with a colon, so the first part can be read off.\<close>

lemma colon_free_append_eq:
  assumes "colon_free x" "colon_free y"
    and "u = [] \<or> hd u = CHR '':''" "v = [] \<or> hd v = CHR '':''"
  shows "x @ u = y @ v \<longleftrightarrow> x = y \<and> u = v"
proof -
  have takes: "takeWhile (\<lambda>c. c \<noteq> CHR '':'') (x @ u) = x" if "colon_free x"
      "u = [] \<or> hd u = CHR '':''" for x u
    using that by (subst takeWhile_append2) (cases u; auto simp: colon_free_def)+
  show ?thesis
    using takes [OF assms(1,3)] takes [OF assms(2,4)] by (metis same_append_eq)
qed

lemma key_tail_hd: "key_tail xs = [] \<or> hd (key_tail xs) = CHR '':''"
  by (cases xs) simp_all

lemma tiger_key_eq:
  assumes "colon_free a" "colon_free b"
  shows "tiger_key p (a # as) = tiger_key p (b # bs) \<longleftrightarrow> a = b \<and> key_tail as = key_tail bs"
  using colon_free_append_eq [OF assms key_tail_hd key_tail_hd]
  by (simp add: tiger_key_tail)

lemma colon_free_lits [simp]:
  "colon_free ''task''" "colon_free ''executions''" "colon_free ''executions_count''"
  "colon_free ''qslock''" "colon_free ''lockv2''" "colon_free ''activity''"
  by (simp_all add: colon_free_def)

lemma state_name_neq_lits [simp]:
  "state_name st \<noteq> ''task''" "''task'' \<noteq> state_name st"
  "state_name st \<noteq> ''qslock''" "''qslock'' \<noteq> state_name st"
  "state_name st \<noteq> ''lockv2''" "''lockv2'' \<noteq> state_name st"
  by (cases st; simp)+

lemma queue_key_inject [simp]:
  "queue_key p st q = queue_key p st' q' \<longleftrightarrow> st = st' \<and> q = q'"
  by (simp add: tiger_key_eq)

lemma state_key_inject [simp]: "state_key p st = state_key p st' \<longleftrightarrow> st = st'"
  by (simp add: tiger_key_eq)

text \<open>A task's three keys differ from all keys of queues, and from those of other tasks.\<close>

lemma task_keys_neq [key_law]:
  "task_key p i \<noteq> state_key p st" "task_key p i \<noteq> queue_key p st q"
  "executions_key p i \<noteq> state_key p st" "executions_key p i \<noteq> queue_key p st q"
  "count_key p i \<noteq> state_key p st" "count_key p i \<noteq> queue_key p st q"
  by (simp_all add: tiger_key_eq)

lemma task_key_inject [simp]: "task_key p i = task_key p j \<longleftrightarrow> i = j"
  by (simp add: tiger_key_eq)

lemma task_parts_eq:
  assumes "colon_free i" "colon_free j"
  shows "tiger_key p (''task'' # i # as) = tiger_key p (''task'' # j # bs) \<longleftrightarrow>
    i = j \<and> key_tail as = key_tail bs"
  using colon_free_append_eq [OF assms key_tail_hd key_tail_hd]
  by (simp add: tiger_key_eq)

subsection \<open>A server that types the keys as TaskTiger uses them\<close>

locale tiger_redis = redis_server R kind
  for R :: "'r redis" and kind :: "key \<Rightarrow> ktype" +
  fixes p :: string
  assumes kind_state [key_law]: "kind (state_key p st) = KSet"
    and kind_queue [key_law]: "kind (queue_key p st q) = KZset"
    and kind_task [key_law]: "colon_free i \<Longrightarrow> kind (task_key p i) = KStr"
    and kind_executions [key_law]: "kind (executions_key p i) = KList"
    and kind_count [key_law]: "kind (count_key p i) = KStr"
    and kind_qslock [key_law]: "kind (tiger_key p [''qslock'', q]) = KZset"
    and kind_lock [key_law]: "kind (tiger_key p (''lockv2'' # parts)) = KLock"

text \<open>The comment's types as a function of the key, by the part after the prefix.\<close>

definition tiger_kind :: "string \<Rightarrow> key \<Rightarrow> ktype" where
  "tiger_kind p k =
     (if k \<in> set (map (state_key p) all_states) then KSet
      else if prefix (p @ '':task:'') k then
        (if suffix '':executions'' (drop (length p + 6) k) then KList else KStr)
      else if prefix (p @ '':lockv2'') k then KLock
      else KZset)"

lemma tiger_kind_state: "tiger_kind p (state_key p st) = KSet"
  by (simp add: tiger_kind_def)

lemma tiger_key_not_state:
  "colon_free a \<Longrightarrow> (\<forall>st. a \<noteq> state_name st) \<or> as \<noteq> [] \<Longrightarrow>
    tiger_key p (a # as) \<notin> set (map (state_key p) all_states)"
  by (auto simp: tiger_key_eq neq_Nil_conv)

lemma prefix_tiger_key:
  assumes "colon_free a" "colon_free b" "a \<noteq> b"
  shows "\<not> prefix (p @ CHR '':'' # b @ '':'') (tiger_key p (a # as))"
proof
  assume "prefix (p @ CHR '':'' # b @ '':'') (tiger_key p (a # as))"
  then obtain w where "a @ key_tail as = b @ CHR '':'' # w"
    by (auto simp: prefix_def tiger_key_tail)
  then have "a = b"
    using colon_free_append_eq [OF assms(1,2) key_tail_hd, of "CHR '':'' # w"] by simp
  with assms(3) show False by simp
qed

lemma tiger_kind_queue: "tiger_kind p (queue_key p st q) = KZset"
proof -
  have "queue_key p st q \<notin> set (map (state_key p) all_states)"
    by (rule tiger_key_not_state) simp_all
  moreover have "\<not> prefix (p @ '':task:'') (queue_key p st q)"
    using prefix_tiger_key [of "state_name st" "''task''" p "[q]"] by simp
  moreover have "\<not> prefix (p @ '':lockv2'') (queue_key p st q)"
    by (cases st) (simp_all add: tiger_key_tail)
  ultimately show ?thesis by (simp add: tiger_kind_def)
qed

lemma suffix_colon_free: "colon_free i \<Longrightarrow> \<not> suffix (CHR '':'' # w) i"
  by (auto simp: suffix_def colon_free_def)

lemma tiger_kind_task_parts:
  "tiger_kind p (tiger_key p (''task'' # i # as)) =
     (if suffix '':executions'' (i @ key_tail as) then KList else KStr)"
  using tiger_key_not_state [of "''task''" "i # as" p]
  by (simp add: tiger_kind_def) (simp add: tiger_key_tail)

lemma suffix_executions_count: "\<not> suffix '':executions'' (i @ '':executions_count'')"
  by (auto simp: suffix_def dest!: arg_cong [where f = last])

interpretation tiger_mem: tiger_redis "mem_redis (tiger_kind p)" "tiger_kind p" p
proof (unfold_locales, goal_cases)
  case (2 st q)
  show ?case by (rule tiger_kind_queue)
next
  case (3 i)
  then show ?case by (simp add: tiger_kind_task_parts suffix_colon_free)
next
  case (4 i)
  show ?case by (simp add: tiger_kind_task_parts suffix_def)
next
  case (5 i)
  show ?case using suffix_executions_count [of i] by (simp add: tiger_kind_task_parts)
next
  case (6 q)
  show ?case
    using tiger_key_not_state [of "''qslock''" "[q]" p]
    by (auto simp: tiger_kind_def tiger_key_tail prefix_def)
next
  case (7 parts)
  show ?case
    using tiger_key_not_state [of "''lockv2''" parts p]
    by (simp add: tiger_kind_def) (simp add: tiger_key_tail)
qed (simp add: tiger_kind_state)

text \<open>From here on the names of states stay folded, so that keys keep the form the laws speak of.\<close>

declare state_name.simps [simp del]

end
