(* ===== verification/Internals.thy ===== *)
theory Internals
  imports Tiger_Keys
begin

text \<open>
  The helpers of \<^verbatim>\<open>tasktiger/_internal.py\<close>: the parts of dotted queue names and the queue filter,
  the names under which functions are serialized and imported again, the identifiers of unique
  tasks, and time stamps.
\<close>

subsection \<open>Dotted names\<close>

text \<open>
  \<open>str_find c s i\<close> and \<open>str_rfind c s n\<close> are Python's \<^verbatim>\<open>s.find(c, i)\<close> and \<^verbatim>\<open>s.rfind(c, 0, n)\<close>,
  with \<open>None\<close> for \<open>-1\<close>.
\<close>

definition str_find :: "char \<Rightarrow> string \<Rightarrow> nat \<Rightarrow> nat option" where
  "str_find c s i = find (\<lambda>j. s ! j = c) [i..<length s]"

definition str_rfind :: "char \<Rightarrow> string \<Rightarrow> nat \<Rightarrow> nat option" where
  "str_rfind c s n = find (\<lambda>j. s ! j = c) (rev [0..<n])"

lemma str_find_SomeD: "str_find c s i = Some j \<Longrightarrow> i \<le> j \<and> j < length s \<and> s ! j = c"
  by (auto simp: str_find_def find_Some_iff)

lemma str_rfind_SomeD: "str_rfind c s n = Some j \<Longrightarrow> j < n \<and> s ! j = c"
  by (auto simp: str_rfind_def find_Some_iff rev_nth)

text \<open>The loop of \<^verbatim>\<open>dotted_parts\<close> from the position after the last dot it found.\<close>

function dotted_from :: "string \<Rightarrow> nat \<Rightarrow> string list" where
  "dotted_from s i =
     (case str_find (CHR ''.'') s i of
        None \<Rightarrow> [s]
      | Some j \<Rightarrow> take j s # dotted_from s (Suc j))"
  by pat_completeness auto
termination
  by (relation "measure (\<lambda>(s, i). length s - i)") (auto dest: str_find_SomeD)

definition dotted_parts :: "string \<Rightarrow> string list" where
  "dotted_parts s = (if s = [] then [] else dotted_from s 0)"

text \<open>
  The loop of \<^verbatim>\<open>reversed_dotted_parts\<close> searches below its last dot. It starts with the index
  \<open>-1\<close>, which Python reads as the position of the last character, so a dot there is not seen.
\<close>

function rev_dotted_below :: "string \<Rightarrow> nat \<Rightarrow> string list" where
  "rev_dotted_below s n =
     (case str_rfind (CHR ''.'') s n of
        None \<Rightarrow> []
      | Some j \<Rightarrow> take j s # rev_dotted_below s j)"
  by pat_completeness auto
termination
  by (relation "measure snd") (auto dest: str_rfind_SomeD)

definition reversed_dotted_parts :: "string \<Rightarrow> string list" where
  "reversed_dotted_parts s = (if s = [] then [] else s # rev_dotted_below s (length s - 1))"

declare dotted_from.simps [simp del] rev_dotted_below.simps [simp del]

definition dot_positions :: "string \<Rightarrow> nat \<Rightarrow> nat list" where
  "dot_positions s n = filter (\<lambda>j. s ! j = CHR ''.'') [0..<n]"

lemma upt_split: "i \<le> j \<Longrightarrow> j < n \<Longrightarrow> [i..<n] = [i..<j] @ j # [Suc j..<n]"
  using upt_add_eq_append [of i j "n - j"] by (simp add: upt_conv_Cons)

lemma find_upt_SomeD:
  assumes "find P [i..<n] = Some j"
  shows "filter P [i..<n] = j # filter P [Suc j..<n]"
proof -
  from assms obtain k where "k < n - i" and k: "P (i + k)" "j = i + k" "\<forall>l < k. \<not> P (i + l)"
    by (auto simp: find_Some_iff)
  then have n: "i + k < n" by simp
  have "\<not> P m" if "m \<in> set [i..<j]" for m
    using that k(2,3) by (metis atLeastLessThan_iff le_add_diff_inverse nat_add_left_cancel_less set_upt)
  then have "filter P [i..<j] = []" by (simp add: filter_empty_conv)
  with k n show ?thesis by (simp add: upt_split [of i j n])
qed

lemma find_rev_upt_SomeD:
  assumes "find P (rev [0..<n]) = Some j"
  shows "filter P [0..<n] = filter P [0..<j] @ [j]"
  using assms
proof (induction n)
  case (Suc n)
  then show ?case by (cases "P n") auto
qed simp

lemma dotted_from_eq: "dotted_from s i =
    map (\<lambda>j. take j s) (filter (\<lambda>j. s ! j = CHR ''.'') [i..<length s]) @ [s]"
proof (induction s i rule: dotted_from.induct)
  case (1 s i)
  show ?case
  proof (cases "str_find (CHR ''.'') s i")
    case None
    then have "filter (\<lambda>j. s ! j = CHR ''.'') [i..<length s] = []"
      by (simp add: str_find_def find_None_iff filter_empty_conv)
    with None show ?thesis by (subst dotted_from.simps) simp
  next
    case (Some j)
    with 1 show ?thesis
      by (subst dotted_from.simps) (simp add: str_find_def find_upt_SomeD [OF Some [unfolded str_find_def]])
  qed
qed

lemma rev_dotted_below_eq:
  "rev_dotted_below s n = map (\<lambda>j. take j s) (rev (dot_positions s n))"
proof (induction s n rule: rev_dotted_below.induct)
  case (1 s n)
  show ?case
  proof (cases "str_rfind (CHR ''.'') s n")
    case None
    then have "dot_positions s n = []"
      by (simp add: str_rfind_def dot_positions_def find_None_iff filter_empty_conv)
    with None show ?thesis by (subst rev_dotted_below.simps) simp
  next
    case (Some j)
    with 1 show ?thesis
      by (subst rev_dotted_below.simps)
        (simp add: str_rfind_def dot_positions_def find_rev_upt_SomeD)
  qed
qed

lemma dotted_parts_eq:
  "s \<noteq> [] \<Longrightarrow> dotted_parts s = map (\<lambda>j. take j s) (dot_positions s (length s)) @ [s]"
  by (simp add: dotted_parts_def dotted_from_eq dot_positions_def)

lemma reversed_dotted_parts_eq: "s \<noteq> [] \<Longrightarrow>
    reversed_dotted_parts s = s # map (\<lambda>j. take j s) (rev (dot_positions s (length s - 1)))"
  by (simp add: reversed_dotted_parts_def rev_dotted_below_eq)

lemma dot_positions_last: "s \<noteq> [] \<Longrightarrow> dot_positions s (length s) =
    dot_positions s (length s - 1) @ (if last s = CHR ''.'' then [length s - 1] else [])"
  by (cases s rule: rev_cases) (simp_all add: dot_positions_def)

lemma set_dotted_parts: "x \<in> set (dotted_parts s) \<longleftrightarrow> s \<noteq> [] \<and> (x = s \<or> prefix (x @ ''.'') s)"
proof (cases "s = []")
  case False
  have "(\<exists>j < length s. s ! j = CHR ''.'' \<and> x = take j s) \<longleftrightarrow> prefix (x @ ''.'') s"
  proof
    assume "\<exists>j < length s. s ! j = CHR ''.'' \<and> x = take j s"
    then obtain j where "j < length s" "s ! j = CHR ''.''" "x = take j s" by blast
    then have "x @ ''.'' = take (Suc j) s" by (simp add: take_Suc_conv_app_nth)
    then show "prefix (x @ ''.'') s" by (simp add: take_is_prefix)
  next
    assume "prefix (x @ ''.'') s"
    then have "s ! length x = CHR ''.''" "x = take (length x) s" "length x < length s"
      by (auto simp: prefix_def)
    then show "\<exists>j < length s. s ! j = CHR ''.'' \<and> x = take j s" by blast
  qed
  with False show ?thesis by (auto simp: dotted_parts_eq dot_positions_def)
qed (simp add: dotted_parts_def)

text \<open>Ignoring the order, both generators yield the same parts of a queue name, except that
  \<^verbatim>\<open>reversed_dotted_parts\<close> skips the part before a dot at the very end of the name.\<close>

theorem reversed_dotted_parts_rev:
  "reversed_dotted_parts s =
     (if s \<noteq> [] \<and> last s = CHR ''.'' then s # tl (tl (rev (dotted_parts s)))
      else rev (dotted_parts s))"
proof (cases "s = []")
  case False
  then show ?thesis
    by (simp add: dotted_parts_eq reversed_dotted_parts_eq dot_positions_last rev_map)
qed (simp add: dotted_parts_def reversed_dotted_parts_def)

subsection \<open>The queue filter\<close>

text \<open>
  A string passed where an iterable of names is expected fails an assertion; a missing or empty
  argument restricts nothing.
\<close>

datatype queues_arg = AsString string | AsNames "queue_name list"

fun match_parts :: "string list \<Rightarrow> queue_name list \<Rightarrow> queue_name list \<Rightarrow> bool" where
  "match_parts [] only excl = (only = [])"
| "match_parts (part # parts) only excl =
     (if part \<in> set excl then False
      else if part \<in> set only then True
      else match_parts parts only excl)"

definition queue_included :: "queue_name list \<Rightarrow> queue_name list \<Rightarrow> queue_name \<Rightarrow> bool" where
  "queue_included only excl q = match_parts (reversed_dotted_parts q) only excl"

definition queue_matches :: "queue_name \<Rightarrow> queues_arg \<Rightarrow> queues_arg \<Rightarrow> bool result" where
  "queue_matches q only excl =
     (case only of
        AsString _ \<Rightarrow> Inl AssertionError
      | AsNames only' \<Rightarrow>
          (case excl of
             AsString _ \<Rightarrow> Inl AssertionError
           | AsNames excl' \<Rightarrow> Inr (queue_included only' excl' q)))"

text \<open>A name covers a queue if it is the queue or one of the queues above it.\<close>

definition covers :: "queue_name \<Rightarrow> queue_name \<Rightarrow> bool" where
  "covers x q \<longleftrightarrow> x = q \<or> prefix (x @ ''.'') q"

lemma match_parts_longest:
  assumes "sorted_wrt (\<lambda>x y. length y < length x) parts"
  shows "match_parts parts only excl \<longleftrightarrow>
    (\<exists>y \<in> set parts \<inter> set only. \<forall>x \<in> set parts \<inter> set excl. length x < length y) \<or>
    (only = [] \<and> set parts \<inter> set excl = {})"
  using assms
proof (induction parts)
  case (Cons part parts)
  then have shorter: "length x < length part" if "x \<in> set parts" for x
    using that by simp
  consider "part \<in> set excl" | "part \<notin> set excl" "part \<in> set only"
    | "part \<notin> set excl" "part \<notin> set only"
    by blast
  then show ?case
  proof cases
    case 1
    then show ?thesis using shorter by (auto dest: less_asym)
  next
    case 2
    then show ?thesis using shorter by auto
  next
    case 3
    then show ?thesis using Cons by simp
  qed
qed simp

lemma dotted_parts_sorted: "sorted_wrt (\<lambda>x y. length x < length y) (dotted_parts s)"
proof (cases "s = []")
  case False
  have "sorted_wrt (<) (dot_positions s (length s))"
    unfolding dot_positions_def by (rule sorted_wrt_filter) simp
  moreover have "\<forall>j \<in> set (dot_positions s (length s)). j < length s"
    by (simp add: dot_positions_def)
  ultimately have "sorted_wrt (\<lambda>x y. length x < length y)
      (map (\<lambda>j. take j s) (dot_positions s (length s)))"
    by (auto simp: sorted_wrt_map min_def elim!: sorted_wrt_mono_rel [rotated])
  with False show ?thesis
    by (auto simp: dotted_parts_eq sorted_wrt_append dot_positions_def)
qed (simp add: dotted_parts_def)

text \<open>C35: the most specific name decides: a queue is included if some name of the first list covers
  it and every excluded name that covers it is shorter, or if the first list is empty and no
  excluded name covers it.\<close>

theorem queue_included_iff:
  assumes "q \<noteq> []" and "last q \<noteq> CHR ''.''"
  shows "queue_included only excl q \<longleftrightarrow>
    (\<exists>y \<in> set only. covers y q \<and> (\<forall>x \<in> set excl. covers x q \<longrightarrow> length x < length y)) \<or>
    (only = [] \<and> (\<forall>x \<in> set excl. \<not> covers x q))"
proof -
  have rev: "reversed_dotted_parts q = rev (dotted_parts q)"
    using assms by (simp add: dotted_parts_eq reversed_dotted_parts_eq dot_positions_last rev_map)
  have parts: "set (rev (dotted_parts q)) = {x. covers x q}"
    using assms by (auto simp: set_dotted_parts covers_def)
  have "sorted_wrt (\<lambda>x y. length y < length x) (rev (dotted_parts q))"
    using dotted_parts_sorted by (simp add: sorted_wrt_rev)
  from match_parts_longest [OF this, of only excl] show ?thesis
    unfolding queue_included_def rev parts by blast
qed

lemma covers_example:
  "covers ''a'' ''a.b''" "covers ''a.b'' ''a.b''" "\<not> covers ''b'' ''a.b''"
  by (auto simp: covers_def prefix_def)

theorem queue_included_iff_witness:
  "queue_included [''a'', ''x''] [''b''] ''a.b'' \<and> \<not> queue_included [''a''] [''a.b''] ''a.b''"
  using queue_included_iff [of "''a.b''" "[''a'', ''x'']" "[''b'']"]
    queue_included_iff [of "''a.b''" "[''a'']" "[''a.b'']"]
  by (simp add: covers_example)

subsection \<open>JSON values and identifiers\<close>

datatype json =
    JNull
  | JBool bool
  | JNum rat
  | JStr string
  | JList "json list"
  | JObj "(string \<times> json) list"

instance json :: countable
  by countable_datatype

text \<open>\<open>json_canon\<close> sorts the keys of every object, as \<^verbatim>\<open>sort_keys=True\<close> does.\<close>

fun json_canon :: "json \<Rightarrow> json" where
  "json_canon (JList xs) = JList (map json_canon xs)"
| "json_canon (JObj kvs) = JObj (sort_key fst (map (\<lambda>(k, v). (k, json_canon v)) kvs))"
| "json_canon v = v"

text \<open>
  The encoder and decoder of JSON and the hash (as a hexadecimal string) are parameters; the code
  relies on decoding to undo encoding, on no value being encoded as the empty text, and on hashes without
  colons.
\<close>

record pylib =
  sha256 :: "string \<Rightarrow> string"
  json_dumps :: "json \<Rightarrow> string"
  json_loads :: "string \<Rightarrow> json option"

definition pylib_ok :: "pylib \<Rightarrow> bool" where
  "pylib_ok L \<longleftrightarrow> (\<forall>v. json_loads L (json_dumps L v) = Some v) \<and>
     (\<forall>v. json_dumps L v \<noteq> []) \<and> (\<forall>x. colon_free (sha256 L x))"

definition unique_id_text :: "pylib \<Rightarrow> string \<Rightarrow> json \<Rightarrow> json \<Rightarrow> string" where
  "unique_id_text L serialized_name args kwargs =
     json_dumps L (json_canon
       (JObj [(''func'', JStr serialized_name), (''args'', args), (''kwargs'', kwargs)]))"

definition gen_unique_id :: "pylib \<Rightarrow> string \<Rightarrow> json \<Rightarrow> json \<Rightarrow> task_id" where
  "gen_unique_id L serialized_name args kwargs =
     sha256 L (unique_id_text L serialized_name args kwargs)"

lemma json_loads_dumps [simp]: "pylib_ok L \<Longrightarrow> json_loads L (json_dumps L v) = Some v"
  unfolding pylib_ok_def by blast

lemma json_dumps_inject:
  assumes "pylib_ok L"
  shows "json_dumps L v = json_dumps L w \<longleftrightarrow> v = w"
proof
  assume "json_dumps L v = json_dumps L w"
  then have "json_loads L (json_dumps L v) = json_loads L (json_dumps L w)" by simp
  with assms show "v = w" by simp
qed simp

lemma json_dumps_nonempty [simp]: "pylib_ok L \<Longrightarrow> json_dumps L v \<noteq> []"
  unfolding pylib_ok_def by blast

lemma colon_free_unique_id [simp]: "pylib_ok L \<Longrightarrow> colon_free (gen_unique_id L f args kwargs)"
  unfolding pylib_ok_def gen_unique_id_def by blast

text \<open>A library in which JSON values are numbered, and the digits of a text's number are its hash.\<close>

definition num_lib :: pylib where
  "num_lib = \<lparr>sha256 = (\<lambda>x. dec_of_nat (to_nat x)), json_dumps = (\<lambda>v. dec_of_nat (to_nat v)),
     json_loads = (\<lambda>x. Some (from_nat (nat_of_dec x)))\<rparr>"

lemma colon_free_dec: "colon_free (dec_of_nat n)"
proof (induction n rule: dec_of_nat.induct)
  case (1 n)
  have digit: "CHR '':'' \<noteq> char_of (48 + m)" if "m < 10" for m :: nat
  proof
    assume "CHR '':'' = char_of (48 + m)"
    then have "of_char (char_of (48 + m) :: char) = (of_char (CHR '':'') :: nat)" by simp
    with that show False by (simp add: of_char_of)
  qed
  show ?case
  proof (cases "n < 10")
    case True
    with digit show ?thesis by (subst dec_of_nat.simps) (simp add: colon_free_def)
  next
    case False
    with 1 digit [of "n mod 10"] show ?thesis
      by (subst dec_of_nat.simps) (simp add: colon_free_def)
  qed
qed

lemma dec_of_nat_nonempty: "dec_of_nat n \<noteq> []"
  by (subst dec_of_nat.simps) simp

lemma num_lib_ok: "pylib_ok num_lib"
  by (simp add: pylib_ok_def num_lib_def colon_free_dec dec_of_nat_nonempty)

text \<open>C37: as long as the hash does not collide, two unique tasks get the same identifier exactly if
  they name the same function and their arguments agree up to the order of dictionary keys.\<close>

theorem gen_unique_id_eq_iff:
  assumes "pylib_ok L"
    and "sha256 L (unique_id_text L f args kwargs) = sha256 L (unique_id_text L f' args' kwargs') \<Longrightarrow>
      unique_id_text L f args kwargs = unique_id_text L f' args' kwargs'"
  shows "gen_unique_id L f args kwargs = gen_unique_id L f' args' kwargs' \<longleftrightarrow>
    f = f' \<and> json_canon args = json_canon args' \<and> json_canon kwargs = json_canon kwargs'"
proof -
  have "gen_unique_id L f args kwargs = gen_unique_id L f' args' kwargs' \<longleftrightarrow>
      unique_id_text L f args kwargs = unique_id_text L f' args' kwargs'"
    using assms(2) by (auto simp: gen_unique_id_def)
  then show ?thesis
    unfolding unique_id_text_def json_dumps_inject [OF assms(1)]
    by (auto simp: list_less_def less_char_def)
qed

theorem gen_unique_id_eq_iff_witness:
  "gen_unique_id num_lib ''m:f'' (JList []) (JObj [(''b'', JNum 1), (''a'', JNum 2)]) =
   gen_unique_id num_lib ''m:f'' (JList []) (JObj [(''a'', JNum 2), (''b'', JNum 1)])"
proof -
  have inj: "sha256 num_lib x = sha256 num_lib y \<Longrightarrow> x = y" for x y
    by (metis from_nat_to_nat nat_of_dec_of_nat num_lib_def pylib.select_convs(1))
  show ?thesis
    by (subst gen_unique_id_eq_iff [OF num_lib_ok inj]) (auto simp: less_char_def)
qed

subsection \<open>Names of functions\<close>

record pyfunc =
  fn_module :: string
  fn_qualname :: "string option"
  fn_name :: string

definition serialize_func_name :: "pyfunc \<Rightarrow> string result" where
  "serialize_func_name func =
     (if fn_module func = ''__main__'' then Inl ValueError
      else let func_name = (case fn_qualname func of None \<Rightarrow> fn_name func | Some n \<Rightarrow> n)
           in Inr (str_join '':'' [fn_module func, func_name]))"

text \<open>
  \<open>resolve m a\<close> stands for importing the module \<open>m\<close> and reading its (dotted) attribute \<open>a\<close>;
  \<open>None\<close> stands for \<^verbatim>\<open>ImportError\<close> or \<^verbatim>\<open>AttributeError\<close>. A name without separator makes the
  unpacking of \<^verbatim>\<open>rsplit\<close> fail with \<^verbatim>\<open>ValueError\<close>; all three become \<^verbatim>\<open>TaskImportError\<close>.
\<close>

definition str_rsplit :: "char \<Rightarrow> string \<Rightarrow> (string \<times> string) option" where
  "str_rsplit c s = (case str_rfind c s (length s) of
     None \<Rightarrow> None | Some j \<Rightarrow> Some (take j s, drop (Suc j) s))"

definition import_attribute :: "(string \<Rightarrow> string \<Rightarrow> 'a option) \<Rightarrow> string \<Rightarrow> 'a result" where
  "import_attribute resolve name =
     (let sep = (if CHR '':'' \<in> set name then CHR '':'' else CHR ''.'') in
      case str_rsplit sep name of
        None \<Rightarrow> Inl TaskImportError
      | Some (module_name, attribute) \<Rightarrow>
          (case resolve module_name attribute of
             None \<Rightarrow> Inl TaskImportError
           | Some a \<Rightarrow> Inr a))"

lemma find_rev_upt_Some_iff:
  "find P (rev [0..<n]) = Some j \<longleftrightarrow> j < n \<and> P j \<and> (\<forall>k. j < k \<and> k < n \<longrightarrow> \<not> P k)"
  by (induction n) (auto simp: less_Suc_eq)

lemma str_rsplit_append: "c \<notin> set y \<Longrightarrow> str_rsplit c (x @ c # y) = Some (x, y)"
proof -
  assume y: "c \<notin> set y"
  have "(x @ c # y) ! k \<noteq> c" if "length x < k" "k < length (x @ c # y)" for k
  proof -
    from that obtain i where "k = length x + Suc i" "i < length y"
      by (metis add_Suc_right less_imp_Suc_add length_append length_Cons nat_add_left_cancel_less
          Suc_less_eq)
    with y show ?thesis using nth_append_length_plus [of x "c # y" "Suc i"] by auto
  qed
  then have "str_rfind c (x @ c # y) (length (x @ c # y)) = Some (length x)"
    by (simp only: str_rfind_def find_rev_upt_Some_iff) auto
  then show ?thesis by (simp add: str_rsplit_def)
qed

text \<open>Importing the serialized name of a function reads the attribute of the function's own
  qualified name from its own module, provided that name holds no colon.\<close>

theorem import_serialized:
  assumes "fn_module func \<noteq> ''__main__''"
    and "colon_free (case fn_qualname func of None \<Rightarrow> fn_name func | Some n \<Rightarrow> n)"
  shows "\<exists>name. serialize_func_name func = Inr name \<and>
    import_attribute resolve name =
      (case resolve (fn_module func) (case fn_qualname func of None \<Rightarrow> fn_name func | Some n \<Rightarrow> n) of
         None \<Rightarrow> Inl TaskImportError | Some a \<Rightarrow> Inr a)"
  using assms
  by (simp add: serialize_func_name_def import_attribute_def str_rsplit_append colon_free_def Let_def)

theorem import_serialized_witness:
  "serialize_func_name \<lparr>fn_module = ''tests.tasks'', fn_qualname = Some ''C.run'', fn_name = ''run''\<rparr>
     = Inr ''tests.tasks:C.run'' \<and>
   import_attribute (\<lambda>m a. if m = ''tests.tasks'' \<and> a = ''C.run'' then Some (1::nat) else None)
     ''tests.tasks:C.run'' = Inr 1"
  using import_serialized [of "\<lparr>fn_module = ''tests.tasks'', fn_qualname = Some ''C.run'', fn_name = ''run''\<rparr>"
      "\<lambda>m a. if m = ''tests.tasks'' \<and> a = ''C.run'' then Some (1::nat) else None"]
  by (simp add: serialize_func_name_def colon_free_def)

text \<open>A retry method is a function, or a function with its further arguments.\<close>

datatype retry_method = RetryFunc pyfunc | RetryArgs pyfunc "rat list"

fun serialize_retry_method :: "retry_method \<Rightarrow> (string \<times> rat list) result" where
  "serialize_retry_method (RetryFunc f) = map_sum id (\<lambda>n. (n, [])) (serialize_func_name f)"
| "serialize_retry_method (RetryArgs f args) = map_sum id (\<lambda>n. (n, args)) (serialize_func_name f)"

subsection \<open>Random identifiers\<close>

text \<open>
  \<^verbatim>\<open>gen_id\<close>: the hexadecimal digits of the random bytes that the operating system gives. Different bytes
  give different identifiers, and no identifier contains a colon.
\<close>

definition hex_digit :: "nat \<Rightarrow> char" where
  "hex_digit n = ''0123456789abcdef'' ! n"

definition gen_id :: "nat list \<Rightarrow> string" where
  "gen_id random_bytes = concat (map (\<lambda>b. [hex_digit (b div 16), hex_digit (b mod 16)]) random_bytes)"

lemma hex_digit_inj: "i < 16 \<Longrightarrow> j < 16 \<Longrightarrow> hex_digit i = hex_digit j \<longleftrightarrow> i = j"
proof -
  have "distinct ''0123456789abcdef''" by simp
  then show "i < 16 \<Longrightarrow> j < 16 \<Longrightarrow> hex_digit i = hex_digit j \<longleftrightarrow> i = j"
    unfolding hex_digit_def by (subst nth_eq_iff_index_eq) simp_all
qed

lemma hex_digit_no_colon: "i < 16 \<Longrightarrow> hex_digit i \<noteq> CHR '':''"
proof -
  assume "i < 16"
  then have "hex_digit i \<in> set ''0123456789abcdef''" unfolding hex_digit_def by (intro nth_mem) simp
  then show ?thesis by auto
qed

lemma gen_id_length: "length (gen_id bs) = 2 * length bs"
  by (induction bs) (simp_all add: gen_id_def)

lemma gen_id_colon_free: "list_all (\<lambda>b. b < 256) bs \<Longrightarrow> colon_free (gen_id bs)"
proof (induction bs)
  case (Cons b bs)
  then have "b div 16 < 16" "b mod 16 < 16" by (simp_all add: div_less_iff_less_mult)
  with Cons hex_digit_no_colon [of "b div 16"] hex_digit_no_colon [of "b mod 16"] show ?case
    by (auto simp: gen_id_def colon_free_def)
qed (simp add: gen_id_def colon_free_def)

lemma gen_id_inject:
  "list_all (\<lambda>b. b < 256) as \<Longrightarrow> list_all (\<lambda>b. b < 256) bs \<Longrightarrow> gen_id as = gen_id bs \<longleftrightarrow> as = bs"
proof (induction as arbitrary: bs)
  case Nil
  then show ?case by (cases bs) (simp_all add: gen_id_def)
next
  case (Cons a as)
  show ?case
  proof (cases bs)
    case (Cons b bs')
    have "a div 16 < 16" "b div 16 < 16" "a mod 16 < 16" "b mod 16 < 16"
      using Cons.prems Cons by (simp_all add: div_less_iff_less_mult)
    moreover have "a div 16 = b div 16 \<and> a mod 16 = b mod 16 \<longleftrightarrow> a = b"
      by (metis div_mult_mod_eq)
    moreover have "gen_id (x # xs) = hex_digit (x div 16) # hex_digit (x mod 16) # gen_id xs" for x xs
      by (simp add: gen_id_def)
    ultimately show ?thesis
      using Cons.IH [of bs'] Cons.prems Cons by (auto simp: hex_digit_inj)
  qed (simp add: gen_id_def)
qed

subsection \<open>Time stamps\<close>

text \<open>
  A naive UTC datetime and a timedelta are whole numbers of microseconds (since the epoch, for the
  former).
\<close>

datatype when_arg = WhenNone | WhenDelta int | WhenAt int

definition timestamp_of :: "int \<Rightarrow> time" where
  "timestamp_of us = of_int (us div 1000000) + of_int (us mod 1000000) / 1000000"

fun get_timestamp :: "int \<Rightarrow> when_arg \<Rightarrow> time option" where
  "get_timestamp utcnow WhenNone = None"
| "get_timestamp utcnow (WhenDelta d) = Some (timestamp_of (utcnow + d))"
| "get_timestamp utcnow (WhenAt t) = Some (timestamp_of t)"

lemma timestamp_of_eq: "timestamp_of us = of_int us / 1000000"
proof -
  have "(of_int us :: rat) = of_int (us div 1000000) * 1000000 + of_int (us mod 1000000)"
    by (metis div_mult_mod_eq of_int_add of_int_mult of_int_numeral)
  then show ?thesis by (simp add: timestamp_of_def add_divide_distrib)
qed

lemma timestamp_of_mono: "timestamp_of a \<le> timestamp_of b \<longleftrightarrow> a \<le> b"
  by (simp add: timestamp_of_eq divide_right_mono divide_le_cancel)

end
