(* ===== verification/Redis_Scripts.thy ===== *)
theory Redis_Scripts
  imports Internals
begin

text \<open>
  The Lua scripts of \<^verbatim>\<open>tasktiger/redis_scripts.py\<close>, which Redis runs atomically, and the methods of
  \<^verbatim>\<open>RedisScripts\<close> that call them. A script is a function from the server's state to its reply and
  the new state; keys and arguments come in the order of the script's \<open>KEYS\<close> and \<open>ARGV\<close>.
\<close>

subsection \<open>Adding a member under an update mode\<close>

definition zadd_noupdate :: "'r redis \<Rightarrow> key \<Rightarrow> score \<Rightarrow> member \<Rightarrow> 'r \<Rightarrow> 'r" where
  "zadd_noupdate R key score member s =
     (if r_zscore R key member s = None then snd (r_zadd R key [(score, member)] s) else s)"

definition zadd_update_existing :: "'r redis \<Rightarrow> key \<Rightarrow> score \<Rightarrow> member \<Rightarrow> 'r \<Rightarrow> 'r" where
  "zadd_update_existing R key score member s =
     (if r_zscore R key member s \<noteq> None then snd (r_zadd R key [(score, member)] s) else s)"

definition zadd_update :: "(rat \<Rightarrow> rat \<Rightarrow> rat) \<Rightarrow> 'r redis \<Rightarrow> key \<Rightarrow> score \<Rightarrow> member \<Rightarrow> 'r \<Rightarrow> nat \<times> 'r" where
  "zadd_update f R key score member s =
     (let new_score = (case r_zscore R key member s of None \<Rightarrow> score | Some old \<Rightarrow> f old score)
      in r_zadd R key [(new_score, member)] s)"

definition zadd_update_min :: "'r redis \<Rightarrow> key \<Rightarrow> score \<Rightarrow> member \<Rightarrow> 'r \<Rightarrow> nat \<times> 'r" where
  "zadd_update_min = zadd_update min"

definition zadd_update_max :: "'r redis \<Rightarrow> key \<Rightarrow> score \<Rightarrow> member \<Rightarrow> 'r \<Rightarrow> nat \<times> 'r" where
  "zadd_update_max = zadd_update max"

text \<open>\<^verbatim>\<open>RedisScripts.zadd\<close>; two of the scripts reply with nothing.\<close>

definition scripts_zadd ::
    "'r redis \<Rightarrow> key \<Rightarrow> score \<Rightarrow> member \<Rightarrow> string \<Rightarrow> 'r \<Rightarrow> (nat option \<times> 'r) result" where
  "scripts_zadd R key score member mode s =
     (if mode = ''nx'' then Inr (None, zadd_noupdate R key score member s)
      else if mode = ''xx'' then Inr (None, zadd_update_existing R key score member s)
      else if mode = ''min'' then Inr (apfst Some (zadd_update_min R key score member s))
      else if mode = ''max'' then Inr (apfst Some (zadd_update_max R key score member s))
      else Inl NotImplementedError)"

subsection \<open>Popping members of one sorted set and pushing them to another\<close>

definition pop_members :: "'r redis \<Rightarrow> key \<Rightarrow> score option \<Rightarrow> int \<Rightarrow> 'r \<Rightarrow> member list" where
  "pop_members R source score count s = map snd (r_zrangebyscore R source None score count s)"

definition with_score :: "score \<Rightarrow> member list \<Rightarrow> (score \<times> member) list" where
  "with_score score members = map (\<lambda>m. (score, m)) members"

definition zpoppush_with ::
    "('r \<Rightarrow> 'r) \<Rightarrow> 'r redis \<Rightarrow> key \<Rightarrow> key \<Rightarrow> score option \<Rightarrow> int \<Rightarrow> score \<Rightarrow> 'r \<Rightarrow> member list \<times> 'r" where
  "zpoppush_with on_success R source destination score count new_score s =
     (let members = pop_members R source score count s in
      if members \<noteq> [] then
        let s1 = r_zremrangebyrank R source 0 (int (length members) - 1) s;
            s2 = snd (r_zadd R destination (with_score new_score members) s1)
        in (members, on_success s2)
      else (members, s))"

definition zpoppush ::
    "'r redis \<Rightarrow> key \<Rightarrow> key \<Rightarrow> score option \<Rightarrow> int \<Rightarrow> score \<Rightarrow> 'r \<Rightarrow> member list \<times> 'r" where
  "zpoppush = zpoppush_with id"

definition update_sets :: "'r redis \<Rightarrow> key \<Rightarrow> string \<Rightarrow> key \<Rightarrow> key \<Rightarrow> 'r \<Rightarrow> 'r" where
  "update_sets R source set_value remove_from_set add_to_set s =
     (let s1 = (if \<not> r_exists R source s then snd (r_srem R remove_from_set set_value s) else s)
      in r_sadd R add_to_set set_value s1)"

definition zpoppush_update_sets ::
    "'r redis \<Rightarrow> key \<Rightarrow> key \<Rightarrow> key \<Rightarrow> key \<Rightarrow> score option \<Rightarrow> int \<Rightarrow> score \<Rightarrow> string \<Rightarrow> 'r
      \<Rightarrow> member list \<times> 'r" where
  "zpoppush_update_sets R source destination remove_from_set add_to_set score count new_score set_value s =
     zpoppush_with (update_sets R source set_value remove_from_set add_to_set)
       R source destination score count new_score s"

definition zpoppush_withscores ::
    "'r redis \<Rightarrow> key \<Rightarrow> key \<Rightarrow> score option \<Rightarrow> int \<Rightarrow> score \<Rightarrow> 'r \<Rightarrow> (score \<times> member) list \<times> 'r" where
  "zpoppush_withscores R source destination score count new_score s =
     (let members_scores = r_zrangebyscore R source None score count s in
      if members_scores \<noteq> [] then
        let s1 = r_zremrangebyrank R source 0 (int (length members_scores) - 1) s
        in (members_scores,
            snd (r_zadd R destination (with_score new_score (map snd members_scores)) s1))
      else (members_scores, s))"

text \<open>
  The template for members that the destination may hold already. \<open>if_exists\<close> is the action for
  each of those; \<open>if_exists_keys\<close> the sorted set they may have gone to, with the set that lists it.
\<close>

definition zpoppush_exists ::
    "(member \<Rightarrow> 'r \<Rightarrow> 'r) \<Rightarrow> (key \<times> key) option \<Rightarrow> 'r redis \<Rightarrow> key \<Rightarrow> key \<Rightarrow> key \<Rightarrow> key
      \<Rightarrow> score option \<Rightarrow> int \<Rightarrow> score \<Rightarrow> string \<Rightarrow> 'r \<Rightarrow> member list \<times> 'r" where
  "zpoppush_exists if_exists if_exists_keys R source destination remove_from_set add_to_set
       score count new_score set_value s =
     (let members = pop_members R source score count s;
          existing_members = filter (\<lambda>m. r_zscore R destination m s \<noteq> None) members;
          moved_members = filter (\<lambda>m. r_zscore R destination m s = None) members
      in if members \<noteq> [] then
        let s1 = r_zremrangebyrank R source 0 (int (length members) - 1) s;
            s2 = (if moved_members \<noteq> []
                  then snd (r_zadd R destination (with_score new_score moved_members) s1) else s1);
            s3 = fold if_exists existing_members s2;
            s4 = update_sets R source set_value remove_from_set add_to_set s3;
            s5 = (case if_exists_keys of
                    None \<Rightarrow> s4
                  | Some (add_to_set_if_exists, if_exists_key) \<Rightarrow>
                      if r_exists R if_exists_key s4
                      then r_sadd R add_to_set_if_exists set_value s4 else s4)
        in (moved_members, s5)
      else (moved_members, s))"

definition zpoppush_exists_min_update_sets ::
    "'r redis \<Rightarrow> key \<Rightarrow> key \<Rightarrow> key \<Rightarrow> key \<Rightarrow> key \<Rightarrow> key \<Rightarrow> score option \<Rightarrow> int \<Rightarrow> score \<Rightarrow> string
      \<Rightarrow> score \<Rightarrow> 'r \<Rightarrow> member list \<times> 'r" where
  "zpoppush_exists_min_update_sets R source destination remove_from_set add_to_set
       add_to_set_if_exists if_exists_key score count new_score set_value if_exists_score s =
     zpoppush_exists (\<lambda>member s. snd (zadd_update_min R if_exists_key if_exists_score member s))
       (Some (add_to_set_if_exists, if_exists_key))
       R source destination remove_from_set add_to_set score count new_score set_value s"

definition zpoppush_exists_ignore_update_sets ::
    "'r redis \<Rightarrow> key \<Rightarrow> key \<Rightarrow> key \<Rightarrow> key \<Rightarrow> score option \<Rightarrow> int \<Rightarrow> score \<Rightarrow> string \<Rightarrow> 'r
      \<Rightarrow> member list \<times> 'r" where
  "zpoppush_exists_ignore_update_sets R source destination remove_from_set add_to_set
       score count new_score set_value s =
     zpoppush_exists (\<lambda>member s. s) None
       R source destination remove_from_set add_to_set score count new_score set_value s"

text \<open>
  \<^verbatim>\<open>RedisScripts.zpoppush\<close> selects a script by its optional arguments. \<open>on_success\<close> is a tuple whose
  first element is its tag; unpacking a wrong number of further elements raises \<^verbatim>\<open>ValueError\<close>.
  \<open>if_exists\<close> is a tuple tagged \<open>add\<close>, tagged \<open>noupdate\<close>, or with another tag.
\<close>

datatype if_exists_arg = IfAdd key score string | IfNoupdate | IfOther string

datatype popped = Members "member list" | Scored "(score \<times> member) list"

definition popped_members :: "member list \<times> 'r \<Rightarrow> (popped \<times> 'r) result" where
  "popped_members r = Inr (apfst Members r)"

definition scripts_zpoppush ::
    "'r redis \<Rightarrow> key \<Rightarrow> key \<Rightarrow> int \<Rightarrow> score option \<Rightarrow> score \<Rightarrow> bool \<Rightarrow> (string \<times> string list) option
      \<Rightarrow> if_exists_arg option \<Rightarrow> 'r \<Rightarrow> (popped \<times> 'r) result" where
  "scripts_zpoppush R source destination count score new_score withscores on_success if_exists s =
     (if withscores then
        (if on_success \<noteq> None then Inl NotImplementedError
         else Inr (apfst Scored (zpoppush_withscores R source destination score count new_score s)))
      else case if_exists of
        Some (IfAdd if_exists_key if_exists_score if_exists_mode) \<Rightarrow>
          (if if_exists_mode \<noteq> ''min'' then Inl NotImplementedError
           else case on_success of
             None \<Rightarrow> Inl NotImplementedError
           | Some (tag, rest) \<Rightarrow>
               (if tag \<noteq> ''update_sets'' then Inl NotImplementedError
                else case rest of
                  [set_value, remove_from_set, add_to_set, add_to_set_if_exists] \<Rightarrow>
                    popped_members (zpoppush_exists_min_update_sets R source destination
                      remove_from_set add_to_set add_to_set_if_exists if_exists_key
                      score count new_score set_value if_exists_score s)
                | _ \<Rightarrow> Inl ValueError))
      | Some IfNoupdate \<Rightarrow>
          (case on_success of
             None \<Rightarrow> Inl NotImplementedError
           | Some (tag, rest) \<Rightarrow>
               (if tag \<noteq> ''update_sets'' then Inl NotImplementedError
                else case rest of
                  [set_value, remove_from_set, add_to_set] \<Rightarrow>
                    popped_members (zpoppush_exists_ignore_update_sets R source destination
                      remove_from_set add_to_set score count new_score set_value s)
                | _ \<Rightarrow> Inl ValueError))
      | _ \<Rightarrow>
          (case on_success of
             None \<Rightarrow> popped_members (zpoppush R source destination score count new_score s)
           | Some (tag, rest) \<Rightarrow>
               (if tag \<noteq> ''update_sets'' then Inl NotImplementedError
                else case rest of
                  [set_value, remove_from_set, add_to_set] \<Rightarrow>
                    popped_members (zpoppush_update_sets R source destination
                      remove_from_set add_to_set score count new_score set_value s)
                | _ \<Rightarrow> Inl ValueError)))"

subsection \<open>Removing names and keys that nothing refers to\<close>

definition srem_if_not_exists :: "'r redis \<Rightarrow> key \<Rightarrow> string \<Rightarrow> key \<Rightarrow> 'r \<Rightarrow> nat \<times> 'r" where
  "srem_if_not_exists R key member other_key s =
     (if \<not> r_exists R other_key s then r_srem R key member s else (0, s))"

text \<open>The script takes the keys to delete, then the sorted sets, and the number of the former.\<close>

definition delete_if_not_in_zsets_script ::
    "'r redis \<Rightarrow> key list \<Rightarrow> nat \<Rightarrow> member \<Rightarrow> 'r \<Rightarrow> nat \<times> 'r" where
  "delete_if_not_in_zsets_script R keys to_delete_count value s =
     (let found = list_ex (\<lambda>k. r_zscore R k value s \<noteq> None) (drop to_delete_count keys)
      in if \<not> found then r_del R (take to_delete_count keys) s else (0, s))"

definition delete_if_not_in_zsets ::
    "'r redis \<Rightarrow> key list \<Rightarrow> member \<Rightarrow> key list \<Rightarrow> 'r \<Rightarrow> nat \<times> 'r" where
  "delete_if_not_in_zsets R to_delete value zset_keys s =
     delete_if_not_in_zsets_script R (to_delete @ zset_keys) (length to_delete) value s"

definition fail_if_not_in_zset :: "'r redis \<Rightarrow> key \<Rightarrow> member \<Rightarrow> 'r \<Rightarrow> unit result" where
  "fail_if_not_in_zset R key member s =
     (if r_zscore R key member s = None
      then Inl (ResponseError ''<FAIL_IF_NOT_IN_ZSET>'') else Inr ())"

subsection \<open>Changing the time of a scheduled task\<close>

text \<open>
  Dictionaries keep their keys in the order of insertion; setting a key keeps its place. The
  server's JSON library is a parameter.
\<close>

type_synonym dict = "(string \<times> json) list"

fun dict_set :: "string \<Rightarrow> json \<Rightarrow> dict \<Rightarrow> dict" where
  "dict_set k v [] = [(k, v)]"
| "dict_set k v ((k', v') # d) = (if k' = k then (k, v) # d else (k', v') # dict_set k v d)"

definition dict_get :: "dict \<Rightarrow> string \<Rightarrow> json option" where
  "dict_get d k = map_of d k"

record cjson =
  cjson_decode :: "string \<Rightarrow> json option"
  cjson_encode :: "json \<Rightarrow> string"

text \<open>
  The script adds the new score before it decodes the task, and Redis does not undo the effects of
  a script that fails. Hence the reply, which may be an error, stands beside the state.
\<close>

definition update_scheduled_time_script ::
    "'r redis \<Rightarrow> cjson \<Rightarrow> key \<Rightarrow> key \<Rightarrow> score \<Rightarrow> member \<Rightarrow> 'r \<Rightarrow> nat result \<times> 'r" where
  "update_scheduled_time_script R J scheduled_zset_key task_data_key score member s =
     (case r_zscore R scheduled_zset_key member s of
        None \<Rightarrow> (Inr 0, s)
      | Some _ \<Rightarrow>
          let s1 = snd (r_zadd R scheduled_zset_key [(score, member)] s) in
          case Option.bind (r_get R task_data_key s1) (cjson_decode J) of
            Some (JObj data) \<Rightarrow>
              (Inr 1, r_set R task_data_key
                (cjson_encode J (JObj (dict_set ''scheduled_at'' (JNum score) data))) s1)
          | _ \<Rightarrow> (Inl (ResponseError ''cjson''), s1))"

definition update_scheduled_time ::
    "'r redis \<Rightarrow> cjson \<Rightarrow> key \<Rightarrow> key \<Rightarrow> score \<Rightarrow> member \<Rightarrow> 'r \<Rightarrow> bool result \<times> 'r" where
  "update_scheduled_time R J scheduled_zset_key task_data_key score member s =
     apfst (map_sum id (\<lambda>n. n \<noteq> 0))
       (update_scheduled_time_script R J scheduled_zset_key task_data_key score member s)"

subsection \<open>Finding expired tasks\<close>

text \<open>The script replies with one flat list of queue names and task identifiers in turn.\<close>

fun expired_in_queues ::
    "'r redis \<Rightarrow> string \<Rightarrow> time \<Rightarrow> int \<Rightarrow> queue_name list \<Rightarrow> 'r \<Rightarrow> string list" where
  "expired_in_queues R key_prefix time batch_size [] s = []"
| "expired_in_queues R key_prefix time batch_size (queue_name # queues) s =
     (let queue_key = str_join '':'' [key_prefix, ''active'', queue_name];
          members = map snd (r_zrangebyscore R queue_key (Some 0) (Some time) batch_size s);
          found = concat (map (\<lambda>m. [queue_name, m]) members);
          rest = batch_size - int (length members)
      in if rest \<le> 0 then found
         else found @ expired_in_queues R key_prefix time rest queues s)"

definition get_expired_tasks_script :: "'r redis \<Rightarrow> string \<Rightarrow> time \<Rightarrow> int \<Rightarrow> 'r \<Rightarrow> string list" where
  "get_expired_tasks_script R key_prefix time batch_size s =
     expired_in_queues R key_prefix time batch_size
       (r_smembers R (str_join '':'' [key_prefix, ''active'']) s) s"

fun evens :: "'a list \<Rightarrow> 'a list" where
  "evens [] = []"
| "evens [x] = [x]"
| "evens (x # y # xs) = x # evens xs"

definition get_expired_tasks ::
    "'r redis \<Rightarrow> string \<Rightarrow> time \<Rightarrow> int \<Rightarrow> 'r \<Rightarrow> (queue_name \<times> task_id) list" where
  "get_expired_tasks R key_prefix time batch_size s =
     (let result = get_expired_tasks_script R key_prefix time batch_size s
      in zip (evens result) (evens (drop 1 result)))"

subsection \<open>The version of the server\<close>

fun can_replicate_commands :: "int list \<Rightarrow> bool result" where
  "can_replicate_commands (major # minor # _) = Inr (major > 3 \<or> major = 3 \<and> minor \<ge> 2)"
| "can_replicate_commands _ = Inl IndexError"

subsection \<open>The effect of the scripts on the server's data\<close>

text \<open>
  What a script does to the view, on the view alone: \<open>db_zmove\<close> takes the members \<open>ms\<close> out of a
  sorted set and adds pairs to another, \<open>db_zins_min\<close> adds members at the smaller score,
  \<open>db_update_sets\<close> and \<open>db_list_present\<close> maintain the sets that list non-empty queues.
\<close>

definition db_zmove :: "key \<Rightarrow> key \<Rightarrow> member list \<Rightarrow> (score \<times> member) list \<Rightarrow> db \<Rightarrow> db" where
  "db_zmove source destination ms ps d = d\<lparr>zsets := (zsets d)
     (source := zremove_all ms (zsets d source), destination := zins_all ps (zsets d destination))\<rparr>"

definition db_zins_min :: "key \<Rightarrow> score \<Rightarrow> member list \<Rightarrow> db \<Rightarrow> db" where
  "db_zins_min k sc ms d = d\<lparr>zsets := (zsets d)(k := fold (zins_min sc) ms (zsets d k))\<rparr>"

definition db_update_sets :: "key \<Rightarrow> string \<Rightarrow> key \<Rightarrow> key \<Rightarrow> db \<Rightarrow> db" where
  "db_update_sets source x remove_from add_to d = d\<lparr>sets := (sets d)
     (remove_from := (if zsets d source = zempty then sets d remove_from - {x} else sets d remove_from),
      add_to := insert x (sets d add_to))\<rparr>"

definition db_list_present :: "key \<Rightarrow> string \<Rightarrow> key \<Rightarrow> db \<Rightarrow> db" where
  "db_list_present k x add_to d =
     (if zsets d k = zempty then d else d\<lparr>sets := (sets d)(add_to := insert x (sets d add_to))\<rparr>)"

lemma db_sets_frame [simp]:
  "zsets (db_update_sets source x rem add d) = zsets d"
  "strs (db_update_sets source x rem add d) = strs d"
  "lists (db_update_sets source x rem add d) = lists d"
  "zsets (db_list_present k x add d) = zsets d"
  "strs (db_list_present k x add d) = strs d"
  "lists (db_list_present k x add d) = lists d"
  by (simp_all add: db_update_sets_def db_list_present_def)

lemma db_zmove_frame [simp]:
  "sets (db_zmove source destination ms ps d) = sets d"
  "strs (db_zmove source destination ms ps d) = strs d"
  "lists (db_zmove source destination ms ps d) = lists d"
  "sets (db_zins_min k sc ms d) = sets d"
  "strs (db_zins_min k sc ms d) = strs d"
  "lists (db_zins_min k sc ms d) = lists d"
  by (simp_all add: db_zmove_def db_zins_min_def)

lemmas db_script_defs = db_zmove_def db_zins_min_def db_update_sets_def db_list_present_def

context redis_server
begin

lemma view_zadd_noupdate [redis_law]:
  "kind k = KZset \<Longrightarrow> view R (zadd_noupdate R k sc m s) =
     (view R s)\<lparr>zsets := (zsets (view R s))(k := zins_new sc m (zsets (view R s) k))\<rparr>"
  by (simp add: zadd_noupdate_def redis_law zins_new_def)

lemma view_zadd_update_min [redis_law]:
  "kind k = KZset \<Longrightarrow> view R (snd (zadd_update_min R k sc m s)) =
     (view R s)\<lparr>zsets := (zsets (view R s))(k := zins_min sc m (zsets (view R s) k))\<rparr>"
  by (simp add: zadd_update_min_def zadd_update_def redis_law zins_min_def)

lemma view_fold_zadd_update_min [redis_law]:
  "kind k = KZset \<Longrightarrow> view R (fold (\<lambda>m s. snd (zadd_update_min R k sc m s)) ms s) =
     (view R s)\<lparr>zsets := (zsets (view R s))(k := fold (zins_min sc) ms (zsets (view R s) k))\<rparr>"
  by (induction ms arbitrary: s) (simp_all add: redis_law)

lemma pop_members_prefix:
  assumes "kind source = KZset"
  shows "take (length (pop_members R source score count s)) (zmembers (zsets (view R s) source))
    = pop_members R source score count s"
proof -
  let ?z = "zsets (view R s) source"
  have "filter (\<lambda>e. in_scores None score (fst e)) (zlist ?z) =
      take (length (filter (\<lambda>e. in_scores None score (fst e)) (zlist ?z))) (zlist ?z)"
    by (rule zlist_filter_prefix) (cases score; simp)
  then obtain n where n: "filter (\<lambda>e. in_scores None score (fst e)) (zlist ?z) = take n (zlist ?z)"
    by blast
  obtain k where "limit_take count (take n (zlist ?z)) = take k (zlist ?z)"
    using that [of n] that [of "min (nat count) n"] by (cases "count < 0") (simp_all add: limit_take_def)
  then have "pop_members R source score count s = take k (zmembers ?z)"
    using assms by (simp add: pop_members_def redis_law n zmembers_def take_map)
  then show ?thesis by (simp add: min_def)
qed

lemma pop_members_subset:
  "kind source = KZset \<Longrightarrow> m \<in> set (pop_members R source score count s) \<Longrightarrow>
    zget (zsets (view R s) source) m \<noteq> None"
  by (metis pop_members_prefix in_set_takeD zget_None_iff)

lemma pop_members_distinct: "kind source = KZset \<Longrightarrow> distinct (pop_members R source score count s)"
  by (metis pop_members_prefix distinct_take zmembers_distinct)

lemma view_remove_popped:
  assumes "kind source = KZset" "ms = pop_members R source score count s" "ms \<noteq> []"
  shows "view R (r_zremrangebyrank R source 0 (int (length ms) - 1) s) =
    (view R s)\<lparr>zsets := (zsets (view R s))(source := zremove_all ms (zsets (view R s) source))\<rparr>"
proof -
  have "0 \<le> int (length ms) - 1" using assms(3) by (cases ms) simp_all
  moreover have "zdrop (length ms) (zsets (view R s) source) = zremove_all ms (zsets (view R s) source)"
    by (rule zdrop_prefix) (simp add: assms(1,2) pop_members_prefix)
  ultimately show ?thesis using assms(1) by (simp add: redis_law)
qed

lemma view_update_sets [redis_law]:
  "kind source = KZset \<Longrightarrow> kind remove_from = KSet \<Longrightarrow> kind add_to = KSet \<Longrightarrow> remove_from \<noteq> add_to \<Longrightarrow>
    view R (update_sets R source x remove_from add_to s) =
      db_update_sets source x remove_from add_to (view R s)"
  by (simp add: update_sets_def redis_law Let_def db_script_defs)

lemma fst_zpoppush [simp]:
  "fst (zpoppush R source destination score count new_score s) = pop_members R source score count s"
  by (simp add: zpoppush_def zpoppush_with_def Let_def)

lemma view_zpoppush:
  assumes "kind source = KZset" "kind destination = KZset" "source \<noteq> destination"
    and "ms = pop_members R source score count s"
  shows "view R (snd (zpoppush R source destination score count new_score s)) =
    db_zmove source destination ms (with_score new_score ms) (view R s)"
  using assms view_remove_popped [OF assms(1,4)]
  by (auto simp: zpoppush_def zpoppush_with_def Let_def redis_law with_score_def db_script_defs)

lemma fst_zpoppush_update_sets [simp]:
  "fst (zpoppush_update_sets R source destination remove_from add_to score count new_score x s) =
    pop_members R source score count s"
  by (simp add: zpoppush_update_sets_def zpoppush_with_def Let_def)

lemma view_zpoppush_update_sets:
  assumes "kind source = KZset" "kind destination = KZset" "source \<noteq> destination"
    and "kind remove_from = KSet" "kind add_to = KSet" "remove_from \<noteq> add_to"
    and "ms = pop_members R source score count s"
  shows "view R (snd (zpoppush_update_sets R source destination remove_from add_to score count new_score x s)) =
      (if ms = [] then view R s else
       db_update_sets source x remove_from add_to
         (db_zmove source destination ms (with_score new_score ms) (view R s)))"
  using assms view_remove_popped [OF assms(1,7)]
  by (auto simp: zpoppush_update_sets_def zpoppush_with_def Let_def redis_law with_score_def
      db_zmove_def)

text \<open>The members among \<open>ms\<close> that the destination does not hold yet, and those that it holds.\<close>

lemma fst_zpoppush_exists:
  assumes "kind destination = KZset" "ms = pop_members R source score count s"
  shows "fst (zpoppush_exists if_exists keys R source destination remove_from add_to
      score count new_score x s) = filter (\<lambda>m. zget (zsets (view R s) destination) m = None) ms"
  using assms by (simp add: zpoppush_exists_def Let_def redis_law)

lemma view_zpoppush_exists_ignore_update_sets:
  assumes "kind source = KZset" "kind destination = KZset" "source \<noteq> destination"
    and "kind remove_from = KSet" "kind add_to = KSet" "remove_from \<noteq> add_to"
    and "ms = pop_members R source score count s"
    and "moved = filter (\<lambda>m. zget (zsets (view R s) destination) m = None) ms"
  shows "view R (snd (zpoppush_exists_ignore_update_sets R source destination remove_from add_to
      score count new_score x s)) =
    (if ms = [] then view R s else
     db_update_sets source x remove_from add_to
       (db_zmove source destination ms (with_score new_score moved) (view R s)))"
proof -
  have fold: "fold (\<lambda>m s. s) xs t = t" for xs :: "string list" and t :: 'r
    by (induction xs) simp_all
  show ?thesis
    using assms(1-7) view_remove_popped [OF assms(1,7)] unfolding assms(8)
    by (simp add: zpoppush_exists_ignore_update_sets_def zpoppush_exists_def Let_def redis_law fold
        with_score_def db_zmove_def fun_upd_idem flip: assms(7))
qed

lemma view_zpoppush_exists_min_update_sets:
  assumes "kind source = KZset" "kind destination = KZset" "kind if_exists_key = KZset"
    and "source \<noteq> destination" "if_exists_key \<noteq> source" "if_exists_key \<noteq> destination"
    and "kind remove_from = KSet" "kind add_to = KSet" "kind add_if = KSet" "remove_from \<noteq> add_to"
    and "ms = pop_members R source score count s"
    and "moved = filter (\<lambda>m. zget (zsets (view R s) destination) m = None) ms"
    and "existing = filter (\<lambda>m. zget (zsets (view R s) destination) m \<noteq> None) ms"
  shows "view R (snd (zpoppush_exists_min_update_sets R source destination remove_from add_to
      add_if if_exists_key score count new_score x later s)) =
    (if ms = [] then view R s else
     db_list_present if_exists_key x add_if
       (db_update_sets source x remove_from add_to
         (db_zins_min if_exists_key later existing
           (db_zmove source destination ms (with_score new_score moved) (view R s)))))"
proof -
  note removed = view_remove_popped [OF assms(1,11)]
  show ?thesis
    using assms(1-11) removed unfolding assms(12,13)
    by (simp add: zpoppush_exists_min_update_sets_def zpoppush_exists_def Let_def redis_law
        with_score_def db_zmove_def db_zins_min_def db_list_present_def fun_upd_idem flip: assms(11))
qed

end

end
