(* ===== verification/Script_Properties.thy ===== *)
theory Script_Properties
  imports Redis_Scripts
begin

text \<open>
  What the scripts promise their callers, on every server that obeys the laws: the four update modes
  of \<^verbatim>\<open>zadd\<close>, which members move where when one sorted set is popped into another, which tasks count
  as expired, and when a scheduled task gets another time.
\<close>

subsection \<open>Update modes\<close>

context redis_server
begin

lemma zadd_update_max_view:
  "kind k = KZset \<Longrightarrow> view R (snd (zadd_update_max R k sc m s)) = (view R s)\<lparr>zsets := (zsets (view R s))
     (k := zins (case zget (zsets (view R s) k) m of None \<Rightarrow> sc | Some old \<Rightarrow> max old sc) m
        (zsets (view R s) k))\<rparr>"
  by (simp add: zadd_update_max_def zadd_update_def redis_law)

lemma zadd_update_existing_view:
  "kind k = KZset \<Longrightarrow> view R (zadd_update_existing R k sc m s) =
     (if zget (zsets (view R s) k) m = None then view R s
      else (view R s)\<lparr>zsets := (zsets (view R s))(k := zins sc m (zsets (view R s) k))\<rparr>)"
  by (simp add: zadd_update_existing_def redis_law)

lemma zget_scripts_zadd:
  assumes "kind k = KZset" and "scripts_zadd R k sc m mode s = Inr r"
  shows "zget (zsets (view R (snd r)) k) m' =
    (if m' \<noteq> m then zget (zsets (view R s) k) m'
     else case zget (zsets (view R s) k) m of
       None \<Rightarrow> if mode = ''xx'' then None else Some sc
     | Some old \<Rightarrow> Some (if mode = ''nx'' then old else if mode = ''xx'' then sc
                       else if mode = ''min'' then min old sc else max old sc))"
  using assms
  by (cases "zget (zsets (view R s) k) m")
    (auto simp: scripts_zadd_def view_zadd_noupdate view_zadd_update_min
      zadd_update_max_view zadd_update_existing_view split: if_splits)

end

text \<open>\<^verbatim>\<open>zadd\<close> refuses a mode other than the four; under each of the four it changes the score of the
  given member only, and keeps, replaces, lowers or raises a score that exists as the mode says;
  only \<open>xx\<close> never adds a member.\<close>

theorem scripts_zadd_modes:
  assumes "redis_server R kind" and "kind k = KZset"
  shows "case scripts_zadd R k sc m mode s of
      Inl err \<Rightarrow> err = NotImplementedError \<and> mode \<notin> {''nx'', ''xx'', ''min'', ''max''}
    | Inr r \<Rightarrow>
        zget (zsets (view R (snd r)) k) m' =
          (if m' \<noteq> m then zget (zsets (view R s) k) m'
           else case zget (zsets (view R s) k) m of
             None \<Rightarrow> if mode = ''xx'' then None else Some sc
           | Some old \<Rightarrow> Some (if mode = ''nx'' then old else if mode = ''xx'' then sc
                             else if mode = ''min'' then min old sc else max old sc))"
proof (cases "scripts_zadd R k sc m mode s")
  case (Inl err)
  then show ?thesis by (auto simp: scripts_zadd_def split: if_splits)
next
  case (Inr r)
  from redis_server.zget_scripts_zadd [OF assms this] Inr show ?thesis by simp
qed

theorem scripts_zadd_modes_witness:
  "case scripts_zadd (mem_redis (\<lambda>_. KZset)) ''k'' 3 ''m'' ''min'' mem_empty of
     Inl err \<Rightarrow> False
   | Inr r \<Rightarrow> zget (zsets (view (mem_redis (\<lambda>_. KZset)) (snd r)) ''k'') ''m'' = Some 3"
proof -
  have "zget (zsets (view (mem_redis (\<lambda>_. KZset)) mem_empty) ''k'') ''m'' = None"
    by (simp add: mem_redis_def mem_view_def mem_empty_def)
  then show ?thesis
    using scripts_zadd_modes [OF mem.redis_server_axioms [of "\<lambda>_. KZset"], where k = "''k''" and
        sc = 3 and m = "''m''" and mode = "''min''" and s = mem_empty and m' = "''m''"]
    by (auto split: sum.splits)
qed

subsection \<open>Popping and pushing\<close>

context redis_server
begin

lemma pop_members_eq:
  "kind source = KZset \<Longrightarrow> pop_members R source score count s =
    map snd (limit_take count
      (filter (\<lambda>e. in_scores None score (fst e)) (zlist (zsets (view R s) source))))"
  by (simp add: pop_members_def redis_law)

lemma zpoppush_zget:
  assumes "kind source = KZset" "kind destination = KZset" "source \<noteq> destination"
    and "ms = pop_members R source score count s"
    and "s' = snd (zpoppush R source destination score count new_score s)"
  shows "zget (zsets (view R s') source) m =
      (if m \<in> set ms then None else zget (zsets (view R s) source) m)"
    and "zget (zsets (view R s') destination) m =
      (if m \<in> set ms then Some new_score else zget (zsets (view R s) destination) m)"
    and "k \<noteq> source \<Longrightarrow> k \<noteq> destination \<Longrightarrow> zsets (view R s') k = zsets (view R s) k"
  using assms(3) unfolding assms(5) view_zpoppush [OF assms(1-4)]
  by (simp_all add: db_zmove_def with_score_def zget_zins_all_const)

end

text \<open>\<^verbatim>\<open>zpoppush\<close> without further actions moves the first \<open>count\<close> members with a score up to the
  bound, in the order of the scores, to the destination under the new score, and touches no other
  member and no other sorted set.\<close>

theorem zpoppush_moves:
  assumes "redis_server R kind" "kind source = KZset" "kind destination = KZset" "source \<noteq> destination"
    and "zpoppush R source destination score count new_score s = (ms, s')"
  shows "ms = map snd (limit_take count
      (filter (\<lambda>e. in_scores None score (fst e)) (zlist (zsets (view R s) source)))) \<and>
    (\<forall>m. zget (zsets (view R s') source) m =
      (if m \<in> set ms then None else zget (zsets (view R s) source) m)) \<and>
    (\<forall>m. zget (zsets (view R s') destination) m =
      (if m \<in> set ms then Some new_score else zget (zsets (view R s) destination) m)) \<and>
    (\<forall>k. k \<noteq> source \<and> k \<noteq> destination \<longrightarrow> zsets (view R s') k = zsets (view R s) k)"
proof -
  have ms: "ms = pop_members R source score count s"
    by (metis assms(1,5) fst_conv redis_server.fst_zpoppush)
  have s': "s' = snd (zpoppush R source destination score count new_score s)"
    using assms(5) by simp
  note facts = redis_server.zpoppush_zget [OF assms(1-4) ms s']
  from redis_server.pop_members_eq [OF assms(1,2)] ms facts show ?thesis by simp
qed

text \<open>A small server for the examples: three sets, and sorted sets elsewhere.\<close>

definition ex_kind :: "key \<Rightarrow> ktype" where
  "ex_kind k = (if k \<in> {''queued'', ''active'', ''scheduled''} then KSet else KZset)"

definition ex_state :: memdb where
  "ex_state = snd (r_zadd (mem_redis ex_kind) ''a'' [(5, ''y'')]
     (snd (r_zadd (mem_redis ex_kind) ''q'' [(1, ''x''), (2, ''y''), (7, ''z'')] mem_empty)))"

lemma ex_state_view:
  "zsets (view (mem_redis ex_kind) ex_state) =
     (\<lambda>k. if k = ''a'' then zins 5 ''y'' zempty
          else if k = ''q'' then zins 7 ''z'' (zins 2 ''y'' (zins 1 ''x'' zempty)) else zempty)"
  by (auto simp: ex_state_def mem_redis_def mem_view_def mem_zput_def mem_fresh_def mem_empty_def)

lemma ex_kind_simps:
  "ex_kind ''q'' = KZset" "ex_kind ''a'' = KZset" "ex_kind ''s'' = KZset"
  "ex_kind ''queued'' = KSet" "ex_kind ''active'' = KSet" "ex_kind ''scheduled'' = KSet"
  by (simp_all add: ex_kind_def)

lemmas zlist_eval = zins.rep_eq zempty.rep_eq less_eq_prod_def limit_take_def

theorem zpoppush_moves_witness:
  "fst (zpoppush (mem_redis ex_kind) ''q'' ''a'' (Some 5) 10 9 ex_state) = [''x'', ''y''] \<and>
   zget (zsets (view (mem_redis ex_kind)
     (snd (zpoppush (mem_redis ex_kind) ''q'' ''a'' (Some 5) 10 9 ex_state))) ''a'') ''y'' = Some 9"
  using zpoppush_moves [OF mem.redis_server_axioms ex_kind_simps(1,2) _ prod.collapse [symmetric],
      of "Some 5" 10 9 ex_state]
  by (simp add: ex_state_view zlist_eval)

text \<open>When a worker's pop meets members that the destination holds already, nothing is lost: every
  popped member leaves the source; a member the destination lacked is moved there and reported; a
  member it held keeps its score there, is not reported, and is added to the third sorted set at the
  smaller of its score there and the given one.\<close>

theorem zpoppush_exists_min_keeps:
  assumes "redis_server R kind"
    and "kind source = KZset" "kind destination = KZset" "kind later_key = KZset"
    and "source \<noteq> destination" "later_key \<noteq> source" "later_key \<noteq> destination"
    and "kind remove_from = KSet" "kind add_to = KSet" "kind add_if = KSet" "remove_from \<noteq> add_to"
    and "zpoppush_exists_min_update_sets R source destination remove_from add_to add_if later_key
      score count new_score x later s = (moved, s')"
    and "m \<in> set (pop_members R source score count s)"
  shows "zget (zsets (view R s') source) m = None \<and>
    (case zget (zsets (view R s) destination) m of
       None \<Rightarrow> m \<in> set moved \<and> zget (zsets (view R s') destination) m = Some new_score \<and>
         zget (zsets (view R s') later_key) m = zget (zsets (view R s) later_key) m
     | Some old \<Rightarrow> m \<notin> set moved \<and> zget (zsets (view R s') destination) m = Some old \<and>
         zget (zsets (view R s') later_key) m =
           Some (case zget (zsets (view R s) later_key) m of
             None \<Rightarrow> later | Some sc \<Rightarrow> min sc later))"
proof -
  let ?ms = "pop_members R source score count s"
  let ?new = "filter (\<lambda>m. zget (zsets (view R s) destination) m = None) ?ms"
  have moved: "moved = ?new"
    using redis_server.fst_zpoppush_exists [OF assms(1,3) refl] assms(12)
    unfolding zpoppush_exists_min_update_sets_def by (metis fst_conv)
  have s': "s' = snd (zpoppush_exists_min_update_sets R source destination remove_from add_to add_if
      later_key score count new_score x later s)"
    using assms(12) by simp
  have "?ms \<noteq> []" using assms(13) by auto
  then show ?thesis
    using assms(5-7,13) unfolding s' moved
      redis_server.view_zpoppush_exists_min_update_sets [OF assms(1-11) refl refl refl]
    by (simp add: db_zmove_def db_zins_min_def with_score_def zget_zins_all_const zget_fold_zins_min
        split: option.splits)
qed

theorem zpoppush_exists_min_keeps_witness:
  "''y'' \<notin> set (fst (zpoppush_exists_min_update_sets (mem_redis ex_kind) ''q'' ''a'' ''queued'' ''active''
     ''scheduled'' ''s'' None 2 9 ''default'' 10 ex_state))"
proof -
  have "''y'' \<in> set (pop_members (mem_redis ex_kind) ''q'' None 2 ex_state)"
    by (simp add: mem.pop_members_eq ex_kind_simps ex_state_view zlist_eval)
  from zpoppush_exists_min_keeps [OF mem.redis_server_axioms ex_kind_simps(1,2,3) _ _ _
      ex_kind_simps(4,5,6) _ prod.collapse [symmetric] this, of 9 "''default''" 10]
  show ?thesis by (simp add: ex_state_view)
qed

subsection \<open>Expired tasks\<close>

definition pairs_flat :: "('a \<times> 'a) list \<Rightarrow> 'a list" where
  "pairs_flat ps = concat (map (\<lambda>(x, y). [x, y]) ps)"

lemma evens_pairs_flat:
  "evens (pairs_flat ps) = map fst ps" "evens (drop 1 (pairs_flat ps)) = map snd ps"
proof -
  have "evens (y # pairs_flat ps) = y # map snd ps" for y
  proof (induction ps arbitrary: y)
    case (Cons q ps)
    then show ?case by (cases q) (simp add: pairs_flat_def)
  qed (simp add: pairs_flat_def)
  then show "evens (drop 1 (pairs_flat ps)) = map snd ps"
    by (cases ps) (auto simp: pairs_flat_def)
  show "evens (pairs_flat ps) = map fst ps"
    by (induction ps) (auto simp: pairs_flat_def)
qed

text \<open>All expired tasks of some queues: those whose last heartbeat is not after \<open>time\<close>.\<close>

definition expired_in :: "'r redis \<Rightarrow> string \<Rightarrow> time \<Rightarrow> 'r \<Rightarrow> queue_name \<Rightarrow> (queue_name \<times> task_id) list" where
  "expired_in R p time s q = map (\<lambda>e. (q, snd e))
     (filter (\<lambda>e. 0 \<le> fst e \<and> fst e \<le> time) (zlist (zsets (view R s) (queue_key p ACTIVE q))))"

context tiger_redis
begin

lemma expired_in_queues_flat:
  "0 \<le> n \<Longrightarrow> expired_in_queues R p t n qs s =
     pairs_flat (take (nat n) (concat (map (expired_in R p t s) qs)))"
proof (induction qs arbitrary: n)
  case (Cons q qs)
  have key: "str_join '':'' [p, ''active'', q] = queue_key p ACTIVE q"
    by (simp add: tiger_key_def state_name.simps)
  let ?es = "filter (\<lambda>e. 0 \<le> fst e \<and> fst e \<le> t) (zlist (zsets (view R s) (queue_key p ACTIVE q)))"
  have range: "r_zrangebyscore R (queue_key p ACTIVE q) (Some 0) (Some t) n s = take (nat n) ?es"
    using Cons.prems kind_queue [of ACTIVE q] by (simp add: zrangebyscore limit_take_def)
  have found: "concat (map (\<lambda>m. [q, m]) (map snd (take (nat n) ?es))) =
      pairs_flat (take (nat n) (expired_in R p t s q))"
    by (simp add: pairs_flat_def expired_in_def take_map comp_def)
  show ?case
  proof (cases "n - int (length (take (nat n) ?es)) \<le> 0")
    case True
    then have "nat n \<le> length (expired_in R p t s q)"
      using Cons.prems by (auto simp: expired_in_def)
    with True show ?thesis
      by (simp only: expired_in_queues.simps Let_def key range found) simp
  next
    case False
    then have len: "length ?es < nat n" by auto
    with Cons.prems have "nat (n - int (length ?es)) = nat n - length (expired_in R p t s q)"
      by (simp add: expired_in_def nat_diff_distrib)
    with False len Cons show ?thesis
      by (simp only: expired_in_queues.simps Let_def key range found)
        (simp add: pairs_flat_def expired_in_def)
  qed
qed (simp add: pairs_flat_def)

lemma get_expired_tasks_concat:
  "0 \<le> n \<Longrightarrow> get_expired_tasks R p t n s =
     take (nat n) (concat (map (expired_in R p t s) (r_smembers R (state_key p ACTIVE) s)))"
  by (simp add: get_expired_tasks_def get_expired_tasks_script_def Let_def expired_in_queues_flat
      evens_pairs_flat evens_pairs_flat(2) [simplified] zip_map_fst_snd tiger_key_def state_name.simps)

end

text \<open>The expired tasks found are the first \<open>batch_size\<close> ones of the listed active queues, in
  order; in particular each is active with a last heartbeat up to the given time, and when fewer than
  the batch are returned, none was missed.\<close>

theorem get_expired_tasks_eq:
  assumes "tiger_redis R kind p" and "0 \<le> batch_size"
  shows "get_expired_tasks R p time batch_size s =
    take (nat batch_size) (concat (map (expired_in R p time s) (r_smembers R (state_key p ACTIVE) s)))"
  by (rule tiger_redis.get_expired_tasks_concat [OF assms])

definition ex_active :: memdb where
  "ex_active = snd (r_zadd (mem_redis (tiger_kind ''t'')) (queue_key ''t'' ACTIVE ''q'') [(1, ''x''), (50, ''y'')]
     (r_sadd (mem_redis (tiger_kind ''t'')) (state_key ''t'' ACTIVE) ''q'' mem_empty))"

theorem get_expired_tasks_eq_witness:
  "get_expired_tasks (mem_redis (tiger_kind ''t'')) ''t'' 10 5 ex_active = [(''q'', ''x'')]"
proof -
  have "zsets (view (mem_redis (tiger_kind ''t'')) ex_active) (queue_key ''t'' ACTIVE ''q'') =
      zins 50 ''y'' (zins 1 ''x'' zempty)"
    and "r_smembers (mem_redis (tiger_kind ''t'')) (state_key ''t'' ACTIVE) ex_active = [''q'']"
    by (simp_all add: ex_active_def mem_redis_def mem_view_def mem_zput_def mem_fresh_def mem_empty_def)
  then show ?thesis
    using get_expired_tasks_eq [OF tiger_mem.tiger_redis_axioms, of 5 "''t''" 10 ex_active]
    by (simp add: expired_in_def zlist_eval)
qed

subsection \<open>Changing the time of a scheduled task\<close>

text \<open>Changing a scheduled task's time does nothing but report failure if the task is not in the
  sorted set; otherwise the task gets the new score, and its stored data the new time. If that data
  is missing or no JSON object, the call fails although the score has already been changed.\<close>

theorem update_scheduled_time_cases:
  assumes "redis_server R kind" "kind zk = KZset" "kind dk = KStr"
    and "update_scheduled_time R J zk dk sc m s = (reply, s')"
  shows "if zget (zsets (view R s) zk) m = None then reply = Inr False \<and> s' = s
    else zsets (view R s') = (zsets (view R s))(zk := zins sc m (zsets (view R s) zk)) \<and>
      (case Option.bind (strs (view R s) dk) (cjson_decode J) of
         Some (JObj data) \<Rightarrow> reply = Inr True \<and>
           strs (view R s') dk =
             Some (cjson_encode J (JObj (dict_set ''scheduled_at'' (JNum sc) data)))
       | _ \<Rightarrow> reply = Inl (ResponseError ''cjson'') \<and> strs (view R s') = strs (view R s))"
proof -
  note laws = redis_server.zscore [OF assms(1,2)] redis_server.view_zadd [OF assms(1,2)]
    redis_server.get_str [OF assms(1,3)] redis_server.view_set [OF assms(1,3)]
  show ?thesis
    using assms(4)
    by (auto simp: update_scheduled_time_def update_scheduled_time_script_def laws Let_def
        split: option.splits json.splits)
qed

definition num_cjson :: cjson where
  "num_cjson = \<lparr>cjson_decode = json_loads num_lib, cjson_encode = json_dumps num_lib\<rparr>"

definition ex_scheduled :: memdb where
  "ex_scheduled = r_set (mem_redis (tiger_kind ''t'')) (task_key ''t'' ''x'')
     (json_dumps num_lib (JObj [(''id'', JStr ''x'')]))
     (snd (r_zadd (mem_redis (tiger_kind ''t'')) (queue_key ''t'' SCHEDULED ''q'') [(5, ''x'')] mem_empty))"

theorem update_scheduled_time_cases_witness:
  "fst (update_scheduled_time (mem_redis (tiger_kind ''t'')) num_cjson
     (queue_key ''t'' SCHEDULED ''q'') (task_key ''t'' ''x'') 9 ''x'' ex_scheduled) = Inr True"
proof -
  let ?M = "mem_redis (tiger_kind ''t'')"
  have kinds: "tiger_kind ''t'' (queue_key ''t'' SCHEDULED ''q'') = KZset"
      "tiger_kind ''t'' (task_key ''t'' ''x'') = KStr"
    by (simp_all add: tiger_mem.kind_queue tiger_mem.kind_task colon_free_def)
  have state: "zget (zsets (view ?M ex_scheduled) (queue_key ''t'' SCHEDULED ''q'')) ''x'' = Some 5"
      "strs (view ?M ex_scheduled) (task_key ''t'' ''x'') = Some (json_dumps num_lib (JObj [(''id'', JStr ''x'')]))"
    by (simp_all add: ex_scheduled_def mem_redis_def mem_view_def mem_zput_def mem_fresh_def mem_empty_def)
  have "cjson_decode num_cjson (json_dumps num_lib v) = Some v" for v
    by (simp add: num_cjson_def num_lib_ok)
  with update_scheduled_time_cases [OF mem.redis_server_axioms kinds prod.collapse [symmetric],
      where J = num_cjson and sc = 9 and m = "''x''" and s = ex_scheduled] state
  show ?thesis by simp
qed

end
