(* ===== verification/Redis_Semaphore.thy ===== *)
theory Redis_Semaphore
  imports Script_Properties
begin

text \<open>
  The semaphore of \<^verbatim>\<open>tasktiger/redis_semaphore.py\<close> and its script \<^verbatim>\<open>lua/semaphore.lua\<close>: a sorted set of
  locks whose scores are the times at which they expire. Workers hold a lock of the semaphore of a
  queue to bound the number of workers of the queue; a system lock blocks all of them.
\<close>

subsection \<open>The script\<close>

definition SYSTEM_LOCK_ID :: member where
  "SYSTEM_LOCK_ID = ''SYSTEM_LOCK''"

definition semaphore_script ::
    "'r redis \<Rightarrow> key \<Rightarrow> member \<Rightarrow> int \<Rightarrow> time \<Rightarrow> time \<Rightarrow> 'r \<Rightarrow> (bool \<times> int) \<times> 'r" where
  "semaphore_script R semaphore_key lock_id semaphore_size timeout now s =
     (let s1 = r_zremrangebyscore R semaphore_key 0 now s in
      if r_zscore R semaphore_key SYSTEM_LOCK_ID s1 \<noteq> None then ((False, - 1), s1)
      else
        let s2 = r_expire R semaphore_key \<lceil>timeout * 2\<rceil> s1;
            current_lock_count = int (r_zcard R semaphore_key s2);
            updating_lock = r_zscore R semaphore_key lock_id s2;
            lock_count = (if updating_lock = None then current_lock_count + 1 else current_lock_count)
        in if lock_count > semaphore_size then ((False, current_lock_count), s2)
           else ((True, lock_count), snd (r_zadd R semaphore_key [(now + timeout, lock_id)] s2)))"

subsection \<open>The class\<close>

record semaphore =
  sem_name :: key
  sem_lock_id :: member
  sem_timeout :: time
  sem_max_locks :: int

definition get_system_lock :: "'r redis \<Rightarrow> key \<Rightarrow> 'r \<Rightarrow> time option" where
  "get_system_lock R name s = r_zscore R name SYSTEM_LOCK_ID s"

definition set_system_lock :: "'r redis \<Rightarrow> key \<Rightarrow> int \<Rightarrow> time \<Rightarrow> 'r \<Rightarrow> 'r" where
  "set_system_lock R name timeout now s =
     r_expire R name (timeout + 10) (snd (r_zadd R name [(now + of_int timeout, SYSTEM_LOCK_ID)] s))"

definition release :: "'r redis \<Rightarrow> semaphore \<Rightarrow> 'r \<Rightarrow> 'r" where
  "release R S s = snd (r_zrem R (sem_name S) (sem_lock_id S) s)"

definition acquire :: "'r redis \<Rightarrow> semaphore \<Rightarrow> time \<Rightarrow> 'r \<Rightarrow> (bool \<times> int) \<times> 'r" where
  "acquire R S now s =
     semaphore_script R (sem_name S) (sem_lock_id S) (sem_max_locks S) (sem_timeout S) now s"

definition renew :: "'r redis \<Rightarrow> semaphore \<Rightarrow> time \<Rightarrow> 'r \<Rightarrow> (bool \<times> int) \<times> 'r" where
  "renew R S now s = acquire R S now s"

subsection \<open>The locks of a semaphore\<close>

text \<open>
  \<open>unexpired\<close> is what the script's first command leaves; \<open>acquired\<close> says whether a lock is granted
  to an identifier, and \<open>holders\<close> are the callers in the sorted set, expired or not.
\<close>

definition unexpired :: "time \<Rightarrow> zset \<Rightarrow> zset" where
  "unexpired now z = zfilter (\<lambda>e. \<not> (0 \<le> fst e \<and> fst e \<le> now)) z"

definition n_locks :: "zset \<Rightarrow> int" where
  "n_locks z = int (length (zlist z))"

definition granted :: "member \<Rightarrow> int \<Rightarrow> zset \<Rightarrow> bool" where
  "granted i max_locks z \<longleftrightarrow> zget z SYSTEM_LOCK_ID = None \<and>
     (if zget z i = None then n_locks z + 1 else n_locks z) \<le> max_locks"

definition holders :: "zset \<Rightarrow> member set" where
  "holders z = {m. m \<noteq> SYSTEM_LOCK_ID \<and> zget z m \<noteq> None}"

lemma zget_unexpired: "zget (unexpired now z) m =
    (case zget z m of None \<Rightarrow> None | Some sc \<Rightarrow> if 0 \<le> sc \<and> sc \<le> now then None else Some sc)"
  by (auto simp: unexpired_def zget_zfilter split: option.split)

lemma n_locks_card: "n_locks z = int (card {m. zget z m \<noteq> None})"
proof -
  have "{m. zget z m \<noteq> None} = set (zmembers z)"
    using zget_None_iff by auto
  moreover have "card (set (zmembers z)) = length (zlist z)"
    by (subst distinct_card) (simp_all add: zmembers_def zlist_distinct)
  ultimately show ?thesis by (simp add: n_locks_def)
qed

lemma finite_locks [simp]: "finite {m. \<exists>sc. zget z m = Some sc}"
proof -
  have "{m. \<exists>sc. zget z m = Some sc} = {m. zget z m \<noteq> None}" by auto
  then have "{m. \<exists>sc. zget z m = Some sc} = set (zmembers z)" by (simp add: zget_None_iff)
  then show ?thesis by simp
qed

lemma finite_holders [simp]: "finite (holders z)"
  by (rule finite_subset [OF _ finite_locks [of z]]) (auto simp: holders_def)

lemma card_holders_le: "int (card (holders z)) \<le> n_locks z"
  unfolding n_locks_card of_nat_le_iff by (rule card_mono) (auto simp: holders_def)

lemma n_locks_zins: "n_locks (zins sc i z) = (if zget z i = None then n_locks z + 1 else n_locks z)"
proof -
  have "{m. zget (zins sc i z) m \<noteq> None} = insert i {m. zget z m \<noteq> None}"
    by auto
  then show ?thesis by (simp add: n_locks_card card_insert_if)
qed

lemma holders_mono:
  assumes "\<And>m. zget z m = None \<Longrightarrow> zget z' m = None"
  shows "card (holders z') \<le> card (holders z)"
proof (rule card_mono [OF finite_holders], rule subsetI)
  fix m assume "m \<in> holders z'"
  then have "m \<noteq> SYSTEM_LOCK_ID" "zget z' m \<noteq> None" by (simp_all add: holders_def)
  with assms [of m] show "m \<in> holders z" by (auto simp: holders_def)
qed

context redis_server
begin

abbreviation locks_of :: "key \<Rightarrow> 'r \<Rightarrow> zset" where
  "locks_of k s \<equiv> zsets (view R s) k"

lemma view_expire_locks: "kind k = KZset \<Longrightarrow> view R (r_zremrangebyscore R k 0 now s) =
    (view R s)\<lparr>zsets := (zsets (view R s))(k := unexpired now (locks_of k s))\<rparr>"
  by (simp add: unexpired_def redis_law)

lemma acquire_reply:
  assumes "kind (sem_name S) = KZset" "0 < sem_timeout S"
    and z: "z = unexpired now (locks_of (sem_name S) s)"
  shows "fst (acquire R S now s) =
    (if zget z SYSTEM_LOCK_ID \<noteq> None then (False, - 1)
     else if granted (sem_lock_id S) (sem_max_locks S) z
       then (True, n_locks (zins (now + sem_timeout S) (sem_lock_id S) z))
     else (False, n_locks z))"
  using assms(1,2)
  by (simp add: acquire_def semaphore_script_def view_expire_locks zscore zcard view_expire Let_def
      z [symmetric] granted_def n_locks_def [symmetric] n_locks_zins)

lemma view_acquire:
  assumes "kind (sem_name S) = KZset" "0 < sem_timeout S"
    and z: "z = unexpired now (locks_of (sem_name S) s)"
  shows "view R (snd (acquire R S now s)) = (view R s)\<lparr>zsets := (zsets (view R s))
    (sem_name S := (if granted (sem_lock_id S) (sem_max_locks S) z
       then zins (now + sem_timeout S) (sem_lock_id S) z else z))\<rparr>"
  using assms(1,2)
  by (simp add: acquire_def semaphore_script_def view_expire_locks zscore zcard view_expire
      view_zadd Let_def z [symmetric] granted_def n_locks_def [symmetric])

text \<open>Reply and effect of a request together, in terms of its answer.\<close>

lemma acquire_outcome:
  assumes "kind (sem_name S) = KZset" "0 < sem_timeout S" "acquire R S now s = ((acquired, locks), s')"
    and z: "z = unexpired now (locks_of (sem_name S) s)"
  shows "acquired \<longleftrightarrow> granted (sem_lock_id S) (sem_max_locks S) z"
    and "view R s' = (view R s)\<lparr>zsets := (zsets (view R s))
      (sem_name S := (if acquired then zins (now + sem_timeout S) (sem_lock_id S) z else z))\<rparr>"
    and "locks = (if zget z SYSTEM_LOCK_ID \<noteq> None then - 1 else n_locks (locks_of (sem_name S) s'))"
  using acquire_reply [OF assms(1,2) z] view_acquire [OF assms(1,2) z] assms(3)
  by (auto simp: granted_def split: if_splits)

lemma view_release:
  "kind (sem_name S) = KZset \<Longrightarrow> view R (release R S s) =
    (view R s)\<lparr>zsets := (zsets (view R s))(sem_name S := zdel (sem_lock_id S) (locks_of (sem_name S) s))\<rparr>"
  by (simp add: release_def redis_law)

lemma view_set_system_lock:
  "kind k = KZset \<Longrightarrow> - 10 < t \<Longrightarrow> view R (set_system_lock R k t now s) =
    (view R s)\<lparr>zsets := (zsets (view R s))(k := zins (now + of_int t) SYSTEM_LOCK_ID (locks_of k s))\<rparr>"
  by (simp add: set_system_lock_def redis_law)

end

subsection \<open>Who may hold a lock\<close>

text \<open>A lock is granted exactly if, once the expired locks are removed, there is no system lock and
  the caller either holds a lock already or leaves the number of locks within the bound; the reply
  counts the locks (-1 under a system lock), a grant sets the caller's expiry to its timeout from
  now, and nothing else on the server changes. Renewing is the same call.\<close>

theorem renew_outcome:
  assumes "redis_server R kind" "kind (sem_name S) = KZset" "0 < sem_timeout S"
    and "renew R S now s = ((acquired, locks), s')"
  defines "z \<equiv> unexpired now (zsets (view R s) (sem_name S))"
  shows "(acquired \<longleftrightarrow> granted (sem_lock_id S) (sem_max_locks S) z) \<and>
    view R s' = (view R s)\<lparr>zsets := (zsets (view R s))
      (sem_name S := (if acquired then zins (now + sem_timeout S) (sem_lock_id S) z else z))\<rparr> \<and>
    locks = (if zget z SYSTEM_LOCK_ID \<noteq> None then - 1 else n_locks (zsets (view R s') (sem_name S)))"
  using redis_server.acquire_outcome [OF assms(1-3) _ z_def [THEN meta_eq_to_obj_eq]] assms(4)
  unfolding renew_def by blast

definition ex_semaphore :: "member \<Rightarrow> semaphore" where
  "ex_semaphore i = \<lparr>sem_name = ''k'', sem_lock_id = i, sem_timeout = 10, sem_max_locks = 1\<rparr>"

lemma ex_semaphore_simps [simp]:
  "sem_name (ex_semaphore i) = ''k''" "sem_lock_id (ex_semaphore i) = i"
  "sem_timeout (ex_semaphore i) = 10" "sem_max_locks (ex_semaphore i) = 1"
  by (simp_all add: ex_semaphore_def)

abbreviation zmem :: "memdb redis" where
  "zmem \<equiv> mem_redis (\<lambda>_. KZset)"

definition ex_held :: memdb where
  "ex_held = snd (r_zadd zmem ''k'' [(8, ''a'')] mem_empty)"

lemma ex_held_locks: "zsets (view zmem ex_held) k = (if k = ''k'' then zins 8 ''a'' zempty else zempty)"
  by (simp add: ex_held_def mem_redis_def mem_view_def mem_zput_def mem_fresh_def mem_empty_def)

lemma n_locks_zempty [simp]: "n_locks zempty = 0"
  by (simp add: n_locks_def zempty.rep_eq)

lemma unexpired_zins: "zget z m = None \<Longrightarrow>
    unexpired now (zins sc m z) = (if 0 \<le> sc \<and> sc \<le> now then unexpired now z else zins sc m (unexpired now z))"
  by (rule zset_eqI) (auto simp: zget_unexpired split: option.splits)

lemma unexpired_zempty [simp]: "unexpired now zempty = zempty"
  by (rule zset_eqI) (simp add: zget_unexpired)

theorem renew_outcome_witness:
  "fst (fst (renew zmem (ex_semaphore ''b'') 5 ex_held)) = False \<and>
   fst (fst (renew zmem (ex_semaphore ''b'') 9 ex_held)) = True"
proof -
  have "granted ''b'' 1 (unexpired 5 (zsets (view zmem ex_held) ''k'')) = False"
    "granted ''b'' 1 (unexpired 9 (zsets (view zmem ex_held) ''k'')) = True"
    by (simp_all add: ex_held_locks unexpired_zins granted_def n_locks_zins SYSTEM_LOCK_ID_def)
  moreover have "fst (fst (renew zmem (ex_semaphore ''b'') t ex_held)) \<longleftrightarrow>
      granted ''b'' 1 (unexpired t (zsets (view zmem ex_held) ''k''))" for t
    using renew_outcome [OF mem.redis_server_axioms, where S = "ex_semaphore ''b''" and now = t
        and s = ex_held]
    by (metis ex_semaphore_simps prod.collapse zero_less_numeral)
  ultimately show ?thesis by simp
qed

subsection \<open>The bound holds in every run\<close>

text \<open>
  The users of a semaphore, at whatever times their clocks show, and everything else that happens
  on the server: commands on other keys, and the key being dropped when its time to live ends.
\<close>

inductive sem_step :: "'r redis \<Rightarrow> key \<Rightarrow> int \<Rightarrow> 'r \<Rightarrow> 'r \<Rightarrow> bool" for R k n where
  step_acquire: "sem_name S = k \<Longrightarrow> sem_max_locks S = n \<Longrightarrow> 0 < sem_timeout S \<Longrightarrow>
    sem_lock_id S \<noteq> SYSTEM_LOCK_ID \<Longrightarrow> sem_step R k n s (snd (acquire R S now s))"
| step_release: "sem_name S = k \<Longrightarrow> sem_step R k n s (release R S s)"
| step_system: "- 10 < timeout \<Longrightarrow> sem_step R k n s (set_system_lock R k timeout now s)"
| step_elsewhere: "zsets (view R s') k = zsets (view R s) k \<Longrightarrow> sem_step R k n s s'"
| step_dropped: "zsets (view R s') k = zempty \<Longrightarrow> sem_step R k n s s'"

inductive_cases sem_stepE: "sem_step R k n s s'"

lemma holders_simps [simp]:
  "holders zempty = {}" "holders (zins sc SYSTEM_LOCK_ID z) = holders z"
  by (auto simp: holders_def)

lemma card_holders_unexpired: "card (holders (unexpired now z)) \<le> card (holders z)"
  by (rule holders_mono) (simp add: zget_unexpired)

lemma card_holders_zdel: "card (holders (zdel m z)) \<le> card (holders z)"
  by (rule holders_mono) simp

lemma granted_bound: "granted i n z \<Longrightarrow> int (card (holders (zins sc i z))) \<le> n"
  using card_holders_le [of "zins sc i z"] by (auto simp: granted_def n_locks_zins split: if_splits)

context redis_server
begin

lemma sem_step_bound:
  assumes k: "kind k = KZset" and bound: "int (card (holders (locks_of k s))) \<le> max 0 n"
    and "sem_step R k n s s'"
  shows "int (card (holders (locks_of k s'))) \<le> max 0 n"
  using assms(3)
proof cases
  case (step_acquire S now)
  let ?z = "unexpired now (locks_of k s)"
  have "locks_of k s' = (if granted (sem_lock_id S) n ?z
      then zins (now + sem_timeout S) (sem_lock_id S) ?z else ?z)"
    using step_acquire k view_acquire [of S ?z now s] by simp
  then show ?thesis
    using granted_bound [of "sem_lock_id S" n ?z "now + sem_timeout S"]
      card_holders_unexpired [of now "locks_of k s"] bound by (auto simp: le_max_iff_disj)
next
  case (step_release S)
  then show ?thesis
    using k bound card_holders_zdel [of "sem_lock_id S" "locks_of k s"] by (simp add: view_release)
qed (use k bound in \<open>simp_all add: view_set_system_lock\<close>)

end

sublocale redis_server \<subseteq> sem_users: inductive_invariant
  "\<lambda>s. kind k = KZset \<and> locks_of k s = zempty" "sem_step R k n"
  "\<lambda>s. kind k = KZset \<and> int (card (holders (locks_of k s))) \<le> max 0 n"
  for k n
  by unfold_locales (auto intro: sem_step_bound)

context redis_server
begin

lemma reach_bound:
  "reach (\<lambda>s. kind k = KZset \<and> locks_of k s = zempty) (sem_step R k n) s \<Longrightarrow>
    int (card (holders (locks_of k s))) \<le> max 0 n"
  using sem_users.reach_inv by blast

end

text \<open>C14: however many workers acquire, renew and release locks of a semaphore with bound \<open>n\<close>, with
  whatever clocks, in whatever order with other commands, system locks and expiry, at no time do
  more than \<open>n\<close> of them hold a lock.\<close>

theorem semaphore_bound:
  assumes "redis_server R kind" "kind k = KZset" "0 \<le> n"
    and "reach (\<lambda>s. kind k = KZset \<and> zsets (view R s) k = zempty) (sem_step R k n) s"
  shows "int (card (holders (zsets (view R s) k))) \<le> n"
  using redis_server.reach_bound [OF assms(1,4)] assms(3) by simp

theorem semaphore_bound_witness:
  "int (card (holders (zsets (view zmem (snd (acquire zmem (ex_semaphore ''b'') 9
     (snd (acquire zmem (ex_semaphore ''a'') 0 mem_empty))))) ''k''))) \<le> 1"
proof -
  let ?init = "\<lambda>s. KZset = KZset \<and> zsets (view zmem s) ''k'' = zempty"
  have step: "sem_step zmem ''k'' 1 s (snd (acquire zmem (ex_semaphore i) t s))"
    if "i \<noteq> SYSTEM_LOCK_ID" for i t s
    using that by (intro step_acquire) simp_all
  have "reach ?init (sem_step zmem ''k'' 1) mem_empty"
    by (rule reach_init) (simp add: mem_redis_def mem_view_def mem_empty_def)
  then have "reach ?init (sem_step zmem ''k'' 1) (snd (acquire zmem (ex_semaphore ''a'') 0 mem_empty))"
    by (rule reach_step) (rule step, simp add: SYSTEM_LOCK_ID_def)
  then have "reach ?init (sem_step zmem ''k'' 1) (snd (acquire zmem (ex_semaphore ''b'') 9
      (snd (acquire zmem (ex_semaphore ''a'') 0 mem_empty))))"
    by (rule reach_step) (rule step, simp add: SYSTEM_LOCK_ID_def)
  from semaphore_bound [OF mem.redis_server_axioms _ _ this] show ?thesis by simp
qed

subsection \<open>System locks\<close>

text \<open>A system lock is reported with its expiry and refuses every acquisition and renewal before it
  expires, leaving itself in place; so no lock is granted or prolonged until then.\<close>

theorem system_lock_blocks:
  assumes "redis_server R kind" "kind k = KZset" "- 10 < timeout"
    and "sem_name S = k" "0 < sem_timeout S" "now' < now + of_int timeout"
    and locked_def: "locked = set_system_lock R k timeout now s"
  shows "get_system_lock R k locked = Some (now + of_int timeout) \<and>
    fst (renew R S now' locked) = (False, - 1) \<and>
    get_system_lock R k (snd (renew R S now' locked)) = Some (now + of_int timeout)"
proof -
  let ?z = "unexpired now' (zsets (view R locked) k)"
  have z: "zget (zsets (view R locked) k) SYSTEM_LOCK_ID = Some (now + of_int timeout)"
    by (simp add: locked_def redis_server.view_set_system_lock [OF assms(1-3)])
  then have *: "zget ?z SYSTEM_LOCK_ID = Some (now + of_int timeout)"
    using assms(6) by (simp add: zget_unexpired)
  then have "\<not> granted i m ?z" for i m by (simp add: granted_def)
  with * z show ?thesis
    using redis_server.acquire_reply [OF assms(1), of S ?z now' locked]
      redis_server.view_acquire [OF assms(1), of S ?z now' locked] assms(2,4,5)
    by (simp add: renew_def get_system_lock_def redis_server.zscore [OF assms(1,2)])
qed

theorem system_lock_blocks_witness:
  "fst (renew zmem (ex_semaphore ''b'') 9 (set_system_lock zmem ''k'' 60 5 ex_held)) = (False, - 1)"
  using system_lock_blocks [OF mem.redis_server_axioms, where k = "''k''" and timeout = 60 and now = 5
      and s = ex_held and locked = "set_system_lock zmem ''k'' 60 5 ex_held" and S = "ex_semaphore ''b''" and now' = 9]
  by simp

subsection \<open>Time to live\<close>

context redis_server
begin

lemma acquire_ttl:
  assumes "kind (sem_name S) = KZset" "0 < sem_timeout S" "r_clock R s = now"
    and "zget (unexpired now (locks_of (sem_name S) s)) SYSTEM_LOCK_ID = None"
    and "r_ttl R (sem_name S) (snd (acquire R S now s)) = Some d"
  shows "d = now + of_int \<lceil>sem_timeout S * 2\<rceil>"
proof -
  let ?k = "sem_name S" and ?n = "\<lceil>sem_timeout S * 2\<rceil>"
  define s1 where "s1 = r_zremrangebyscore R ?k 0 now s"
  define s2 where "s2 = r_expire R ?k ?n s1"
  have n: "0 < ?n" using assms(2) by simp
  have "snd (acquire R S now s) \<in> {s2, snd (r_zadd R ?k [(now + sem_timeout S, sem_lock_id S)] s2)}"
    using assms(1,4)
    by (auto simp: acquire_def semaphore_script_def s1_def s2_def Let_def zscore view_expire_locks)
  then have "r_ttl R ?k s2 = Some d"
    using assms(5) ttl_zadd [OF assms(1)] by auto
  moreover have "r_ttl R ?k s2 = (if r_exists R ?k s1 then Some (now + of_int ?n) else r_ttl R ?k s1)"
    using n assms(3) by (simp add: s2_def ttl_expire s1_def clock_zremrangebyscore)
  ultimately show ?thesis
    using ttl_absent [of ?k s1] by (auto split: if_splits)
qed

end

text \<open>If all users of the semaphore have the same timeout and the server's clock agrees with theirs,
  then an acquisition leaves the key either without a time to live or with one that ends after the
  expiry of every lock: the server drops no lock that is still valid.\<close>

theorem acquire_keeps_locks:
  assumes "redis_server R kind" "kind (sem_name S) = KZset" "0 < sem_timeout S"
    and "r_clock R s = now" "\<And>m sc. zget (zsets (view R s) (sem_name S)) m = Some sc \<Longrightarrow>
      m \<noteq> SYSTEM_LOCK_ID \<Longrightarrow> sc \<le> now + sem_timeout S"
    and "acquire R S now s = ((locks, n), s')" "n \<noteq> - 1" "r_ttl R (sem_name S) s' = Some d"
    and "zget (zsets (view R s') (sem_name S)) m = Some sc"
  shows "sc < d"
proof -
  let ?k = "sem_name S" and ?z = "unexpired now (zsets (view R s) (sem_name S))"
  let ?T = "sem_timeout S" and ?s1 = "r_zremrangebyscore R (sem_name S) 0 now s"
  note outcome = redis_server.acquire_outcome [OF assms(1-3,6) refl]
  have no_system: "zget ?z SYSTEM_LOCK_ID = None"
  proof (rule ccontr)
    assume "\<not> ?thesis"
    with outcome have "n = - 1" by simp
    with assms(7) show False by simp
  qed
  have "sc \<le> now + ?T"
  proof (cases "zget ?z m = Some sc")
    case True
    with no_system assms(5) [of m sc] show ?thesis
      by (cases "m = SYSTEM_LOCK_ID") (auto simp: zget_unexpired split: option.splits if_splits)
  qed (use outcome assms(9) in \<open>auto split: if_splits\<close>)
  moreover have "d = now + of_int \<lceil>?T * 2\<rceil>"
    by (rule redis_server.acquire_ttl [OF assms(1-4) no_system]) (use assms(6,8) in simp)
  moreover have "?T < of_int \<lceil>?T * 2\<rceil>"
    using assms(3) le_of_int_ceiling [of "?T * 2"] by linarith
  ultimately show ?thesis by linarith
qed

lemma ex_held_clock [simp]: "r_clock zmem ex_held = 0"
  by (simp add: ex_held_def mem_redis_def mem_zput_def mem_fresh_def mem_empty_def)

lemma ex_held_granted: "granted ''a'' 1 (unexpired 0 (zsets (view zmem ex_held) ''k''))"
  by (simp add: ex_held_locks unexpired_zins granted_def n_locks_zins SYSTEM_LOCK_ID_def)

theorem acquire_keeps_locks_witness:
  "r_ttl zmem ''k'' (snd (acquire zmem (ex_semaphore ''a'') 0 ex_held)) = Some 20 \<and> (10::time) < 20"
proof -
  let ?s' = "snd (acquire zmem (ex_semaphore ''a'') 0 ex_held)"
  have ttl: "r_ttl zmem ''k'' ?s' = Some 20"
    by (simp add: acquire_def semaphore_script_def ex_held_def mem_redis_def mem_zput_def mem_fresh_def
        mem_empty_def mem_present_def zget_zfilter zfilter.rep_eq SYSTEM_LOCK_ID_def zlist_eval Let_def
        flip: zlist_eq_Nil_iff)
  have score: "zget (zsets (view zmem ?s') ''k'') ''a'' = Some 10"
    using mem.view_acquire [where S = "ex_semaphore ''a''" and kind = "\<lambda>_. KZset" and s = ex_held
        and now = 0, OF _ _ refl] ex_held_granted by simp
  have reply: "acquire zmem (ex_semaphore ''a'') 0 ex_held = ((True, 1), ?s')"
    using mem.acquire_reply [where S = "ex_semaphore ''a''" and kind = "\<lambda>_. KZset" and s = ex_held
        and now = 0, OF _ _ refl] ex_held_granted
    by (simp add: prod_eq_iff ex_held_locks unexpired_zins n_locks_zins SYSTEM_LOCK_ID_def)
  show ?thesis
    using acquire_keeps_locks [OF mem.redis_server_axioms _ _ _ _ reply] ttl score
    by (simp add: ex_held_locks split: if_splits)
qed

end
