(* ===== verification/Queue_Spec.thy ===== *)
theory Queue_Spec
  imports Redis_Scripts
begin

text \<open>
  What TaskTiger stores, without the layout of Redis' keys: where the tasks are, by state and
  queue, which queues each state lists, and the data, past executions and execution counter of
  every task. \<open>tiger_view\<close> reads this store off the server's data; the operations of the library
  refine the functions on the store that this theory defines. The contract that all of them share
  is the invariant \<open>indexed\<close>: a state lists exactly the queues with tasks in that state.
\<close>

subsection \<open>The store\<close>

record store =
  place :: "task_state \<Rightarrow> queue_name \<Rightarrow> zset"
  listed :: "task_state \<Rightarrow> queue_name set"
  task_data :: "task_id \<Rightarrow> string option"
  execs :: "task_id \<Rightarrow> string list"
  execs_count :: "task_id \<Rightarrow> string option"
  sent :: "(string \<times> string) list"

definition tiger_view :: "string \<Rightarrow> db \<Rightarrow> store" where
  "tiger_view p d =
     \<lparr>place = (\<lambda>st q. zsets d (queue_key p st q)),
      listed = (\<lambda>st. sets d (state_key p st)),
      task_data = (\<lambda>i. if colon_free i then strs d (task_key p i) else None),
      execs = (\<lambda>i. if colon_free i then lists d (executions_key p i) else []),
      execs_count = (\<lambda>i. if colon_free i then strs d (count_key p i) else None),
      sent = published d\<rparr>"

definition task_score :: "store \<Rightarrow> task_state \<Rightarrow> queue_name \<Rightarrow> task_id \<Rightarrow> score option" where
  "task_score t st q i = zget (place t st q) i"

definition task_at :: "store \<Rightarrow> task_state \<Rightarrow> queue_name \<Rightarrow> task_id \<Rightarrow> bool" where
  "task_at t st q i \<longleftrightarrow> task_score t st q i \<noteq> None"

definition indexed :: "store \<Rightarrow> bool" where
  "indexed t \<longleftrightarrow> (\<forall>st q. q \<in> listed t st \<longleftrightarrow> place t st q \<noteq> zempty)"

definition backed :: "store \<Rightarrow> bool" where
  "backed t \<longleftrightarrow> (\<forall>st q i. task_at t st q i \<longrightarrow> colon_free i \<and> task_data t i \<noteq> None)"

subsection \<open>Elementary changes\<close>

definition put_tasks :: "task_state \<Rightarrow> queue_name \<Rightarrow> zset \<Rightarrow> store \<Rightarrow> store" where
  "put_tasks st q z t = t\<lparr>place := (place t)(st := (place t st)(q := z))\<rparr>"

definition list_queue :: "task_state \<Rightarrow> queue_name \<Rightarrow> store \<Rightarrow> store" where
  "list_queue st q t = t\<lparr>listed := (listed t)(st := insert q (listed t st))\<rparr>"

definition unlist_empty :: "task_state \<Rightarrow> queue_name \<Rightarrow> store \<Rightarrow> store" where
  "unlist_empty st q t =
     (if place t st q = zempty then t\<lparr>listed := (listed t)(st := listed t st - {q})\<rparr> else t)"

definition list_nonempty :: "task_state \<Rightarrow> queue_name \<Rightarrow> store \<Rightarrow> store" where
  "list_nonempty st q t = (if place t st q = zempty then t else list_queue st q t)"

definition put_data :: "task_id \<Rightarrow> string \<Rightarrow> store \<Rightarrow> store" where
  "put_data i x t = t\<lparr>task_data := (task_data t)(i := Some x)\<rparr>"

definition drop_data :: "task_id \<Rightarrow> store \<Rightarrow> store" where
  "drop_data i t = t\<lparr>task_data := (task_data t)(i := None)\<rparr>"

definition drop_executions :: "task_id \<Rightarrow> store \<Rightarrow> store" where
  "drop_executions i t =
     t\<lparr>execs := (execs t)(i := []), execs_count := (execs_count t)(i := None)\<rparr>"

definition send :: "string \<Rightarrow> string \<Rightarrow> store \<Rightarrow> store" where
  "send c x t = t\<lparr>sent := sent t @ [(c, x)]\<rparr>"

lemmas store_defs = put_tasks_def list_queue_def unlist_empty_def list_nonempty_def put_data_def
  drop_data_def drop_executions_def send_def

lemma place_simps [simp]:
  "place (put_tasks st q z t) = (place t)(st := (place t st)(q := z))"
  "place (list_queue st q t) = place t"
  "place (unlist_empty st q t) = place t"
  "place (list_nonempty st q t) = place t"
  "place (put_data i x t) = place t"
  "place (drop_data i t) = place t"
  "place (drop_executions i t) = place t"
  "place (send c x t) = place t"
  by (simp_all add: store_defs)

lemma listed_simps [simp]:
  "listed (put_tasks st q z t) = listed t"
  "listed (list_queue st q t) = (listed t)(st := insert q (listed t st))"
  "listed (unlist_empty st q t) =
     (if place t st q = zempty then (listed t)(st := listed t st - {q}) else listed t)"
  "listed (list_nonempty st q t) =
     (if place t st q = zempty then listed t else (listed t)(st := insert q (listed t st)))"
  "listed (put_data i x t) = listed t"
  "listed (drop_data i t) = listed t"
  "listed (drop_executions i t) = listed t"
  "listed (send c x t) = listed t"
  by (simp_all add: store_defs)

lemma data_simps [simp]:
  "task_data (put_tasks st q z t) = task_data t"
  "task_data (list_queue st q t) = task_data t"
  "task_data (unlist_empty st q t) = task_data t"
  "task_data (list_nonempty st q t) = task_data t"
  "task_data (put_data i x t) = (task_data t)(i := Some x)"
  "task_data (drop_data i t) = (task_data t)(i := None)"
  "task_data (drop_executions i t) = task_data t"
  "task_data (send c x t) = task_data t"
  by (simp_all add: store_defs)

lemma execs_simps [simp]:
  "execs (put_tasks st q z t) = execs t"
  "execs (list_queue st q t) = execs t"
  "execs (unlist_empty st q t) = execs t"
  "execs (list_nonempty st q t) = execs t"
  "execs (put_data i x t) = execs t"
  "execs (drop_data i t) = execs t"
  "execs (drop_executions i t) = (execs t)(i := [])"
  "execs (send c x t) = execs t"
  by (simp_all add: store_defs)

lemma tiger_view_simps [simp]:
  "place (tiger_view p d) st q = zsets d (queue_key p st q)"
  "listed (tiger_view p d) st = sets d (state_key p st)"
  "colon_free i \<Longrightarrow> task_data (tiger_view p d) i = strs d (task_key p i)"
  "colon_free i \<Longrightarrow> execs (tiger_view p d) i = lists d (executions_key p i)"
  "colon_free i \<Longrightarrow> execs_count (tiger_view p d) i = strs d (count_key p i)"
  "sent (tiger_view p d) = published d"
  by (simp_all add: tiger_view_def)

subsection \<open>Changes of the server's data as changes of the store\<close>

named_theorems store_view \<open>elementary changes of the data, read as changes of the store\<close>

lemma task_key_parts_neq [simp]:
  assumes "colon_free i" "colon_free j"
  shows "task_key p i \<noteq> count_key p j" "count_key p j \<noteq> task_key p i"
    "task_key p i \<noteq> executions_key p j" "executions_key p j \<noteq> task_key p i"
    "count_key p i \<noteq> executions_key p j" "executions_key p j \<noteq> count_key p i"
    "count_key p i = count_key p j \<longleftrightarrow> i = j"
    "executions_key p i = executions_key p j \<longleftrightarrow> i = j"
  using assms by (auto simp: task_parts_eq)

lemma store_view_put [store_view]:
  "tiger_view p (d\<lparr>zsets := (zsets d)(queue_key p st q := z)\<rparr>) = put_tasks st q z (tiger_view p d)"
  by (auto simp: tiger_view_def put_tasks_def fun_eq_iff)

lemma store_view_list [store_view]:
  "tiger_view p (d\<lparr>sets := (sets d)(state_key p st := insert q (sets d (state_key p st)))\<rparr>) =
    list_queue st q (tiger_view p d)"
  by (auto simp: tiger_view_def list_queue_def fun_eq_iff)

lemma store_view_unlist [store_view]:
  "zsets d (queue_key p st q) = zempty \<Longrightarrow>
    tiger_view p (d\<lparr>sets := (sets d)(state_key p st := sets d (state_key p st) - {q})\<rparr>) =
    unlist_empty st q (tiger_view p d)"
  by (auto simp: tiger_view_def unlist_empty_def fun_eq_iff)

lemma store_view_data [store_view]:
  "colon_free i \<Longrightarrow> tiger_view p (d\<lparr>strs := (strs d)(task_key p i := Some x)\<rparr>) =
    put_data i x (tiger_view p d)"
  by (auto simp: tiger_view_def put_data_def fun_eq_iff)

lemma store_view_send [store_view]:
  "tiger_view p (d\<lparr>published := published d @ [(c, x)]\<rparr>) = send c x (tiger_view p d)"
  by (auto simp: tiger_view_def send_def fun_eq_iff)

lemma store_view_del_data [store_view]:
  "colon_free i \<Longrightarrow> tiger_view p (del_keys {task_key p i} d) = drop_data i (tiger_view p d)"
  by (auto simp: tiger_view_def drop_data_def del_keys_def fun_eq_iff key_law dest: sym)

lemma store_view_del_executions [store_view]:
  "colon_free i \<Longrightarrow> tiger_view p (del_keys {executions_key p i, count_key p i} d) =
    drop_executions i (tiger_view p d)"
  by (auto simp: tiger_view_def drop_executions_def del_keys_def fun_eq_iff key_law dest: sym)

lemma store_view_del_all [store_view]:
  "colon_free i \<Longrightarrow> tiger_view p (del_keys {task_key p i, executions_key p i, count_key p i} d) =
    drop_data i (drop_executions i (tiger_view p d))"
  by (auto simp: tiger_view_def drop_data_def drop_executions_def del_keys_def fun_eq_iff key_law dest: sym)

subsection \<open>What keeps the index\<close>

text \<open>
  Filling a queue and listing it keeps the index; so does taking tasks out of a queue and then
  unlisting the queue if nothing is left.
\<close>

lemma indexed_empty: "indexed (tiger_view p (mem_view mem_empty))"
  by (simp add: indexed_def mem_view_def mem_empty_def)

lemma indexed_frame:
  "place t' = place t \<Longrightarrow> listed t' = listed t \<Longrightarrow> indexed t' \<longleftrightarrow> indexed t"
  by (simp add: indexed_def)

lemma indexed_fill:
  "indexed t \<Longrightarrow> z \<noteq> zempty \<Longrightarrow> indexed (list_queue st q (put_tasks st q z t))"
  by (auto simp: indexed_def)

lemma indexed_drain:
  "indexed t \<Longrightarrow> z = zempty \<or> place t st q \<noteq> zempty \<Longrightarrow>
    indexed (unlist_empty st q (put_tasks st q z t))"
  by (auto simp: indexed_def)

lemma zdel_zempty_iff: "zdel m z = zempty \<longleftrightarrow> (\<forall>m'. m' \<noteq> m \<longrightarrow> zget z m' = None)"
  by (auto simp: zset_eq_zempty_iff)

lemma zdel_zempty [simp]: "zdel m zempty = zempty"
  by (simp add: zdel_zempty_iff)

lemma zget_zempty_neq: "zget z m \<noteq> None \<Longrightarrow> z \<noteq> zempty"
  by auto

end
