(* ===== verification/Move_Task.thy ===== *)
theory Move_Task
  imports Queue_Spec
begin

text \<open>
  The script \<^verbatim>\<open>lua/move_task.lua\<close>, through which every change of a task's state goes once the
  task is in Redis, and \<^verbatim>\<open>RedisScripts.move_task\<close>, which computes its keys.
\<close>

subsection \<open>The script\<close>

definition zadd_w_mode :: "'r redis \<Rightarrow> key \<Rightarrow> score \<Rightarrow> member \<Rightarrow> string \<Rightarrow> 'r \<Rightarrow> 'r result" where
  "zadd_w_mode R key score member mode s =
     (if mode = '''' then Inr (snd (r_zadd R key [(score, member)] s))
      else if mode = ''nx'' then Inr (zadd_noupdate R key score member s)
      else if mode = ''min'' then Inr (snd (zadd_update_min R key score member s))
      else Inl (ResponseError (''mode '' @ mode @ '' unsupported'')))"

record move_keys =
  key_task_id :: key
  key_task_id_executions :: key
  key_task_id_executions_count :: key
  key_from_state :: key
  key_to_state :: key
  key_active_queue :: key
  key_queued_queue :: key
  key_error_queue :: key
  key_scheduled_queue :: key
  key_activity :: key

fun state_queues_keys_by_state :: "move_keys \<Rightarrow> task_state \<Rightarrow> key" where
  "state_queues_keys_by_state K ACTIVE = key_active_queue K"
| "state_queues_keys_by_state K QUEUED = key_queued_queue K"
| "state_queues_keys_by_state K ERROR = key_error_queue K"
| "state_queues_keys_by_state K SCHEDULED = key_scheduled_queue K"

text \<open>
  A task that leaves the queue takes its data with it. A unique task may be queued again under the
  same identifier meanwhile, so its keys go only if the other sorted sets do not hold it.
\<close>

definition remove_task :: "'r redis \<Rightarrow> move_keys \<Rightarrow> task_id \<Rightarrow> task_state \<Rightarrow> bool \<Rightarrow> 'r \<Rightarrow> 'r" where
  "remove_task R K i from_state unique s =
     (if unique then
        let to_delete = [key_task_id_executions K, key_task_id_executions_count K];
            keys = to_delete @ (if from_state \<noteq> ERROR then [key_error_queue K] else []);
            s1 = snd (delete_if_not_in_zsets_script R keys (length to_delete) i s);
            to_delete' = [key_task_id K];
            zsets = map (state_queues_keys_by_state K)
              (filter (\<lambda>v. v \<noteq> from_state) [ACTIVE, QUEUED, ERROR, SCHEDULED])
        in snd (delete_if_not_in_zsets_script R (to_delete' @ zsets) (length to_delete') i s1)
      else snd (r_del R
        [key_task_id K, key_task_id_executions K, key_task_id_executions_count K] s))"

text \<open>
  The assertion and the check of the mode come before the first write, so that a script that
  fails leaves no effect.
\<close>

definition move_task_script ::
    "'r redis \<Rightarrow> move_keys \<Rightarrow> task_id \<Rightarrow> queue_name \<Rightarrow> task_state \<Rightarrow> task_state option \<Rightarrow> bool
      \<Rightarrow> time \<Rightarrow> string \<Rightarrow> bool \<Rightarrow> 'r \<Rightarrow> 'r result" where
  "move_task_script R K i queue from_state to_state unique when mode publish_queued_tasks s =
     (let key_from_state_queue = state_queues_keys_by_state K from_state;
          added = (case to_state of
              None \<Rightarrow> Inr s
            | Some st \<Rightarrow>
                map_sum (\<lambda>e. e) (r_sadd R (key_to_state K) queue)
                  (zadd_w_mode R (state_queues_keys_by_state K st) when i mode s))
      in case fail_if_not_in_zset R key_from_state_queue i s of
        Inl e \<Rightarrow> Inl e
      | Inr _ \<Rightarrow>
          (case added of
             Inl e \<Rightarrow> Inl e
           | Inr s1 \<Rightarrow>
               let s2 = snd (r_zrem R key_from_state_queue i s1);
                   s3 = (if to_state = None then remove_task R K i from_state unique s2 else s2);
                   s4 = snd (srem_if_not_exists R (key_from_state K) queue key_from_state_queue s3);
                   s5 = (if to_state = Some QUEUED \<and> publish_queued_tasks
                         then r_publish R (key_activity K) queue s4 else s4)
               in Inr s5))"

subsection \<open>The method\<close>

fun none_to_empty_str :: "string option \<Rightarrow> string" where
  "none_to_empty_str None = ''''"
| "none_to_empty_str (Some x) = x"

definition move_keys_of :: "string \<Rightarrow> task_id \<Rightarrow> queue_name \<Rightarrow> task_state \<Rightarrow> task_state option \<Rightarrow> move_keys" where
  "move_keys_of p i queue from_state to_state =
     \<lparr>key_task_id = task_key p i,
      key_task_id_executions = executions_key p i,
      key_task_id_executions_count = count_key p i,
      key_from_state = state_key p from_state,
      key_to_state = (case to_state of None \<Rightarrow> '''' | Some st \<Rightarrow> state_key p st),
      key_active_queue = queue_key p ACTIVE queue,
      key_queued_queue = queue_key p QUEUED queue,
      key_error_queue = queue_key p ERROR queue,
      key_scheduled_queue = queue_key p SCHEDULED queue,
      key_activity = activity_channel p\<rparr>"

definition move_task ::
    "'r redis \<Rightarrow> string \<Rightarrow> task_id \<Rightarrow> queue_name \<Rightarrow> task_state \<Rightarrow> task_state option \<Rightarrow> bool
      \<Rightarrow> time \<Rightarrow> string option \<Rightarrow> bool \<Rightarrow> 'r \<Rightarrow> 'r result" where
  "move_task R p i queue from_state to_state unique when mode publish_queued_tasks s =
     move_task_script R (move_keys_of p i queue from_state to_state) i queue from_state to_state
       unique when (none_to_empty_str mode) publish_queued_tasks s"

subsection \<open>The contract\<close>

text \<open>
  The same move on the store: where the task is placed, whether its data and executions go, and
  which queues stay listed.
\<close>

definition placed :: "string \<Rightarrow> score \<Rightarrow> member \<Rightarrow> zset \<Rightarrow> zset" where
  "placed mode when i z =
     (if mode = ''nx'' then zins_new when i z
      else if mode = ''min'' then zins_min when i z else zins when i z)"

definition move_to :: "task_id \<Rightarrow> queue_name \<Rightarrow> task_state option \<Rightarrow> time \<Rightarrow> string \<Rightarrow> store \<Rightarrow> store" where
  "move_to i q to_state when mode t =
     (case to_state of None \<Rightarrow> t
      | Some st \<Rightarrow> list_queue st q (put_tasks st q (placed mode when i (place t st q)) t))"

definition forget_task :: "task_id \<Rightarrow> queue_name \<Rightarrow> task_state \<Rightarrow> bool \<Rightarrow> store \<Rightarrow> store" where
  "forget_task i q from_state unique t =
     (let t1 = (if unique \<and> from_state \<noteq> ERROR \<and> task_at t ERROR q i then t else drop_executions i t)
      in if unique \<and> (\<exists>st \<in> {ACTIVE, QUEUED, ERROR, SCHEDULED} - {from_state}. task_at t st q i)
         then t1 else drop_data i t1)"

definition move_in_store ::
    "string \<Rightarrow> task_id \<Rightarrow> queue_name \<Rightarrow> task_state \<Rightarrow> task_state option \<Rightarrow> bool \<Rightarrow> time \<Rightarrow> string
      \<Rightarrow> bool \<Rightarrow> store \<Rightarrow> store" where
  "move_in_store p i q from_state to_state unique when mode publish t =
     (let t1 = move_to i q to_state when mode t;
          t2 = put_tasks from_state q (zdel i (place t1 from_state q)) t1;
          t3 = (if to_state = None then forget_task i q from_state unique t2 else t2);
          t4 = unlist_empty from_state q t3
      in if to_state = Some QUEUED \<and> publish then send (activity_channel p) q t4 else t4)"

definition known_mode :: "string \<Rightarrow> bool" where
  "known_mode mode \<longleftrightarrow> mode \<in> {'''', ''nx'', ''min''}"

lemma known_mode_simps [simp]: "known_mode ''''" "known_mode ''nx''" "known_mode ''min''"
  by (simp_all add: known_mode_def)

subsection \<open>The script keeps the contract\<close>

lemma state_queues_keys [simp]:
  "state_queues_keys_by_state (move_keys_of p i q from_state to_state) st = queue_key p st q"
  by (cases st) (simp_all add: move_keys_of_def)

lemma move_keys_simps [simp]:
  "key_task_id (move_keys_of p i q from_state to_state) = task_key p i"
  "key_task_id_executions (move_keys_of p i q from_state to_state) = executions_key p i"
  "key_task_id_executions_count (move_keys_of p i q from_state to_state) = count_key p i"
  "key_from_state (move_keys_of p i q from_state to_state) = state_key p from_state"
  "key_to_state (move_keys_of p i q from_state (Some st)) = state_key p st"
  "key_error_queue (move_keys_of p i q from_state to_state) = queue_key p ERROR q"
  "key_activity (move_keys_of p i q from_state to_state) = activity_channel p"
  by (simp_all add: move_keys_of_def)

lemma placed_neq_zempty [simp]: "placed mode ts i z \<noteq> zempty"
  by (simp add: placed_def)

text \<open>Adding the task to its target, then taking it out of its source, keeps the index.\<close>

lemma indexed_moved:
  assumes "indexed t" "task_at t from_state q i"
  shows "indexed (unlist_empty from_state q (put_tasks from_state q
    (zdel i (place (move_to i q to_state ts mode t) from_state q)) (move_to i q to_state ts mode t)))"
proof (rule indexed_drain)
  show "indexed (move_to i q to_state ts mode t)"
    using assms(1) by (cases to_state) (simp_all add: move_to_def indexed_fill)
  have "place (move_to i q to_state ts mode t) from_state q \<noteq> zempty"
    using assms(2) by (cases to_state) (auto simp: move_to_def task_at_def task_score_def)
  then show "zdel i (place (move_to i q to_state ts mode t) from_state q) = zempty \<or>
      place (move_to i q to_state ts mode t) from_state q \<noteq> zempty" by simp
qed

lemma del_task_keys_frame:
  assumes "ks \<subseteq> {task_key p i, executions_key p i, count_key p i}"
  shows "place (tiger_view p (del_keys ks d)) = place (tiger_view p d)"
    "listed (tiger_view p (del_keys ks d)) = listed (tiger_view p d)"
proof -
  have "queue_key p st q \<notin> ks" "state_key p st \<notin> ks" for st q
    using assms by (auto simp: task_keys_neq task_keys_neq [symmetric] dest!: subsetD)
  then show "place (tiger_view p (del_keys ks d)) = place (tiger_view p d)"
    "listed (tiger_view p (del_keys ks d)) = listed (tiger_view p d)"
    by (simp_all add: del_keys_def fun_eq_iff)
qed

context redis_server
begin

lemma view_delete_if_not_in_zsets_script [redis_law]:
  "(\<And>k. k \<in> set (drop n keys) \<Longrightarrow> kind k = KZset) \<Longrightarrow>
    view R (snd (delete_if_not_in_zsets_script R keys n m s)) =
      (if \<exists>k \<in> set (drop n keys). zget (zsets (view R s) k) m \<noteq> None then view R s
       else del_keys (set (take n keys)) (view R s))"
  by (auto simp: delete_if_not_in_zsets_script_def Let_def redis_law list_ex_iff)

lemma view_srem_if_not_exists [redis_law]:
  "kind k = KSet \<Longrightarrow> kind other = KZset \<Longrightarrow>
    view R (snd (srem_if_not_exists R k m other s)) =
      (if zsets (view R s) other = zempty
       then (view R s)\<lparr>sets := (sets (view R s))(k := sets (view R s) k - {m})\<rparr> else view R s)"
  by (simp add: srem_if_not_exists_def redis_law)

end

context tiger_redis
begin

abbreviation store_of :: "'r \<Rightarrow> store" where
  "store_of s \<equiv> tiger_view p (view R s)"

lemma store_zadd_w_mode:
  assumes "known_mode mode"
  shows "\<exists>s'. zadd_w_mode R (queue_key p st q) ts i mode s = Inr s' \<and>
    store_of s' = put_tasks st q (placed mode ts i (place (store_of s) st q)) (store_of s)"
  using assms
  by (auto simp: known_mode_def zadd_w_mode_def placed_def redis_law key_law store_view)

lemma store_delete_if_absent:
  assumes "colon_free i"
  shows "store_of (snd (delete_if_not_in_zsets_script R
        ([executions_key p i, count_key p i] @ map (\<lambda>st. queue_key p st q) sts) 2 i s)) =
      (if \<exists>st \<in> set sts. task_at (store_of s) st q i then store_of s else drop_executions i (store_of s))"
    "store_of (snd (delete_if_not_in_zsets_script R
        ([task_key p i] @ map (\<lambda>st. queue_key p st q) sts) 1 i s)) =
      (if \<exists>st \<in> set sts. task_at (store_of s) st q i then store_of s else drop_data i (store_of s))"
  using assms
  by (subst view_delete_if_not_in_zsets_script;
      auto simp: key_law task_at_def task_score_def numeral_2_eq_2 store_view)+

lemma forget_task_sts:
  "forget_task i q from_state True t =
    (let sts = filter (\<lambda>v. v \<noteq> from_state) [ACTIVE, QUEUED, ERROR, SCHEDULED];
         sts' = (if from_state \<noteq> ERROR then [ERROR] else []);
         t1 = (if \<exists>st \<in> set sts'. task_at t st q i then t else drop_executions i t)
     in if \<exists>st \<in> set sts. task_at t1 st q i then t1 else drop_data i t1)"
proof -
  have "set (filter (\<lambda>v. v \<noteq> from_state) [ACTIVE, QUEUED, ERROR, SCHEDULED]) =
      {ACTIVE, QUEUED, ERROR, SCHEDULED} - {from_state}"
    by auto
  then show ?thesis
    by (auto simp: forget_task_def Let_def task_at_def task_score_def)
qed

lemma state_queues_keys_fun:
  "state_queues_keys_by_state (move_keys_of p i q from_state to_state) = (\<lambda>st. queue_key p st q)"
  by (rule ext) simp

lemma store_remove_task:
  assumes "colon_free i"
  shows "store_of (remove_task R (move_keys_of p i q from_state to_state) i from_state unique s) =
    forget_task i q from_state unique (store_of s)"
proof (cases unique)
  case False
  with assms show ?thesis
    by (simp add: remove_task_def forget_task_def redis_law store_view)
next
  case True
  define sts where "sts = filter (\<lambda>v. v \<noteq> from_state) [ACTIVE, QUEUED, ERROR, SCHEDULED]"
  define sts' where "sts' = (if from_state \<noteq> ERROR then [ERROR] else [])"
  have keys: "(if from_state \<noteq> ERROR then [queue_key p ERROR q] else []) =
      map (\<lambda>st. queue_key p st q) sts'"
    by (simp add: sts'_def)
  show ?thesis
    using True store_delete_if_absent [OF assms, where q = q]
    by (simp only: remove_task_def forget_task_sts Let_def move_keys_simps state_queues_keys_fun
        keys if_True sts_def [symmetric] sts'_def [symmetric] list.size One_nat_def add_0
        numeral_2_eq_2 add_Suc)
qed

text \<open>The whole move, on success and in every error.\<close>

lemma move_task_not_found:
  "\<not> task_at (store_of s) from_state q i \<Longrightarrow>
    move_task R p i q from_state to_state unique ts mode publish s =
      Inl (ResponseError ''<FAIL_IF_NOT_IN_ZSET>'')"
  by (simp add: move_task_def move_task_script_def fail_if_not_in_zset_def redis_law key_law Let_def
      task_at_def task_score_def)

lemma move_task_bad_mode:
  "task_at (store_of s) from_state q i \<Longrightarrow> \<not> known_mode (none_to_empty_str mode) \<Longrightarrow>
    move_task R p i q from_state (Some st) unique ts mode publish s =
      Inl (ResponseError (''mode '' @ none_to_empty_str mode @ '' unsupported''))"
  by (auto simp: move_task_def move_task_script_def fail_if_not_in_zset_def redis_law key_law Let_def
      task_at_def task_score_def known_mode_def zadd_w_mode_def)

lemma move_task_run:
  assumes "task_at (store_of s) from_state q i"
    and "to_state = None \<or> known_mode (none_to_empty_str mode)"
  defines "K \<equiv> move_keys_of p i q from_state to_state"
  obtains s2 s' where
    "store_of s2 = put_tasks from_state q
      (zdel i (place (move_to i q to_state ts (none_to_empty_str mode) (store_of s)) from_state q))
      (move_to i q to_state ts (none_to_empty_str mode) (store_of s))"
    "move_task R p i q from_state to_state unique ts mode publish s = Inr s'"
    "store_of s' =
      (let t = unlist_empty from_state q
          (store_of (if to_state = None then remove_task R K i from_state unique s2 else s2))
       in if to_state = Some QUEUED \<and> publish then send (activity_channel p) q t else t)"
proof -
  let ?m = "none_to_empty_str mode"
  obtain s1 where s1: "(case to_state of None \<Rightarrow> Inr s
        | Some st \<Rightarrow> map_sum (\<lambda>e. e) (r_sadd R (key_to_state K) q)
            (zadd_w_mode R (queue_key p st q) ts i ?m s)) = (Inr s1 :: 'r result)"
    and t1: "store_of s1 = move_to i q to_state ts ?m (store_of s)"
  proof (cases to_state)
    case (Some st)
    with assms(2) obtain s' where "zadd_w_mode R (queue_key p st q) ts i ?m s = Inr s'"
      "store_of s' = put_tasks st q (placed ?m ts i (place (store_of s) st q)) (store_of s)"
      using store_zadd_w_mode [of ?m st q ts i s] by auto
    with Some show ?thesis
      by (intro that [of "r_sadd R (state_key p st) q s'"])
        (simp_all add: move_to_def redis_law key_law store_view K_def)
  qed (simp add: move_to_def that)
  define s2 where "s2 = snd (r_zrem R (queue_key p from_state q) i s1)"
  define s3 where "s3 = (if to_state = None then remove_task R K i from_state unique s2 else s2)"
  define s4 where "s4 = snd (srem_if_not_exists R (state_key p from_state) q (queue_key p from_state q) s3)"
  define s5 where "s5 = (if to_state = Some QUEUED \<and> publish then r_publish R (activity_channel p) q s4 else s4)"
  have t2: "store_of s2 = put_tasks from_state q (zdel i (place (store_of s1) from_state q)) (store_of s1)"
    by (simp add: s2_def redis_law key_law store_view)
  have t4: "store_of s4 = unlist_empty from_state q (store_of s3)"
    by (simp add: s4_def redis_law key_law store_view) (simp add: unlist_empty_def)
  have "fail_if_not_in_zset R (queue_key p from_state q) i s = Inr ()"
    using assms(1) by (auto simp: fail_if_not_in_zset_def redis_law key_law task_at_def task_score_def)
  with s1 have "move_task R p i q from_state to_state unique ts mode publish s = Inr s5"
    unfolding move_task_def move_task_script_def Let_def state_queues_keys_fun K_def
    by (simp add: s2_def s3_def s4_def s5_def K_def)
  moreover have "store_of s5 =
      (let t = unlist_empty from_state q (store_of s3)
       in if to_state = Some QUEUED \<and> publish then send (activity_channel p) q t else t)"
    by (simp add: s5_def Let_def t4 redis_law store_view flip: t4)
  ultimately show ?thesis
    using that [of s2 s5] t2 unfolding t1 s3_def by blast
qed

lemma move_task_store:
  assumes "task_at (store_of s) from_state q i" "colon_free i"
    and "to_state = None \<or> known_mode (none_to_empty_str mode)"
  shows "\<exists>s'. move_task R p i q from_state to_state unique ts mode publish s = Inr s' \<and>
    store_of s' = move_in_store p i q from_state to_state unique ts (none_to_empty_str mode)
      publish (store_of s)"
proof (rule move_task_run [OF assms(1,3), of ts unique publish])
  fix s2 s'
  assume "store_of s2 = put_tasks from_state q
      (zdel i (place (move_to i q to_state ts (none_to_empty_str mode) (store_of s)) from_state q))
      (move_to i q to_state ts (none_to_empty_str mode) (store_of s))"
    and "move_task R p i q from_state to_state unique ts mode publish s = Inr s'"
    and "store_of s' =
      (let t = unlist_empty from_state q
          (store_of (if to_state = None
             then remove_task R (move_keys_of p i q from_state to_state) i from_state unique s2 else s2))
       in if to_state = Some QUEUED \<and> publish then send (activity_channel p) q t else t)"
  then show ?thesis
    using assms(2) by (simp add: move_in_store_def Let_def store_remove_task del: tiger_view_simps)
qed

text \<open>For the index the form of the identifier does not matter.\<close>

lemma remove_task_frame:
  "place (store_of (remove_task R (move_keys_of p i q from_state to_state) i from_state unique s)) =
      place (store_of s) \<and>
    listed (store_of (remove_task R (move_keys_of p i q from_state to_state) i from_state unique s)) =
      listed (store_of s)"
proof (cases unique)
  case False
  then show ?thesis
    using del_task_keys_frame [of "{task_key p i, executions_key p i, count_key p i}" p i "view R s"]
    by (simp add: remove_task_def view_del insert_commute del: tiger_view_simps)
next
  case True
  have step: "\<exists>ks. ks \<subseteq> {task_key p i, executions_key p i, count_key p i} \<and>
      (view R (snd (delete_if_not_in_zsets_script R (dels @ map (\<lambda>st. queue_key p st q) sts) (length dels) i s)) =
         view R s \<or>
       view R (snd (delete_if_not_in_zsets_script R (dels @ map (\<lambda>st. queue_key p st q) sts) (length dels) i s)) =
         del_keys ks (view R s))"
    if "set dels \<subseteq> {task_key p i, executions_key p i, count_key p i}" for dels sts and s
    using that by (subst (1 2) view_delete_if_not_in_zsets_script; auto simp: key_law)
  have frame: "place (store_of (snd (delete_if_not_in_zsets_script R (dels @ map (\<lambda>st. queue_key p st q) sts) n i s))) =
        place (store_of s) \<and>
      listed (store_of (snd (delete_if_not_in_zsets_script R (dels @ map (\<lambda>st. queue_key p st q) sts) n i s))) =
        listed (store_of s)"
    if "set dels \<subseteq> {task_key p i, executions_key p i, count_key p i}" "n = length dels" for dels n sts and s
    using step [OF that(1), of sts s] del_task_keys_frame unfolding that(2)
    by (elim exE conjE disjE) (simp_all del: tiger_view_simps)
  have keys: "(if from_state \<noteq> ERROR then [queue_key p ERROR q] else []) =
      map (\<lambda>st. queue_key p st q) (if from_state \<noteq> ERROR then [ERROR] else [])"
    by simp
  show ?thesis
    using True unfolding remove_task_def Let_def move_keys_simps state_queues_keys_fun keys
    by (simp only: if_True) (subst frame | simp)+
qed

lemma move_task_indexed_any:
  assumes "move_task R p i q from_state to_state unique ts mode publish s = Inr s'"
    and "indexed (store_of s)"
  shows "indexed (store_of s')"
proof -
  let ?m = "none_to_empty_str mode" and ?K = "move_keys_of p i q from_state to_state"
  have at: "task_at (store_of s) from_state q i"
    using assms(1) move_task_not_found by fastforce
  have ok: "to_state = None \<or> known_mode ?m"
    using assms(1) move_task_bad_mode [OF at, of mode] by (cases to_state) (simp, metis sum.distinct(2))
  define t1 where "t1 = move_to i q to_state ts ?m (store_of s)"
  define t2 where "t2 = put_tasks from_state q (zdel i (place t1 from_state q)) t1"
  obtain s2 s'' where s2: "store_of s2 = t2"
    and s'': "move_task R p i q from_state to_state unique ts mode publish s = Inr s''"
    and t'': "store_of s'' =
      (let t = unlist_empty from_state q
          (store_of (if to_state = None then remove_task R ?K i from_state unique s2 else s2))
       in if to_state = Some QUEUED \<and> publish then send (activity_channel p) q t else t)"
    unfolding t2_def t1_def by (rule move_task_run [OF at ok])
  have "indexed (unlist_empty from_state q t2)"
    unfolding t2_def using indexed_moved [OF assms(2) at, of to_state ts ?m] by (simp add: t1_def)
  then have "indexed (store_of s'')"
    by (rule indexed_frame [THEN iffD1, rotated 2])
      (simp_all add: t'' Let_def remove_task_frame s2 del: tiger_view_simps)
  with assms(1) s'' show ?thesis by simp
qed

lemma move_task_Inr:
  assumes "move_task R p i q from_state to_state unique ts mode publish s = Inr s'" "colon_free i"
  shows "task_at (store_of s) from_state q i"
    and "to_state = None \<or> known_mode (none_to_empty_str mode)"
    and "store_of s' = move_in_store p i q from_state to_state unique ts (none_to_empty_str mode)
      publish (store_of s)"
proof -
  show at: "task_at (store_of s) from_state q i"
    using assms(1) move_task_not_found by fastforce
  show ok: "to_state = None \<or> known_mode (none_to_empty_str mode)"
    using assms(1) move_task_bad_mode [OF at, of mode] by (cases to_state) (simp, metis sum.distinct(2))
  show "store_of s' = move_in_store p i q from_state to_state unique ts (none_to_empty_str mode)
      publish (store_of s)"
    using move_task_store [OF at assms(2) ok, of unique ts publish] assms(1) by auto
qed

lemma move_task_Inl_iff:
  assumes "colon_free i"
  shows "is_error (move_task R p i q from_state to_state unique ts mode publish s) \<longleftrightarrow>
    \<not> task_at (store_of s) from_state q i \<or>
    to_state \<noteq> None \<and> \<not> known_mode (none_to_empty_str mode)"
  using move_task_store [where i = i and s = s] move_task_not_found [where i = i and s = s]
    move_task_bad_mode [where i = i and s = s] assms
  by (cases to_state) (metis is_error.simps)+

end

subsection \<open>What a move of the store does\<close>

lemma task_score_simps [simp]:
  "task_score (put_tasks st q z t) st' q' i = (if st' = st \<and> q' = q then zget z i else task_score t st' q' i)"
  "task_score (list_queue st q t) = task_score t"
  "task_score (unlist_empty st q t) = task_score t"
  "task_score (put_data i x t) = task_score t"
  "task_score (drop_data i t) = task_score t"
  "task_score (drop_executions i t) = task_score t"
  "task_score (send c x t) = task_score t"
  by (simp_all add: task_score_def fun_eq_iff)

lemma task_at_simps [simp]:
  "task_at (put_tasks st q z t) st' q' i = (if st' = st \<and> q' = q then zget z i \<noteq> None else task_at t st' q' i)"
  "task_at (list_queue st q t) = task_at t"
  "task_at (unlist_empty st q t) = task_at t"
  "task_at (put_data i x t) = task_at t"
  "task_at (drop_data i t) = task_at t"
  "task_at (drop_executions i t) = task_at t"
  "task_at (send c x t) = task_at t"
  by (simp_all add: task_at_def fun_eq_iff)

definition placed_score :: "string \<Rightarrow> score \<Rightarrow> score option \<Rightarrow> score" where
  "placed_score mode ts old =
     (case old of None \<Rightarrow> ts
      | Some sc \<Rightarrow> if mode = ''nx'' then sc else if mode = ''min'' then min sc ts else ts)"

lemma zget_placed: "zget (placed mode ts i z) j =
    (if j = i then Some (placed_score mode ts (zget z i)) else zget z j)"
  by (auto simp: placed_def placed_score_def split: option.splits)

lemma place_forget [simp]:
  "place (forget_task i q st u t) = place t" "listed (forget_task i q st u t) = listed t"
  "task_score (forget_task i q st u t) = task_score t" "task_at (forget_task i q st u t) = task_at t"
  by (simp_all add: forget_task_def Let_def)

lemma zget_place: "zget (place t st q) i = task_score t st q i"
  by (simp add: task_score_def)

lemma move_in_store_score:
  "task_score (move_in_store p i q from_state to_state unique ts mode publish t) st q' j =
    (if j \<noteq> i \<or> q' \<noteq> q then task_score t st q' j
     else if st = from_state then None
     else if to_state = Some st then Some (placed_score mode ts (task_score t st q i))
     else task_score t st q j)"
  by (cases to_state)
    (auto simp: move_in_store_def Let_def move_to_def zget_placed zget_place)

lemma indexed_move_in_store:
  assumes "indexed t" "task_at t from_state q i"
  shows "indexed (move_in_store p i q from_state to_state unique ts mode publish t)"
  using indexed_moved [OF assms, of to_state ts mode]
  by (rule indexed_frame [THEN iffD1, rotated 2]) (simp_all add: move_in_store_def Let_def)

lemma move_in_store_data:
  "task_data (move_in_store p i q from_state to_state unique ts mode publish t) =
    (if to_state = None \<and> \<not> (unique \<and> (\<exists>st. st \<noteq> from_state \<and> task_at t st q i))
     then (task_data t)(i := None) else task_data t)"
  unfolding ex_state
  by (cases to_state) (auto simp: move_in_store_def Let_def forget_task_def move_to_def)

lemma move_in_store_execs:
  "execs (move_in_store p i q from_state to_state unique ts mode publish t) =
    (if to_state = None \<and> \<not> (unique \<and> from_state \<noteq> ERROR \<and> task_at t ERROR q i)
     then (execs t)(i := []) else execs t)"
  by (cases to_state) (auto simp: move_in_store_def Let_def forget_task_def move_to_def)

text \<open>
  Data of a task goes only with the task: a move keeps every placed task backed by its data, if a
  task is in one queue, and in one state unless it is unique.
\<close>

lemma backed_move_in_store:
  assumes "backed t" "task_at t from_state q i"
    and "\<And>st q'. task_at t st q' i \<Longrightarrow> q' = q \<and> (unique \<or> st = from_state)"
  shows "backed (move_in_store p i q from_state to_state unique ts mode publish t)"
  unfolding backed_def
proof (intro allI impI)
  fix st q' j
  assume at: "task_at (move_in_store p i q from_state to_state unique ts mode publish t) st q' j"
  have here: "task_at t st q' j \<or> j = i \<and> q' = q \<and> to_state = Some st"
    using at by (auto simp: task_at_def move_in_store_score split: if_splits)
  then have ok: "colon_free j" "task_data t j \<noteq> None"
    using assms(1,2) by (auto simp: backed_def)
  have "st \<noteq> from_state" if "j = i" "to_state = None"
    using at that assms(3) here by (auto simp: task_at_def move_in_store_score split: if_splits)
  with ok here assms(3) show "colon_free j \<and>
      task_data (move_in_store p i q from_state to_state unique ts mode publish t) j \<noteq> None"
    by (auto simp: move_in_store_data)
qed

end
