(* ===== verification/Move_Properties.thy ===== *)
theory Move_Properties
  imports Move_Task
begin

text \<open>
  The properties of \<^verbatim>\<open>move_task\<close>: when it fails and with which error, that it refines the move on the
  store, where the task is afterwards, that the lists of non-empty queues stay exact, and that a
  task keeps its data as long as it is somewhere.
\<close>

text \<open>A queue with a failed task, and one where a unique task failed and was queued again.\<close>

definition ex_failed :: memdb where
  "ex_failed =
     (let M = mem_redis (tiger_kind ''t'') in
      r_set M (task_key ''t'' ''x'') ''data''
        (r_sadd M (state_key ''t'' ERROR) ''q''
          (snd (r_zadd M (queue_key ''t'' ERROR ''q'') [(5, ''x'')] mem_empty))))"

definition ex_requeued :: memdb where
  "ex_requeued =
     (let M = mem_redis (tiger_kind ''t'') in
      r_sadd M (state_key ''t'' QUEUED) ''q''
        (snd (r_zadd M (queue_key ''t'' QUEUED ''q'') [(7, ''x'')] ex_failed)))"

abbreviation ex_store :: "memdb \<Rightarrow> store" where
  "ex_store s \<equiv> tiger_view ''t'' (view (mem_redis (tiger_kind ''t'')) s)"

lemma colon_free_x [simp]: "colon_free ''x''"
  by (simp add: colon_free_def)

lemmas mem_update_defs = mem_redis_def mem_view_def mem_zput_def mem_fresh_def mem_empty_def

abbreviation ex_db :: "memdb \<Rightarrow> db" where
  "ex_db s \<equiv> view (mem_redis (tiger_kind ''t'')) s"

lemma ex_failed_db:
  "zsets (ex_db ex_failed) (queue_key ''t'' st q) =
    (if st = ERROR \<and> q = ''q'' then zins 5 ''x'' zempty else zempty)"
  "sets (ex_db ex_failed) (state_key ''t'' st) = (if st = ERROR then {''q''} else {})"
  "colon_free i \<Longrightarrow> strs (ex_db ex_failed) (task_key ''t'' i) = (if i = ''x'' then Some ''data'' else None)"
  by (auto simp: ex_failed_def mem_update_defs Let_def)

lemma ex_requeued_db:
  "zsets (ex_db ex_requeued) (queue_key ''t'' st q) =
    (if q = ''q'' \<and> st = ERROR then zins 5 ''x'' zempty
     else if q = ''q'' \<and> st = QUEUED then zins 7 ''x'' zempty else zempty)"
  "sets (ex_db ex_requeued) (state_key ''t'' st) = (if st = ERROR \<or> st = QUEUED then {''q''} else {})"
  "colon_free i \<Longrightarrow> strs (ex_db ex_requeued) (task_key ''t'' i) = (if i = ''x'' then Some ''data'' else None)"
  by (auto simp: ex_requeued_def ex_failed_def mem_update_defs Let_def)

lemma ex_failed_at [simp]:
  "task_score (ex_store ex_failed) st q i = (if st = ERROR \<and> q = ''q'' \<and> i = ''x'' then Some 5 else None)"
  "task_at (ex_store ex_failed) st q i \<longleftrightarrow> st = ERROR \<and> q = ''q'' \<and> i = ''x''"
  by (auto simp: task_at_def task_score_def ex_failed_db)

lemma ex_requeued_at [simp]:
  "task_at (ex_store ex_requeued) st q i \<longleftrightarrow> (st = ERROR \<or> st = QUEUED) \<and> q = ''q'' \<and> i = ''x''"
  by (auto simp: task_at_def task_score_def ex_requeued_db)

lemma ex_stores_ok [simp]:
  "indexed (ex_store ex_failed)" "backed (ex_store ex_failed)" "backed (ex_store ex_requeued)"
  by (auto simp: indexed_def backed_def ex_failed_db ex_requeued_db)

lemma ex_failed_moves:
  "\<exists>s'. move_task (mem_redis (tiger_kind ''t'')) ''t'' ''x'' ''q'' ERROR to_state unique 9 None publish ex_failed = Inr s'"
  using tiger_mem.move_task_store [of "''t''" ex_failed ERROR "''q''" "''x''" to_state None unique 9 publish]
  by auto

lemma ex_requeued_deletes:
  "\<exists>s'. move_task (mem_redis (tiger_kind ''t'')) ''t'' ''x'' ''q'' ERROR None True 9 None publish ex_requeued = Inr s'"
  using tiger_mem.move_task_store [of "''t''" ex_requeued ERROR "''q''" "''x''" None None True 9 publish]
  by auto

subsection \<open>Failure and refinement\<close>

text \<open>C15: \<^verbatim>\<open>move_task\<close> fails, leaving no effect, exactly if the task is not in the source state of its
  queue or if a target is given with an unsupported mode; otherwise it succeeds and its effect on
  the server is that of the move on the store.\<close>

theorem move_task_refines:
  assumes "tiger_redis R kind p" and "colon_free i"
  shows "case move_task R p i q from_state to_state unique ts mode publish s of
      Inl e \<Rightarrow>
        if \<not> task_at (tiger_view p (view R s)) from_state q i
        then e = ResponseError ''<FAIL_IF_NOT_IN_ZSET>''
        else to_state \<noteq> None \<and> \<not> known_mode (none_to_empty_str mode) \<and>
          e = ResponseError (''mode '' @ none_to_empty_str mode @ '' unsupported'')
    | Inr s' \<Rightarrow>
        task_at (tiger_view p (view R s)) from_state q i \<and>
        (to_state = None \<or> known_mode (none_to_empty_str mode)) \<and>
        tiger_view p (view R s') =
          move_in_store p i q from_state to_state unique ts (none_to_empty_str mode) publish
            (tiger_view p (view R s))"
proof (cases "move_task R p i q from_state to_state unique ts mode publish s")
  case (Inl e)
  note not_found = tiger_redis.move_task_not_found [OF assms(1)]
    and bad_mode = tiger_redis.move_task_bad_mode [OF assms(1)]
    and Inl_iff = tiger_redis.move_task_Inl_iff [OF assms]
  show ?thesis
  proof (cases "task_at (tiger_view p (view R s)) from_state q i")
    case True
    with Inl Inl_iff obtain st where "to_state = Some st" "\<not> known_mode (none_to_empty_str mode)"
      by (metis is_error.simps(1) not_None_eq)
    with True Inl bad_mode [of s from_state q i mode st unique ts publish]
    show ?thesis by simp
  next
    case False
    with Inl not_found [of s from_state q i to_state unique ts mode publish]
    show ?thesis by simp
  qed
next
  case (Inr s')
  with tiger_redis.move_task_Inr [OF assms(1) Inr assms(2)] show ?thesis by simp
qed

theorem move_task_refines_witness:
  "is_error (move_task (mem_redis (tiger_kind ''t'')) ''t'' ''x'' ''q'' QUEUED None False 9 None True ex_failed)"
  using move_task_refines [OF tiger_mem.tiger_redis_axioms colon_free_x,
      where q = "''q''" and from_state = QUEUED and to_state = None and unique = False and ts = 9
        and mode = None and publish = True and s = ex_failed and p = "''t''"]
  by (auto split: sum.splits)

subsection \<open>Where the task is\<close>

text \<open>After a successful move the task is gone from the source state, it is in the target state
  with the time given (under \<^verbatim>\<open>nx\<close> with the time it had there, under \<^verbatim>\<open>min\<close> with the earlier of the
  two), and no other task, queue or state has changed; moving a task to the state that it is in removes it.\<close>

theorem move_task_moves:
  assumes "tiger_redis R kind p" and "colon_free i"
    and "move_task R p i q from_state to_state unique ts mode publish s = Inr s'"
  shows "task_score (tiger_view p (view R s')) st q' j =
    (if j \<noteq> i \<or> q' \<noteq> q then task_score (tiger_view p (view R s)) st q' j
     else if st = from_state then None
     else if to_state = Some st
       then Some (placed_score (none_to_empty_str mode) ts (task_score (tiger_view p (view R s)) st q i))
     else task_score (tiger_view p (view R s)) st q j)"
  by (simp only: tiger_redis.move_task_Inr(3) [OF assms(1,3,2)] move_in_store_score)

theorem move_task_moves_witness:
  "\<exists>s'. move_task (mem_redis (tiger_kind ''t'')) ''t'' ''x'' ''q'' ERROR (Some QUEUED) False 9 None True ex_failed = Inr s' \<and>
    task_score (ex_store s') QUEUED ''q'' ''x'' = Some 9 \<and> task_score (ex_store s') ERROR ''q'' ''x'' = None"
proof -
  obtain s' where s': "move_task (mem_redis (tiger_kind ''t'')) ''t'' ''x'' ''q'' ERROR (Some QUEUED) False 9 None True ex_failed = Inr s'"
    using ex_failed_moves by blast
  from move_task_moves [OF tiger_mem.tiger_redis_axioms colon_free_x s', where j = "''x''" and q' = "''q''"] s'
  show ?thesis by (auto simp: placed_score_def)
qed

subsection \<open>The lists of queues\<close>

text \<open>If every state lists exactly its non-empty queues, then so it does after a move: the target
  state lists the queue, and the source state drops it if this was its last task.\<close>

theorem move_task_indexed:
  assumes "tiger_redis R kind p"
    and "move_task R p i q from_state to_state unique ts mode publish s = Inr s'"
    and "indexed (tiger_view p (view R s))"
  shows "indexed (tiger_view p (view R s'))"
  by (rule tiger_redis.move_task_indexed_any [OF assms])

theorem move_task_indexed_witness:
  "\<exists>s'. move_task (mem_redis (tiger_kind ''t'')) ''t'' ''x'' ''q'' ERROR None False 9 None True ex_failed = Inr s' \<and>
    indexed (ex_store s')"
proof -
  obtain s' where s': "move_task (mem_redis (tiger_kind ''t'')) ''t'' ''x'' ''q'' ERROR None False 9 None True ex_failed = Inr s'"
    using ex_failed_moves by blast
  from move_task_indexed [OF tiger_mem.tiger_redis_axioms s'] s' show ?thesis by simp
qed

subsection \<open>The data of the task\<close>

text \<open>A removal deletes the task's data and executions, but for a unique task it keeps the data
  while another state of the queue holds the task, and the executions while the error state does
  (unless the task leaves that state). Every other move keeps all data.\<close>

theorem move_task_deletes:
  assumes "tiger_redis R kind p" and "colon_free i"
    and "move_task R p i q from_state to_state unique ts mode publish s = Inr s'"
  shows "task_data (tiger_view p (view R s')) =
      (if to_state = None \<and>
          \<not> (unique \<and> (\<exists>st. st \<noteq> from_state \<and> task_at (tiger_view p (view R s)) st q i))
       then (task_data (tiger_view p (view R s)))(i := None)
       else task_data (tiger_view p (view R s))) \<and>
    execs (tiger_view p (view R s')) =
      (if to_state = None \<and>
          \<not> (unique \<and> from_state \<noteq> ERROR \<and> task_at (tiger_view p (view R s)) ERROR q i)
       then (execs (tiger_view p (view R s)))(i := []) else execs (tiger_view p (view R s)))"
  by (simp only: tiger_redis.move_task_Inr(3) [OF assms(1,3,2)] move_in_store_data move_in_store_execs)

lemma ex_requeued_queued: "\<exists>st. st \<noteq> ERROR \<and> task_at (ex_store ex_requeued) st ''q'' ''x''"
  by (rule exI [of _ QUEUED]) simp

theorem move_task_deletes_witness:
  "\<exists>s'. move_task (mem_redis (tiger_kind ''t'')) ''t'' ''x'' ''q'' ERROR None True 9 None True ex_requeued = Inr s' \<and>
    task_data (ex_store s') ''x'' = Some ''data'' \<and> execs (ex_store s') ''x'' = []"
proof -
  obtain s' where s': "move_task (mem_redis (tiger_kind ''t'')) ''t'' ''x'' ''q'' ERROR None True 9 None True ex_requeued = Inr s'"
    using ex_requeued_deletes by blast
  from move_task_deletes [OF tiger_mem.tiger_redis_axioms colon_free_x s'] ex_requeued_queued
  have "task_data (ex_store s') = task_data (ex_store ex_requeued)"
    "execs (ex_store s') = (execs (ex_store ex_requeued))(''x'' := [])"
    by (simp_all del: ex_requeued_at)
  then have "task_data (ex_store s') ''x'' = Some ''data''" "execs (ex_store s') ''x'' = []"
    by (simp_all only: fun_upd_same) (simp add: ex_requeued_db)
  with s' show ?thesis by blast
qed

text \<open>Every placed task stays backed by its stored data through a move, if the task is in one queue
  only, and in one state only unless it is unique.\<close>

theorem move_task_backed:
  assumes "tiger_redis R kind p" and "colon_free i"
    and "move_task R p i q from_state to_state unique ts mode publish s = Inr s'"
    and "backed (tiger_view p (view R s))"
    and "\<And>st q'. task_at (tiger_view p (view R s)) st q' i \<Longrightarrow> q' = q \<and> (unique \<or> st = from_state)"
  shows "backed (tiger_view p (view R s'))"
  unfolding tiger_redis.move_task_Inr(3) [OF assms(1,3,2)]
  by (rule backed_move_in_store [OF assms(4) tiger_redis.move_task_Inr(1) [OF assms(1,3,2)]])
    (use assms(5) in blast)

theorem move_task_backed_witness:
  "\<exists>s'. move_task (mem_redis (tiger_kind ''t'')) ''t'' ''x'' ''q'' ERROR None True 9 None True ex_requeued = Inr s' \<and>
    backed (ex_store s')"
proof -
  obtain s' where s': "move_task (mem_redis (tiger_kind ''t'')) ''t'' ''x'' ''q'' ERROR None True 9 None True ex_requeued = Inr s'"
    using ex_requeued_deletes by blast
  have "backed (ex_store s')"
    by (rule move_task_backed [OF tiger_mem.tiger_redis_axioms colon_free_x s']) simp_all
  with s' show ?thesis by blast
qed

end
