(* ===== verification/Task_Data.thy ===== *)
theory Task_Data
  imports Queue_Spec Schedules
begin

text \<open>
  The configuration of \<^verbatim>\<open>TaskTiger\<close>, the attributes that its decorator leaves on a function, and the
  data of a task: the constructor of \<^verbatim>\<open>Task\<close> in \<^verbatim>\<open>tasktiger/task.py\<close> and its properties. A task's
  \<open>_data\<close> is a dictionary of JSON values in the order in which the code fills it.
\<close>

subsection \<open>Configuration\<close>

record config =
  REDIS_PREFIX :: string
  DEFAULT_QUEUE :: queue_name
  SELECT_TIMEOUT :: rat
  SELECT_BATCH_TIMEOUT :: rat
  ALWAYS_EAGER :: bool
  DEFAULT_RETRY_METHOD :: retry_method
  LOCK_RETRY :: rat
  SCHEDULED_TASK_BATCH_SIZE :: int
  DEFAULT_HARD_TIMEOUT :: rat
  ACTIVE_TASK_UPDATE_TIMER :: rat
  ACTIVE_TASK_UPDATE_TIMEOUT :: rat
  REQUEUE_EXPIRED_TASKS_INTERVAL :: rat
  REQUEUE_EXPIRED_TASKS_BATCH_SIZE :: int
  QUEUE_SCHEDULED_TASKS_TIME :: rat
  BATCH_QUEUES :: "(queue_name \<times> int) list"
  STATS_INTERVAL :: rat
  SINGLE_WORKER_QUEUES :: "queue_name list"
  ONLY_QUEUES :: "queue_name list"
  EXCLUDE_QUEUES :: "queue_name list"
  STORE_TRACEBACKS :: bool
  POLL_TASK_QUEUES_INTERVAL :: rat
  PUBLISH_QUEUED_TASKS :: bool

definition retry_function :: "string \<Rightarrow> pyfunc" where
  "retry_function name =
     \<lparr>fn_module = ''tasktiger.retry'', fn_qualname = Some name, fn_name = name\<rparr>"

definition default_config :: config where
  "default_config =
     \<lparr>REDIS_PREFIX = ''t'', DEFAULT_QUEUE = ''default'', SELECT_TIMEOUT = 1,
      SELECT_BATCH_TIMEOUT = 0, ALWAYS_EAGER = False,
      DEFAULT_RETRY_METHOD = RetryArgs (retry_function ''_fixed'') [60, 3],
      LOCK_RETRY = 1, SCHEDULED_TASK_BATCH_SIZE = 1000, DEFAULT_HARD_TIMEOUT = 300,
      ACTIVE_TASK_UPDATE_TIMER = 10, ACTIVE_TASK_UPDATE_TIMEOUT = 60,
      REQUEUE_EXPIRED_TASKS_INTERVAL = 30, REQUEUE_EXPIRED_TASKS_BATCH_SIZE = 10,
      QUEUE_SCHEDULED_TASKS_TIME = 1, BATCH_QUEUES = [], STATS_INTERVAL = 60,
      SINGLE_WORKER_QUEUES = [], ONLY_QUEUES = [], EXCLUDE_QUEUES = [], STORE_TRACEBACKS = True,
      POLL_TASK_QUEUES_INTERVAL = 0, PUBLISH_QUEUED_TASKS = True\<rparr>"

subsection \<open>Decorated functions\<close>

text \<open>
  A function object with the attributes \<open>_task_*\<close>; a missing attribute is \<open>None\<close>. A schedule maps
  the current datetime to the next one, if there is one; a cron expression may be refused.
\<close>

record task_func = pyfunc +
  task_queue :: "queue_name option"
  task_hard_timeout :: "rat option"
  task_unique :: "bool option"
  task_unique_key :: "string list option"
  task_lock :: "bool option"
  task_lock_key :: "string list option"
  task_retry :: "bool option"
  task_retry_on :: "pyfunc list option"
  task_retry_method :: "retry_method option"
  task_schedule :: "(int \<Rightarrow> int option result) option"
  task_batch :: "bool option"
  task_max_queue_size :: "int option"
  task_max_stored_executions :: "int option"
  task_runner_class :: "pyfunc option"

text \<open>The arguments that the decorator, \<^verbatim>\<open>Task\<close> and \<^verbatim>\<open>TaskTiger.delay\<close> take.\<close>

record task_options =
  queue_arg :: "queue_name option"
  hard_timeout_arg :: "rat option"
  unique_arg :: "bool option"
  unique_key_arg :: "string list option"
  lock_arg :: "bool option"
  lock_key_arg :: "string list option"
  retry_arg :: "bool option"
  retry_on_arg :: "pyfunc list option"
  retry_method_arg :: "retry_method option"
  max_queue_size_arg :: "int option"
  max_stored_executions_arg :: "int option"
  runner_class_arg :: "pyfunc option"

definition no_options :: task_options where
  "no_options = \<lparr>queue_arg = None, hard_timeout_arg = None, unique_arg = None, unique_key_arg = None,
     lock_arg = None, lock_key_arg = None, retry_arg = None, retry_on_arg = None,
     retry_method_arg = None, max_queue_size_arg = None, max_stored_executions_arg = None,
     runner_class_arg = None\<rparr>"

definition plain_func :: "pyfunc \<Rightarrow> task_func" where
  "plain_func f = \<lparr>fn_module = fn_module f, fn_qualname = fn_qualname f, fn_name = fn_name f,
     task_queue = None, task_hard_timeout = None, task_unique = None, task_unique_key = None,
     task_lock = None, task_lock_key = None, task_retry = None, task_retry_on = None,
     task_retry_method = None, task_schedule = None, task_batch = None, task_max_queue_size = None,
     task_max_stored_executions = None, task_runner_class = None\<rparr>"

text \<open>An argument that is not \<open>None\<close>, else the attribute that is there already.\<close>

fun or_else :: "'a option \<Rightarrow> 'a option \<Rightarrow> 'a option" where
  "or_else None y = y"
| "or_else (Some x) y = Some x"

definition set_attributes ::
    "task_options \<Rightarrow> (int \<Rightarrow> int option result) option \<Rightarrow> bool \<Rightarrow> task_func \<Rightarrow> task_func" where
  "set_attributes opts schedule batch func =
     (let unique = (if schedule \<noteq> None then Some True else unique_arg opts) in
      func\<lparr>task_hard_timeout := or_else (hard_timeout_arg opts) (task_hard_timeout func),
        task_queue := or_else (queue_arg opts) (task_queue func),
        task_unique := or_else unique (task_unique func),
        task_unique_key := or_else (unique_key_arg opts) (task_unique_key func),
        task_lock := or_else (lock_arg opts) (task_lock func),
        task_lock_key := or_else (lock_key_arg opts) (task_lock_key func),
        task_retry := or_else (retry_arg opts) (task_retry func),
        task_retry_on := or_else (retry_on_arg opts) (task_retry_on func),
        task_retry_method := or_else (retry_method_arg opts) (task_retry_method func),
        task_batch := Some batch,
        task_schedule := or_else schedule (task_schedule func),
        task_max_queue_size := or_else (max_queue_size_arg opts) (task_max_queue_size func),
        task_max_stored_executions :=
          or_else (max_stored_executions_arg opts) (task_max_stored_executions func),
        task_runner_class := or_else (runner_class_arg opts) (task_runner_class func)\<rparr>)"

text \<open>
  The decorator itself. A function with a schedule is registered as a periodic task under its
  serialized name, once.
\<close>

definition decorate ::
    "task_options \<Rightarrow> (int \<Rightarrow> int option result) option \<Rightarrow> bool \<Rightarrow> task_func
      \<Rightarrow> (string \<times> task_func) list \<Rightarrow> (task_func \<times> (string \<times> task_func) list) result" where
  "decorate opts schedule batch func periodic_task_funcs =
     (let func' = set_attributes opts schedule batch func in
      if schedule = None then Inr (func', periodic_task_funcs)
      else bind_result (serialize_func_name (pyfunc.truncate func')) (\<lambda>serialized_func.
        if serialized_func \<in> fst ` set periodic_task_funcs then Inl AssertionError
        else Inr (func', periodic_task_funcs @ [(serialized_func, func')])))"

subsection \<open>Values of a dictionary\<close>

fun truthy :: "json \<Rightarrow> bool" where
  "truthy JNull = False"
| "truthy (JBool b) = b"
| "truthy (JNum x) = (x \<noteq> 0)"
| "truthy (JStr x) = (x \<noteq> [])"
| "truthy (JList xs) = (xs \<noteq> [])"
| "truthy (JObj kvs) = (kvs \<noteq> [])"

fun json_number :: "json \<Rightarrow> rat option" where
  "json_number (JNum x) = Some x"
| "json_number _ = None"

fun json_string :: "json \<Rightarrow> string option" where
  "json_string (JStr x) = Some x"
| "json_string _ = None"

fun json_list :: "json \<Rightarrow> json list" where
  "json_list (JList xs) = xs"
| "json_list _ = []"

fun json_dict :: "json \<Rightarrow> dict" where
  "json_dict (JObj kvs) = kvs"
| "json_dict _ = []"

definition json_strings :: "json \<Rightarrow> string list" where
  "json_strings j = List.map_filter json_string (json_list j)"

definition strings_json :: "string list \<Rightarrow> json" where
  "strings_json xs = JList (map JStr xs)"

lemma json_strings_json [simp]: "json_strings (strings_json xs) = xs"
  by (induction xs) (simp_all add: json_strings_def strings_json_def map_filter_simps)

definition get_default :: "dict \<Rightarrow> string \<Rightarrow> json \<Rightarrow> json" where
  "get_default d k v = (case dict_get d k of None \<Rightarrow> v | Some w \<Rightarrow> w)"

text \<open>The comprehension \<^verbatim>\<open>{key: kwargs.get(key) for key in keys}\<close>.\<close>

definition pick_keys :: "string list \<Rightarrow> dict \<Rightarrow> dict" where
  "pick_keys keys kwargs = fold (\<lambda>k d. dict_set k (get_default kwargs k JNull) d) keys []"

lemma dict_get_set [simp]: "dict_get (dict_set k v d) k' = (if k' = k then Some v else dict_get d k')"
  by (induction k v d rule: dict_set.induct) (auto simp: dict_get_def)

lemma dict_get_Nil [simp]: "dict_get [] k = None"
  by (simp add: dict_get_def)

lemma get_default_set [simp]:
  "get_default (dict_set k v d) k' w = (if k' = k then v else get_default d k' w)"
  by (simp add: get_default_def)

lemma get_default_Nil [simp]: "get_default [] k v = v"
  by (simp add: get_default_def)

subsection \<open>Tasks\<close>

record task =
  t_func :: "task_func option"
  t_queue :: "queue_name option"
  t_state :: "task_state option"
  t_ts :: "time option"
  t_executions :: "json list"
  t_data :: dict

fun map_result :: "('a \<Rightarrow> 'b result) \<Rightarrow> 'a list \<Rightarrow> 'b list result" where
  "map_result f [] = Inr []"
| "map_result f (x # xs) =
     bind_result (f x) (\<lambda>y. bind_result (map_result f xs) (\<lambda>ys. Inr (y # ys)))"

definition queue_from_function :: "config \<Rightarrow> task_func \<Rightarrow> queue_name" where
  "queue_from_function C func =
     (case task_queue func of None \<Rightarrow> DEFAULT_QUEUE C | Some q \<Rightarrow> q)"

definition retry_method_json :: "string \<times> rat list \<Rightarrow> json" where
  "retry_method_json m = JList [JStr (fst m), JList (map JNum (snd m))]"

definition the_list :: "'a list option \<Rightarrow> 'a list" where
  "the_list xs = (case xs of None \<Rightarrow> [] | Some ys \<Rightarrow> ys)"

definition the_bool :: "bool option \<Rightarrow> bool" where
  "the_bool b = (b = Some True)"

text \<open>
  The identifier: that of the function and its arguments, or of the chosen keyword arguments, for
  a unique task; else a fresh one, which comes from the library's generator as \<open>fresh_id\<close>.
\<close>

definition new_task_id ::
    "pylib \<Rightarrow> task_id \<Rightarrow> string \<Rightarrow> bool \<Rightarrow> string list \<Rightarrow> json list \<Rightarrow> dict \<Rightarrow> task_id" where
  "new_task_id L fresh_id serialized_name unique unique_key args kwargs =
     (if unique_key \<noteq> [] then gen_unique_id L serialized_name JNull (JObj (pick_keys unique_key kwargs))
      else if unique then gen_unique_id L serialized_name (JList args) (JObj kwargs)
      else fresh_id)"

text \<open>The serialized method and exceptions for retries, if the task is to be retried at all.\<close>

definition retry_settings ::
    "config \<Rightarrow> bool \<Rightarrow> pyfunc list \<Rightarrow> retry_method option
      \<Rightarrow> ((string \<times> rat list) \<times> string list) option result" where
  "retry_settings C retry retry_on retry_method =
     (if retry \<or> retry_on \<noteq> [] \<or> retry_method \<noteq> None then
        bind_result
          (serialize_retry_method
            (case retry_method of None \<Rightarrow> DEFAULT_RETRY_METHOD C | Some m \<Rightarrow> m)) (\<lambda>m.
        bind_result (map_result serialize_func_name retry_on) (\<lambda>names. Inr (Some (m, names))))
      else Inr None)"

text \<open>
  The dictionary of a new task, in the order in which the code fills it. Entries that would be
  false are left out.
\<close>

definition entry :: "string \<Rightarrow> json option \<Rightarrow> dict" where
  "entry k v = (case v of None \<Rightarrow> [] | Some x \<Rightarrow> [(k, x)])"

definition when_true :: "bool \<Rightarrow> 'a \<Rightarrow> 'a option" where
  "when_true b x = (if b then Some x else None)"

definition nonzero :: "rat option \<Rightarrow> json option" where
  "nonzero x = (case x of None \<Rightarrow> None | Some n \<Rightarrow> if n = 0 then None else Some (JNum n))"

definition new_data ::
    "task_id \<Rightarrow> string \<Rightarrow> bool \<Rightarrow> string list \<Rightarrow> bool \<Rightarrow> string list \<Rightarrow> json list \<Rightarrow> dict \<Rightarrow> rat option
      \<Rightarrow> ((string \<times> rat list) \<times> string list) option \<Rightarrow> int option \<Rightarrow> int option \<Rightarrow> string option \<Rightarrow> dict" where
  "new_data i name unique unique_key lock lock_key args kwargs hard_timeout retries
       max_queue_size max_stored_executions runner_class =
     entry ''id'' (Some (JStr i)) @
     entry ''func'' (Some (JStr name)) @
     entry ''unique'' (when_true (unique \<or> unique_key \<noteq> []) (JBool True)) @
     entry ''unique_key'' (when_true (unique_key \<noteq> []) (strings_json unique_key)) @
     entry ''lock'' (when_true (lock \<or> lock_key \<noteq> []) (JBool True)) @
     entry ''lock_key'' (when_true (lock_key \<noteq> []) (strings_json lock_key)) @
     entry ''args'' (when_true (args \<noteq> []) (JList args)) @
     entry ''kwargs'' (when_true (kwargs \<noteq> []) (JObj kwargs)) @
     entry ''hard_timeout'' (nonzero hard_timeout) @
     entry ''retry_method'' (map_option (retry_method_json \<circ> fst) retries) @
     entry ''retry_on''
       (case retries of None \<Rightarrow> None | Some (_, names) \<Rightarrow> when_true (names \<noteq> []) (strings_json names)) @
     entry ''max_queue_size'' (nonzero (map_option of_int max_queue_size)) @
     entry ''max_stored_executions'' (map_option (JNum \<circ> of_int) max_stored_executions) @
     entry ''runner_class'' (map_option JStr runner_class)"

text \<open>
  The constructor for a function. An argument that is \<open>None\<close> falls back to the attribute of the
  function.
\<close>

definition new_task ::
    "pylib \<Rightarrow> config \<Rightarrow> task_id \<Rightarrow> task_func \<Rightarrow> json list \<Rightarrow> dict \<Rightarrow> task_options \<Rightarrow> task result" where
  "new_task L C fresh_id func args kwargs opts =
     (let queue = (case queue_arg opts of None \<Rightarrow> queue_from_function C func | Some q \<Rightarrow> q);
          unique = the_bool (or_else (unique_arg opts) (task_unique func));
          unique_key = the_list (or_else (unique_key_arg opts) (task_unique_key func));
          lock = the_bool (or_else (lock_arg opts) (task_lock func));
          lock_key = the_list (or_else (lock_key_arg opts) (task_lock_key func));
          retry = the_bool (or_else (retry_arg opts) (task_retry func));
          retry_on = the_list (or_else (retry_on_arg opts) (task_retry_on func));
          retry_method = or_else (retry_method_arg opts) (task_retry_method func);
          max_queue_size = or_else (max_queue_size_arg opts) (task_max_queue_size func);
          max_stored = or_else (max_stored_executions_arg opts) (task_max_stored_executions func);
          runner_class = or_else (runner_class_arg opts) (task_runner_class func)
      in bind_result (serialize_func_name (pyfunc.truncate func)) (\<lambda>name.
         bind_result (retry_settings C retry retry_on retry_method) (\<lambda>retries.
         bind_result (case runner_class of None \<Rightarrow> Inr None
             | Some c \<Rightarrow> map_sum id Some (serialize_func_name c)) (\<lambda>runner.
         let i = new_task_id L fresh_id name unique unique_key args kwargs
         in Inr \<lparr>t_func = Some func, t_queue = Some queue, t_state = None, t_ts = None,
              t_executions = [],
              t_data = new_data i name unique unique_key lock lock_key args kwargs
                (hard_timeout_arg opts) retries max_queue_size max_stored runner\<rparr>))))"

text \<open>The constructor for the data of a task that is stored already.\<close>

definition stored_task ::
    "queue_name \<Rightarrow> dict \<Rightarrow> task_state option \<Rightarrow> time option \<Rightarrow> json list \<Rightarrow> task" where
  "stored_task queue data state ts executions =
     \<lparr>t_func = None, t_queue = Some queue, t_state = state, t_ts = ts,
      t_executions = executions, t_data = data\<rparr>"

subsection \<open>Properties of a task\<close>

text \<open>
  A missing identifier or function is a \<^verbatim>\<open>KeyError\<close>; an identifier that is no string breaks the
  joining of keys.
\<close>

definition entry_string :: "string \<Rightarrow> dict \<Rightarrow> string result" where
  "entry_string k d =
     (case dict_get d k of
        None \<Rightarrow> Inl KeyError
      | Some v \<Rightarrow> (case json_string v of None \<Rightarrow> Inl TypeError | Some x \<Rightarrow> Inr x))"

definition task_id :: "task \<Rightarrow> task_id result" where
  "task_id T = entry_string ''id'' (t_data T)"

definition serialized_func :: "task \<Rightarrow> string result" where
  "serialized_func T = entry_string ''func'' (t_data T)"

definition the_queue :: "task \<Rightarrow> queue_name result" where
  "the_queue T = (case t_queue T of
     None \<Rightarrow> Inl AssertionError | Some q \<Rightarrow> if q = [] then Inl AssertionError else Inr q)"

definition is_unique :: "task \<Rightarrow> bool" where
  "is_unique T = truthy (get_default (t_data T) ''unique'' (JBool False))"

definition has_lock :: "task \<Rightarrow> bool" where
  "has_lock T = truthy (get_default (t_data T) ''lock'' (JBool False))"

definition lock_key :: "task \<Rightarrow> string list" where
  "lock_key T = json_strings (get_default (t_data T) ''lock_key'' JNull)"

definition unique_key :: "task \<Rightarrow> string list" where
  "unique_key T = json_strings (get_default (t_data T) ''unique_key'' JNull)"

definition task_args :: "task \<Rightarrow> json list" where
  "task_args T = json_list (get_default (t_data T) ''args'' (JList []))"

definition task_kwargs :: "task \<Rightarrow> dict" where
  "task_kwargs T = json_dict (get_default (t_data T) ''kwargs'' (JObj []))"

definition hard_timeout :: "task \<Rightarrow> rat option" where
  "hard_timeout T = json_number (get_default (t_data T) ''hard_timeout'' JNull)"

definition time_last_queued :: "task \<Rightarrow> time option" where
  "time_last_queued T = json_number (get_default (t_data T) ''time_last_queued'' JNull)"

definition scheduled_at :: "task \<Rightarrow> time option" where
  "scheduled_at T = json_number (get_default (t_data T) ''scheduled_at'' JNull)"

definition data_max_queue_size :: "task \<Rightarrow> rat option" where
  "data_max_queue_size T = json_number (get_default (t_data T) ''max_queue_size'' JNull)"

definition max_stored_executions :: "task \<Rightarrow> int option" where
  "max_stored_executions T =
     map_option floor (json_number (get_default (t_data T) ''max_stored_executions'' JNull))"

definition serialized_runner_class :: "task \<Rightarrow> string option" where
  "serialized_runner_class T = json_string (get_default (t_data T) ''runner_class'' JNull)"

text \<open>Unpacking a stored method raises \<^verbatim>\<open>ValueError\<close> unless it is a pair.\<close>

fun retry_method_of :: "json \<Rightarrow> (string \<times> rat list) result" where
  "retry_method_of (JList [JStr f, JList args]) = Inr (f, List.map_filter json_number args)"
| "retry_method_of _ = Inl ValueError"

definition retry_method :: "task \<Rightarrow> (string \<times> rat list) option result" where
  "retry_method T =
     (case dict_get (t_data T) ''retry_method'' of
        None \<Rightarrow> Inr None
      | Some v \<Rightarrow> map_sum id Some (retry_method_of v))"

definition retry_on :: "task \<Rightarrow> string list" where
  "retry_on T = json_strings (get_default (t_data T) ''retry_on'' JNull)"

text \<open>
  \<open>resolve\<close> finds classes and functions by module and attribute, \<open>subclass\<close> is Python's class
  hierarchy. A class that cannot be imported is skipped.
\<close>

fun retried_by :: "(string \<Rightarrow> string \<Rightarrow> 'c option) \<Rightarrow> ('c \<Rightarrow> 'c \<Rightarrow> bool) \<Rightarrow> 'c \<Rightarrow> string list \<Rightarrow> bool" where
  "retried_by resolve subclass exception_class [] = False"
| "retried_by resolve subclass exception_class (n # ns) =
     (case import_attribute resolve n of
        Inr c \<Rightarrow> subclass exception_class c \<or> retried_by resolve subclass exception_class ns
      | Inl _ \<Rightarrow> retried_by resolve subclass exception_class ns)"

definition should_retry_on ::
    "(string \<Rightarrow> string \<Rightarrow> 'c option) \<Rightarrow> ('c \<Rightarrow> 'c \<Rightarrow> bool) \<Rightarrow> task \<Rightarrow> 'c \<Rightarrow> bool" where
  "should_retry_on resolve subclass T exception_class =
     retried_by resolve subclass exception_class (retry_on T)"

lemma retried_by_iff:
  "retried_by resolve subclass c ns \<longleftrightarrow>
    (\<exists>n \<in> set ns. \<exists>d. import_attribute resolve n = Inr d \<and> subclass c d)"
  by (induction ns) (auto split: sum.splits)

end
