(* ===== verification/Runners.thy ===== *)
theory Runners
  imports Task_Data
begin

text \<open>
  How the function of a task is called: \<^verbatim>\<open>tasktiger/runner.py\<close> and \<^verbatim>\<open>Task.execute\<close>. The application's
  code and the machine it runs on are a parameter: what its modules define, what its functions do to
  the server when they are called, alone, with a batch, or under an alarm after a number of seconds,
  the clock (reading it may find the world changed), tracebacks and the name of the host.
\<close>

subsection \<open>The application\<close>

record 'r runner =
  run_single_task :: "task \<Rightarrow> rat \<Rightarrow> 'r \<Rightarrow> unit result \<times> 'r"
  run_batch_tasks :: "task list \<Rightarrow> rat \<Rightarrow> 'r \<Rightarrow> unit result \<times> 'r"
  run_eager_task :: "task \<Rightarrow> 'r \<Rightarrow> json result \<times> 'r"
  on_permanent_error :: "task \<Rightarrow> json option \<Rightarrow> 'r \<Rightarrow> unit result \<times> 'r"

record 'r program =
  resolve_func :: "string \<Rightarrow> string \<Rightarrow> task_func option"
  resolve_class :: "string \<Rightarrow> string \<Rightarrow> string option"
  is_subclass :: "string \<Rightarrow> string \<Rightarrow> bool"
  resolve_runner :: "string \<Rightarrow> string \<Rightarrow> 'r runner option"
  call_func :: "rat option \<Rightarrow> task_func \<Rightarrow> json list \<Rightarrow> dict \<Rightarrow> 'r \<Rightarrow> json result \<times> 'r"
  resolve_retry :: "string \<Rightarrow> string \<Rightarrow> (int \<Rightarrow> rat list \<Rightarrow> rat result) option"
  read_time :: "'r \<Rightarrow> time \<times> 'r"
  format_exception :: "exn \<Rightarrow> string"
  hostname :: string
  call_batch :: "rat option \<Rightarrow> task_func \<Rightarrow> (json list \<times> dict) list \<Rightarrow> 'r \<Rightarrow> json result \<times> 'r"

definition func_of :: "'r program \<Rightarrow> task \<Rightarrow> task_func result" where
  "func_of P T =
     (case t_func T of
        Some f \<Rightarrow> Inr f
      | None \<Rightarrow> bind_result (serialized_func T) (import_attribute (resolve_func P)))"

definition is_batch :: "task_func \<Rightarrow> bool" where
  "is_batch func = the_bool (task_batch func)"

definition call_params :: "task \<Rightarrow> json list \<times> dict" where
  "call_params T = (task_args T, task_kwargs T)"

definition ignore_value :: "'a result \<times> 'r \<Rightarrow> unit result \<times> 'r" where
  "ignore_value r = apfst (map_sum id (\<lambda>_. ())) r"

subsection \<open>Runners\<close>

definition base_runner :: "'r runner" where
  "base_runner =
     \<lparr>run_single_task = (\<lambda>_ _ s. (Inl NotImplementedError, s)),
      run_batch_tasks = (\<lambda>_ _ s. (Inl NotImplementedError, s)),
      run_eager_task = (\<lambda>_ s. (Inl NotImplementedError, s)),
      on_permanent_error = (\<lambda>_ _ s. (Inr (), s))\<rparr>"

definition default_single :: "'r program \<Rightarrow> task \<Rightarrow> rat \<Rightarrow> 'r \<Rightarrow> unit result \<times> 'r" where
  "default_single P T timeout s =
     (case func_of P T of
        Inl e \<Rightarrow> (Inl e, s)
      | Inr func \<Rightarrow> ignore_value (call_func P (Some timeout) func (task_args T) (task_kwargs T) s))"

definition default_batch :: "'r program \<Rightarrow> task list \<Rightarrow> rat \<Rightarrow> 'r \<Rightarrow> unit result \<times> 'r" where
  "default_batch P Ts timeout s =
     (case Ts of
        [] \<Rightarrow> (Inl IndexError, s)
      | T # _ \<Rightarrow>
          (case func_of P T of
             Inl e \<Rightarrow> (Inl e, s)
           | Inr func \<Rightarrow> ignore_value (call_batch P (Some timeout) func (map call_params Ts) s)))"

definition default_eager :: "'r program \<Rightarrow> task \<Rightarrow> 'r \<Rightarrow> json result \<times> 'r" where
  "default_eager P T s =
     (case func_of P T of
        Inl e \<Rightarrow> (Inl e, s)
      | Inr func \<Rightarrow>
          if is_batch func then call_batch P None func [call_params T] s
          else call_func P None func (task_args T) (task_kwargs T) s)"

definition default_runner :: "'r program \<Rightarrow> 'r runner" where
  "default_runner P = base_runner
     \<lparr>run_single_task := default_single P, run_batch_tasks := default_batch P,
      run_eager_task := default_eager P\<rparr>"

text \<open>One runner for all tasks; the set of their runner classes must have one element.\<close>

definition get_runner_class :: "'r program \<Rightarrow> task list \<Rightarrow> 'r runner result" where
  "get_runner_class P Ts =
     (case remdups (map serialized_runner_class Ts) of
        [] \<Rightarrow> Inl KeyError
      | [path] \<Rightarrow>
          (case path of
             None \<Rightarrow> Inr (default_runner P)
           | Some x \<Rightarrow> if x = [] then Inr (default_runner P) else import_attribute (resolve_runner P) x)
      | _ \<Rightarrow> Inl ValueError)"

subsection \<open>Eager execution\<close>

definition execute :: "'r program \<Rightarrow> task \<Rightarrow> 'r \<Rightarrow> json result \<times> 'r" where
  "execute P T s =
     (case func_of P T of
        Inl e \<Rightarrow> (Inl e, s)
      | Inr func \<Rightarrow>
          (case get_runner_class P [T] of
             Inl e \<Rightarrow> (Inl e, s)
           | Inr runner \<Rightarrow> run_eager_task runner T s))"

end
