(* ===== verification/Tasks.thy ===== *)
theory Tasks
  imports Move_Task Runners
begin

text \<open>
  The operations of a \<^verbatim>\<open>Task\<close> on the server (\<^verbatim>\<open>tasktiger/task.py\<close>). The object is mutable; an operation
  maps the task and the server's state to a result and their new values, also when it raises. What
  the clock shows is an argument: \<open>now\<close> for \<^verbatim>\<open>time.time()\<close> and \<open>utcnow\<close> for the current datetime.
\<close>

subsection \<open>Sizes of queues\<close>

definition get_queue_sizes :: "'r redis \<Rightarrow> config \<Rightarrow> queue_name \<Rightarrow> 'r \<Rightarrow> (task_state \<times> nat) list" where
  "get_queue_sizes R C queue s =
     map (\<lambda>st. (st, r_zcard R (queue_key (REDIS_PREFIX C) st queue) s)) [QUEUED, SCHEDULED, ACTIVE]"

definition get_total_queue_size :: "'r redis \<Rightarrow> config \<Rightarrow> queue_name \<Rightarrow> 'r \<Rightarrow> nat" where
  "get_total_queue_size R C queue s = sum_list (map snd (get_queue_sizes R C queue s))"

subsection \<open>Moving a task\<close>

fun contains :: "string \<Rightarrow> string \<Rightarrow> bool" where
  "contains x [] = (x = [])"
| "contains x (c # cs) = (prefix x (c # cs) \<or> contains x cs)"

fun or_now :: "time option \<Rightarrow> time \<Rightarrow> time" where
  "or_now None now = now"
| "or_now (Some t) now = (if t = 0 then now else t)"

definition move ::
    "'r redis \<Rightarrow> config \<Rightarrow> time \<Rightarrow> task_state option \<Rightarrow> task_state option \<Rightarrow> time option
      \<Rightarrow> string option \<Rightarrow> task \<Rightarrow> 'r \<Rightarrow> unit result \<times> task \<times> 'r" where
  "move R C now from_state to_state when mode T s =
     (case the_queue T of
        Inl e \<Rightarrow> (Inl e, T, s)
      | Inr queue \<Rightarrow>
          (case or_else from_state (t_state T) of
             None \<Rightarrow> (Inl AssertionError, T, s)
           | Some st \<Rightarrow>
               (case task_id T of
                  Inl e \<Rightarrow> (Inl e, T, s)
                | Inr i \<Rightarrow>
                    (case move_task R (REDIS_PREFIX C) i queue st to_state (is_unique T)
                        (or_now when now) mode (PUBLISH_QUEUED_TASKS C) s of
                       Inr s' \<Rightarrow> (Inr (), T\<lparr>t_state := to_state\<rparr>, s')
                     | Inl (ResponseError message) \<Rightarrow>
                         if contains ''<FAIL_IF_NOT_IN_ZSET>'' message then (Inl (TaskNotFound i), T, s)
                         else (Inl (ResponseError message), T, s)
                     | Inl e \<Rightarrow> (Inl e, T, s)))))"

definition retry :: "'r redis \<Rightarrow> config \<Rightarrow> time \<Rightarrow> task \<Rightarrow> 'r \<Rightarrow> unit result \<times> task \<times> 'r" where
  "retry R C now T s = move R C now (Some ERROR) (Some QUEUED) None None T s"

definition cancel :: "'r redis \<Rightarrow> config \<Rightarrow> time \<Rightarrow> task \<Rightarrow> 'r \<Rightarrow> unit result \<times> task \<times> 'r" where
  "cancel R C now T s = move R C now (Some SCHEDULED) None None None T s"

definition delete :: "'r redis \<Rightarrow> config \<Rightarrow> time \<Rightarrow> task \<Rightarrow> 'r \<Rightarrow> unit result \<times> task \<times> 'r" where
  "delete R C now T s = move R C now (Some ERROR) None None None T s"

subsection \<open>Queueing a task\<close>

definition set_entry :: "string \<Rightarrow> json \<Rightarrow> task \<Rightarrow> task" where
  "set_entry k v T = T\<lparr>t_data := dict_set k v (t_data T)\<rparr>"

text \<open>The transaction that adds a task; a task that is there already keeps its time.\<close>

definition enqueue ::
    "'r redis \<Rightarrow> config \<Rightarrow> task_state \<Rightarrow> queue_name \<Rightarrow> task_id \<Rightarrow> string \<Rightarrow> time \<Rightarrow> 'r \<Rightarrow> 'r" where
  "enqueue R C state queue i serialized_task ts s =
     (let p = REDIS_PREFIX C;
          s1 = r_sadd R (state_key p state) queue s;
          s2 = r_set R (task_key p i) serialized_task s1;
          s3 = zadd_noupdate R (queue_key p state queue) ts i s2
      in if state = QUEUED \<and> PUBLISH_QUEUED_TASKS C then r_publish R (activity_channel p) queue s3
         else s3)"

text \<open>When and in which state a task is queued: a time that is missing, zero or not in the future
  means now.\<close>

definition queue_time :: "time option \<Rightarrow> time \<Rightarrow> time \<times> task_state" where
  "queue_time ts now =
     (case ts of
        None \<Rightarrow> (now, QUEUED)
      | Some t \<Rightarrow> if t = 0 \<or> t \<le> now then (now, QUEUED) else (t, SCHEDULED))"

definition queue_full :: "'r redis \<Rightarrow> config \<Rightarrow> rat option \<Rightarrow> task \<Rightarrow> 'r \<Rightarrow> unit result" where
  "queue_full R C max_queue_size T s =
     (case max_queue_size of
        None \<Rightarrow> Inr ()
      | Some m \<Rightarrow>
          if m = 0 then Inr ()
          else bind_result (the_queue T) (\<lambda>queue.
            let queue_size = get_total_queue_size R C queue s in
            if m \<le> of_nat queue_size then Inl (QueueFullException (int queue_size)) else Inr ()))"

definition delay ::
    "pylib \<Rightarrow> 'r program \<Rightarrow> 'r redis \<Rightarrow> config \<Rightarrow> int \<Rightarrow> time \<Rightarrow> when_arg \<Rightarrow> int option \<Rightarrow> task \<Rightarrow> 'r
      \<Rightarrow> unit result \<times> task \<times> 'r" where
  "delay L P R C utcnow now when max_queue_size T s =
     (let (ts, state) = queue_time (get_timestamp utcnow when) now;
          T1 = set_entry ''time_last_queued'' (JNum now) T;
          max_size = (case max_queue_size of None \<Rightarrow> data_max_queue_size T1 | Some n \<Rightarrow> Some (of_int n));
          T2 = set_entry ''scheduled_at'' (JNum ts) T1;
          serialized_task = json_dumps L (JObj (t_data T2))
      in case queue_full R C max_size T2 s of
        Inl e \<Rightarrow> (Inl e, T2, s)
      | Inr _ \<Rightarrow>
          if ALWAYS_EAGER C \<and> state = QUEUED then
            (let (r, s') = execute P T2 s in (map_sum id (\<lambda>_. ()) r, T2, s'))
          else
            (case the_queue T2 of
               Inl e \<Rightarrow> (Inl e, T2, s)
             | Inr queue \<Rightarrow>
                 (case task_id T2 of
                    Inl e \<Rightarrow> (Inl e, T2, s)
                  | Inr i \<Rightarrow>
                      (Inr (), T2\<lparr>t_state := Some state, t_ts := Some ts\<rparr>,
                       enqueue R C state queue i serialized_task ts s))))"

subsection \<open>Changing the time of a scheduled task\<close>

definition task_update_scheduled_time ::
    "cjson \<Rightarrow> 'r redis \<Rightarrow> config \<Rightarrow> int \<Rightarrow> when_arg \<Rightarrow> task \<Rightarrow> 'r \<Rightarrow> unit result \<times> task \<times> 'r" where
  "task_update_scheduled_time J R C utcnow when T s =
     (case get_timestamp utcnow when of
        None \<Rightarrow> (Inl AssertionError, T, s)
      | Some ts \<Rightarrow>
          if ts = 0 then (Inl AssertionError, T, s)
          else case the_queue T of
            Inl e \<Rightarrow> (Inl e, T, s)
          | Inr queue \<Rightarrow>
              (case task_id T of
                 Inl e \<Rightarrow> (Inl e, T, s)
               | Inr i \<Rightarrow>
                   (case update_scheduled_time R J (queue_key (REDIS_PREFIX C) SCHEDULED queue)
                       (task_key (REDIS_PREFIX C) i) ts i s of
                      (Inl e, s') \<Rightarrow> (Inl e, T, s')
                    | (Inr found, s') \<Rightarrow>
                        if \<not> found then (Inl (TaskNotFound i), T, s')
                        else (Inr (), (set_entry ''scheduled_at'' (JNum ts) T)\<lparr>t_ts := Some ts\<rparr>, s'))))"

subsection \<open>Loading tasks\<close>

fun loads_dict :: "pylib \<Rightarrow> string \<Rightarrow> dict result" where
  "loads_dict L x =
     (case json_loads L x of
        None \<Rightarrow> Inl ValueError
      | Some (JObj d) \<Rightarrow> Inr d
      | Some _ \<Rightarrow> Inl TypeError)"

definition loads_json :: "pylib \<Rightarrow> string \<Rightarrow> json result" where
  "loads_json L x = (case json_loads L x of None \<Rightarrow> Inl ValueError | Some v \<Rightarrow> Inr v)"

definition load_executions ::
    "pylib \<Rightarrow> 'r redis \<Rightarrow> string \<Rightarrow> task_id \<Rightarrow> int \<Rightarrow> 'r \<Rightarrow> json list result" where
  "load_executions L R p i n s =
     (if n = 0 then Inr []
      else map_result (loads_json L)
        (filter (\<lambda>e. e \<noteq> []) (r_lrange R (executions_key p i) (- n) (- 1) s)))"

definition from_id ::
    "pylib \<Rightarrow> 'r redis \<Rightarrow> config \<Rightarrow> queue_name \<Rightarrow> task_state \<Rightarrow> task_id \<Rightarrow> int \<Rightarrow> 'r \<Rightarrow> task result" where
  "from_id L R C queue state i n_load s =
     (let p = REDIS_PREFIX C in
      case (r_get R (task_key p i) s, r_zscore R (queue_key p state queue) i s) of
        (Some serialized_data, Some score) \<Rightarrow>
          if serialized_data = [] \<or> score = 0 then Inl (TaskNotFound i)
          else bind_result (loads_dict L serialized_data) (\<lambda>data.
            bind_result (load_executions L R p i n_load s) (\<lambda>executions.
              Inr (stored_task queue data (Some state) (Some score) executions)))
      | _ \<Rightarrow> Inl (TaskNotFound i))"

text \<open>
  The loop of \<^verbatim>\<open>tasks_from_queue\<close>. The variable \<open>data\<close> lives across its rounds: without
  \<open>include_not_found\<close>, an entry without data leaves it unset, or set to the data of the entry before.
\<close>

fun load_tasks ::
    "pylib \<Rightarrow> 'r redis \<Rightarrow> string \<Rightarrow> queue_name \<Rightarrow> task_state \<Rightarrow> int \<Rightarrow> bool \<Rightarrow> dict option
      \<Rightarrow> (score \<times> member) list \<Rightarrow> 'r \<Rightarrow> task list result" where
  "load_tasks L R p queue state n_load include_not_found data [] s = Inr []"
| "load_tasks L R p queue state n_load include_not_found data ((ts, i) # items) s =
     bind_result
       (case r_get R (task_key p i) s of
          None \<Rightarrow> Inr (if include_not_found then Some [(''id'', JStr i)] else data)
        | Some x \<Rightarrow> map_sum id Some (loads_dict L x)) (\<lambda>data'.
     bind_result (load_executions L R p i n_load s) (\<lambda>executions.
     case data' of
       None \<Rightarrow> Inl UnboundLocalError
     | Some d \<Rightarrow>
         bind_result (load_tasks L R p queue state n_load include_not_found data' items s) (\<lambda>Ts.
           Inr (stored_task queue d (Some state) (Some ts) executions # Ts))))"

definition tasks_from_queue ::
    "pylib \<Rightarrow> 'r redis \<Rightarrow> config \<Rightarrow> queue_name \<Rightarrow> task_state \<Rightarrow> int \<Rightarrow> int \<Rightarrow> int \<Rightarrow> bool \<Rightarrow> 'r
      \<Rightarrow> (nat \<times> task list) result" where
  "tasks_from_queue L R C queue state skip limit n_load include_not_found s =
     (let p = REDIS_PREFIX C;
          key = queue_key p state queue;
          items = r_zrange R key (- limit - skip) (- 1 - skip) s
      in map_sum id (Pair (r_zcard R key s))
        (load_tasks L R p queue state n_load include_not_found None items s))"

definition n_executions :: "'r redis \<Rightarrow> config \<Rightarrow> task \<Rightarrow> 'r \<Rightarrow> nat result" where
  "n_executions R C T s =
     bind_result (task_id T) (\<lambda>i.
       if \<not> r_exists R (task_key (REDIS_PREFIX C) i) s then Inl (TaskNotFound i)
       else Inr (case r_get R (count_key (REDIS_PREFIX C) i) s of None \<Rightarrow> 0 | Some x \<Rightarrow> nat_of_dec x))"

subsection \<open>Periodic tasks\<close>

definition clone :: "'r program \<Rightarrow> task \<Rightarrow> task result" where
  "clone P T =
     bind_result (func_of P T) (\<lambda>func.
     bind_result (the_queue T) (\<lambda>queue.
       Inr (T\<lparr>t_func := Some func, t_queue := Some queue\<rparr>)))"

text \<open>The identifier is computed anew, so that a malformed one does not persist.\<close>

definition renewed_clone :: "pylib \<Rightarrow> 'r program \<Rightarrow> task \<Rightarrow> task result" where
  "renewed_clone L P T =
     bind_result (clone P T) (\<lambda>T'.
     bind_result (serialized_func T') (\<lambda>name.
       Inr (set_entry ''id''
         (JStr (gen_unique_id L name (JList (task_args T')) (JObj (task_kwargs T')))) T')))"

definition queue_for_next_period ::
    "pylib \<Rightarrow> 'r program \<Rightarrow> 'r redis \<Rightarrow> config \<Rightarrow> int \<Rightarrow> time \<Rightarrow> task \<Rightarrow> 'r \<Rightarrow> int option result \<times> 'r" where
  "queue_for_next_period L P R C utcnow now T s =
     (case bind_result (func_of P T) (\<lambda>func.
         case task_schedule func of None \<Rightarrow> Inl AttributeError | Some schedule \<Rightarrow> schedule utcnow) of
        Inl e \<Rightarrow> (Inl e, s)
      | Inr None \<Rightarrow> (Inr None, s)
      | Inr (Some when) \<Rightarrow>
          (case renewed_clone L P T of
             Inl e \<Rightarrow> (Inl e, s)
           | Inr T' \<Rightarrow>
               (case delay L P R C utcnow now (WhenAt when) None T' s of
                  (r, _, s') \<Rightarrow> (map_sum id (\<lambda>_. Some when) r, s'))))"

end
