(* ===== verification/Task_Laws.thy ===== *)
theory Task_Laws
  imports Move_Properties Tasks
begin

text \<open>
  What the operations of a task do to the store: lemmas that the properties of tasks and of the
  worker share. Queueing refines a function on the store; moving reports the errors of the script
  as exceptions.
\<close>

subsection \<open>Queueing on the store\<close>

definition enqueue_in_store ::
    "string \<Rightarrow> task_state \<Rightarrow> queue_name \<Rightarrow> task_id \<Rightarrow> string \<Rightarrow> time \<Rightarrow> bool \<Rightarrow> store \<Rightarrow> store" where
  "enqueue_in_store p st q i x ts publish t =
     (let t1 = put_data i x (list_queue st q t);
          t2 = put_tasks st q (zins_new ts i (place t st q)) t1
      in if st = QUEUED \<and> publish then send (activity_channel p) q t2 else t2)"

lemma enqueue_in_store_score:
  "task_score (enqueue_in_store p st q i x ts publish t) st' q' j =
    (if st' = st \<and> q' = q \<and> j = i \<and> task_score t st q i = None then Some ts
     else task_score t st' q' j)"
  by (auto simp: enqueue_in_store_def Let_def zget_place)

lemma enqueue_in_store_data [simp]:
  "task_data (enqueue_in_store p st q i x ts publish t) = (task_data t)(i := Some x)"
  "execs (enqueue_in_store p st q i x ts publish t) = execs t"
  by (simp_all add: enqueue_in_store_def Let_def)

lemma indexed_enqueue_in_store:
  "indexed t \<Longrightarrow> indexed (enqueue_in_store p st q i x ts publish t)"
  using indexed_fill [of t "zins_new ts i (place t st q)" st q]
  by (auto simp: enqueue_in_store_def Let_def indexed_def)

lemma backed_enqueue_in_store:
  "backed t \<Longrightarrow> colon_free i \<Longrightarrow> backed (enqueue_in_store p st q i x ts publish t)"
  by (auto simp: backed_def task_at_def enqueue_in_store_score split: if_splits)

context tiger_redis
begin

lemma store_enqueue:
  assumes "REDIS_PREFIX C = p" "colon_free i"
  shows "store_of (enqueue R C st q i x ts s) =
    enqueue_in_store p st q i x ts (PUBLISH_QUEUED_TASKS C) (store_of s)"
proof -
  define s1 where "s1 = r_sadd R (state_key p st) q s"
  define s2 where "s2 = r_set R (task_key p i) x s1"
  define s3 where "s3 = zadd_noupdate R (queue_key p st q) ts i s2"
  have "store_of s1 = list_queue st q (store_of s)"
    by (simp add: s1_def redis_law key_law store_view)
  moreover have "store_of s2 = put_data i x (store_of s1)"
    using assms(2) by (simp add: s2_def redis_law key_law store_view)
  moreover have "store_of s3 = put_tasks st q (zins_new ts i (place (store_of s2) st q)) (store_of s2)"
    by (simp add: s3_def redis_law key_law store_view)
  moreover have "store_of (r_publish R c x s) = send c x (store_of s)" for c x s
    by (simp add: redis_law store_view)
  moreover have "enqueue R C st q i x ts s =
      (if st = QUEUED \<and> PUBLISH_QUEUED_TASKS C then r_publish R (activity_channel p) q s3 else s3)"
    by (simp add: enqueue_def assms(1) s1_def s2_def s3_def Let_def)
  ultimately show ?thesis
    by (simp add: enqueue_in_store_def Let_def del: tiger_view_simps)
qed

lemma total_queue_size:
  "REDIS_PREFIX C = p \<Longrightarrow> get_total_queue_size R C q s =
    (\<Sum>st \<leftarrow> [QUEUED, SCHEDULED, ACTIVE]. length (zlist (place (store_of s) st q)))"
  by (simp add: get_total_queue_size_def get_queue_sizes_def redis_law key_law)

subsection \<open>Moving\<close>

lemma contains_fail: "contains ''<FAIL_IF_NOT_IN_ZSET>'' ''<FAIL_IF_NOT_IN_ZSET>''"
  by simp

text \<open>A move with a mode that the script knows either succeeds or reports that the task is not there.\<close>

lemma move_cases:
  assumes "REDIS_PREFIX C = p" "the_queue T = Inr q" "task_id T = Inr i" "colon_free i"
    and "or_else from_state (t_state T) = Some st" "known_mode (none_to_empty_str mode)"
  shows "if task_at (store_of s) st q i
    then \<exists>s'. move R C now from_state to_state w mode T s = (Inr (), T\<lparr>t_state := to_state\<rparr>, s') \<and>
      store_of s' = move_in_store p i q st to_state (is_unique T) (or_now w now)
        (none_to_empty_str mode) (PUBLISH_QUEUED_TASKS C) (store_of s)
    else move R C now from_state to_state w mode T s = (Inl (TaskNotFound i), T, s)"
proof (cases "task_at (store_of s) st q i")
  case True
  from move_task_store [OF True assms(4), of to_state mode "is_unique T" "or_now w now"
      "PUBLISH_QUEUED_TASKS C"] assms True
  show ?thesis by (auto simp: move_def)
next
  case False
  then show ?thesis
    using move_task_not_found [OF False] assms contains_fail by (simp add: move_def)
qed

end

subsection \<open>Delaying\<close>

lemma set_entry_simps [simp]:
  "t_queue (set_entry k v T) = t_queue T" "t_func (set_entry k v T) = t_func T"
  "t_data (set_entry k v T) = dict_set k v (t_data T)"
  "the_queue (set_entry k v T) = the_queue T"
  by (simp_all add: set_entry_def the_queue_def)

lemma task_id_update [simp]:
  "task_id (T\<lparr>t_state := st\<rparr>) = task_id T" "task_id (T\<lparr>t_ts := ts\<rparr>) = task_id T"
  "the_queue (T\<lparr>t_state := st\<rparr>) = the_queue T" "the_queue (T\<lparr>t_ts := ts\<rparr>) = the_queue T"
  by (simp_all add: task_id_def the_queue_def)

definition stamped :: "time \<Rightarrow> time \<Rightarrow> task \<Rightarrow> task" where
  "stamped now ts T = set_entry ''scheduled_at'' (JNum ts) (set_entry ''time_last_queued'' (JNum now) T)"

lemma stamped_simps [simp]:
  "t_queue (stamped now ts T) = t_queue T" "the_queue (stamped now ts T) = the_queue T"
  "t_func (stamped now ts T) = t_func T"
  "task_id (stamped now ts T) = task_id T" "serialized_func (stamped now ts T) = serialized_func T"
  "is_unique (stamped now ts T) = is_unique T" "task_args (stamped now ts T) = task_args T"
  "task_kwargs (stamped now ts T) = task_kwargs T" "scheduled_at (stamped now ts T) = Some ts"
  "time_last_queued (stamped now ts T) = Some now"
  by (simp_all add: stamped_def task_id_def serialized_func_def entry_string_def is_unique_def
      task_args_def task_kwargs_def scheduled_at_def time_last_queued_def)

text \<open>The limit on the size of the queue that applies to a call of \<open>delay\<close>.\<close>

definition size_limit :: "int option \<Rightarrow> task \<Rightarrow> rat option" where
  "size_limit max_queue_size T =
     (case max_queue_size of None \<Rightarrow> data_max_queue_size T | Some n \<Rightarrow> Some (of_int n))"

definition is_full :: "rat option \<Rightarrow> nat \<Rightarrow> bool" where
  "is_full limit n \<longleftrightarrow> (\<exists>m \<in> set_option limit. m \<noteq> 0 \<and> m \<le> of_nat n)"

lemma queue_full_eq:
  "the_queue T = Inr q \<Longrightarrow> queue_full R C limit T s =
    (if is_full limit (get_total_queue_size R C q s)
     then Inl (QueueFullException (int (get_total_queue_size R C q s))) else Inr ())"
  by (cases limit) (auto simp: queue_full_def is_full_def Let_def)

lemma delay_eq:
  assumes "\<not> ALWAYS_EAGER C" "the_queue T = Inr q" "task_id T = Inr i"
    and "queue_time (get_timestamp utcnow w) now = (ts, state)"
  shows "delay L P R C utcnow now w max_arg T s =
    (if is_full (size_limit max_arg T) (get_total_queue_size R C q s)
     then (Inl (QueueFullException (int (get_total_queue_size R C q s))), stamped now ts T, s)
     else (Inr (), (stamped now ts T)\<lparr>t_state := Some state, t_ts := Some ts\<rparr>,
       enqueue R C state q i (json_dumps L (JObj (t_data (stamped now ts T)))) ts s))"
proof -
  have limit: "data_max_queue_size (set_entry ''time_last_queued'' (JNum now) T) = data_max_queue_size T"
    by (simp add: data_max_queue_size_def)
  have "queue_full R C lim (stamped now ts T) s =
      (if is_full lim (get_total_queue_size R C q s)
       then Inl (QueueFullException (int (get_total_queue_size R C q s))) else Inr ())" for lim
    by (rule queue_full_eq) (simp add: assms(2))
  then show ?thesis
    using assms(2,3) stamped_simps(2,4) [of now ts T]
    by (cases max_arg) (simp_all add: delay_def assms(1,4) Let_def limit size_limit_def flip: stamped_def)
qed

text \<open>A call that returns has stored the task, in the state and for the time that it reports.\<close>

lemma delay_stored:
  assumes "tiger_redis R kind p" "REDIS_PREFIX C = p" "\<not> ALWAYS_EAGER C"
    and "the_queue T = Inr q" "task_id T = Inr i" "colon_free i"
    and "delay L P R C utcnow now w max_arg T s = (Inr (), T', s')"
    and "t_state T' = Some st" "t_ts T' = Some ts"
  shows "tiger_view p (view R s') = enqueue_in_store p st q i (json_dumps L (JObj (t_data T'))) ts
    (PUBLISH_QUEUED_TASKS C) (tiger_view p (view R s))"
proof -
  obtain ts' state where t: "queue_time (get_timestamp utcnow w) now = (ts', state)"
    by (metis prod.exhaust)
  from assms(7-9) show ?thesis
    unfolding delay_eq [OF assms(3-5) t]
    by (auto simp: tiger_redis.store_enqueue [OF assms(1,2,6)] simp del: tiger_view_simps split: if_splits)
qed

lemma delay_reports:
  assumes "the_queue T = Inr q" "task_id T = Inr i" "\<not> ALWAYS_EAGER C"
    and "delay L P R C utcnow now w max_arg T s = (Inr (), T', s')"
  obtains ts where "t_ts T' = Some ts"
proof -
  obtain ts' state where t: "queue_time (get_timestamp utcnow w) now = (ts', state)"
    by (metis prod.exhaust)
  from assms(4) that show ?thesis
    unfolding delay_eq [OF assms(3,1,2) t] by (auto split: if_splits)
qed

end
