(* ===== verification/Executors.thy ===== *)
theory Executors
  imports Task_Laws Redis_Semaphore
begin

text \<open>
  How a worker executes a group of tasks (\<^verbatim>\<open>tasktiger/executor.py\<close>), with the parts of the worker that
  executors call back: heartbeats, hard timeouts and the record of a failed execution. The loop in
  which the parent of a forked child waits is a function of what it observes, round by round.
\<close>

subsection \<open>Hard timeouts\<close>

fun or_nonzero :: "rat option \<Rightarrow> rat \<Rightarrow> rat" where
  "or_nonzero None y = y"
| "or_nonzero (Some x) y = (if x = 0 then y else x)"

definition get_hard_timeouts :: "config \<Rightarrow> task_func \<Rightarrow> task list \<Rightarrow> rat list" where
  "get_hard_timeouts C func Ts =
     (let fallback = or_nonzero (task_hard_timeout func) (DEFAULT_HARD_TIMEOUT C) in
      if is_batch func then
        let task_timeouts = List.map_filter hard_timeout Ts
        in [or_nonzero (if task_timeouts = [] then None else Some (fold max (tl task_timeouts) (hd task_timeouts)))
              fallback]
      else map (\<lambda>T. or_nonzero (hard_timeout T) fallback) Ts)"

subsection \<open>Heartbeats\<close>

definition worker_heartbeat ::
    "'r redis \<Rightarrow> config \<Rightarrow> queue_name \<Rightarrow> task_id list \<Rightarrow> time \<Rightarrow> 'r \<Rightarrow> 'r" where
  "worker_heartbeat R C queue task_ids now s =
     snd (r_zadd R (queue_key (REDIS_PREFIX C) ACTIVE queue) (map (Pair now) task_ids) s)"

text \<open>A lock of the library redis-py: its key and the token under which it is held.\<close>

type_synonym held_lock = "key \<times> string"

definition reacquire_locks :: "'r redis \<Rightarrow> held_lock list \<Rightarrow> 'r \<Rightarrow> 'r" where
  "reacquire_locks R locks s = fold (\<lambda>(k, token) s. snd (r_lock_reacquire R k token s)) locks s"

definition heartbeat ::
    "'r program \<Rightarrow> 'r redis \<Rightarrow> config \<Rightarrow> queue_name \<Rightarrow> task_id list \<Rightarrow> held_lock list
      \<Rightarrow> semaphore option \<Rightarrow> 'r \<Rightarrow> 'r" where
  "heartbeat P R C queue task_ids locks queue_lock s =
     (let (now, s1) = read_time P s;
          s2 = reacquire_locks R locks (worker_heartbeat R C queue task_ids now s1)
      in case queue_lock of
           None \<Rightarrow> s2
         | Some S \<Rightarrow> (let (now', s3) = read_time P s2 in snd (renew R S now' s3)))"

subsection \<open>The record of a failed execution\<close>

definition store_one_execution ::
    "'r redis \<Rightarrow> string \<Rightarrow> string \<Rightarrow> task_id \<Rightarrow> int option \<Rightarrow> 'r \<Rightarrow> 'r" where
  "store_one_execution R p serialized_execution i max_stored s =
     (let s1 = r_incr R (count_key p i) s;
          s2 = r_rpush R (executions_key p i) serialized_execution s1
      in case max_stored of
           None \<Rightarrow> s2
         | Some n \<Rightarrow> if n = 0 then s2 else r_ltrim R (executions_key p i) (- n) (- 1) s2)"

fun store_executions :: "'r redis \<Rightarrow> string \<Rightarrow> string \<Rightarrow> task list \<Rightarrow> 'r \<Rightarrow> unit result \<times> 'r" where
  "store_executions R p serialized_execution [] s = (Inr (), s)"
| "store_executions R p serialized_execution (T # Ts) s =
     (case task_id T of
        Inl e \<Rightarrow> (Inl e, s)
      | Inr i \<Rightarrow> store_executions R p serialized_execution Ts
          (store_one_execution R p serialized_execution i (max_stored_executions T) s))"

definition store_task_execution ::
    "pylib \<Rightarrow> 'r redis \<Rightarrow> config \<Rightarrow> task list \<Rightarrow> dict \<Rightarrow> 'r \<Rightarrow> unit result \<times> 'r" where
  "store_task_execution L R C Ts execution s =
     store_executions R (REDIS_PREFIX C) (json_dumps L (JObj execution)) Ts s"

subsection \<open>Executing in this process\<close>

text \<open>
  The serialized name of an exception's class. \<open>caught\<close> are the exceptions that the second handler of
  \<^verbatim>\<open>execute_tasks\<close> catches; \<^verbatim>\<open>QueueFullException\<close> derives from \<^verbatim>\<open>BaseException\<close> and is not among them.
\<close>

fun exception_name :: "exn \<Rightarrow> string" where
  "exception_name TaskImportError = ''tasktiger.exceptions:TaskImportError''"
| "exception_name JobTimeoutException = ''tasktiger.exceptions:JobTimeoutException''"
| "exception_name (QueueFullException n) = ''tasktiger.exceptions:QueueFullException''"
| "exception_name StopRetry = ''tasktiger.exceptions:StopRetry''"
| "exception_name (RetryException m l) = ''tasktiger.exceptions:RetryException''"
| "exception_name (TaskNotFound i) = ''tasktiger.exceptions:TaskNotFound''"
| "exception_name NotImplementedError = ''builtins:NotImplementedError''"
| "exception_name ValueError = ''builtins:ValueError''"
| "exception_name AssertionError = ''builtins:AssertionError''"
| "exception_name AttributeError = ''builtins:AttributeError''"
| "exception_name KeyError = ''builtins:KeyError''"
| "exception_name UnboundLocalError = ''builtins:UnboundLocalError''"
| "exception_name RuntimeError = ''builtins:RuntimeError''"
| "exception_name ZeroDivisionError = ''builtins:ZeroDivisionError''"
| "exception_name IndexError = ''builtins:IndexError''"
| "exception_name TypeError = ''builtins:TypeError''"
| "exception_name (UserException n b) = n"
| "exception_name SystemExit = ''builtins:SystemExit''"
| "exception_name (ResponseError m) = ''redis.exceptions:ResponseError''"

fun caught :: "exn \<Rightarrow> bool" where
  "caught (QueueFullException n) = False"
| "caught (UserException n b) = b"
| "caught SystemExit = False"
| "caught e = True"

text \<open>
  \<^verbatim>\<open>serialize_func_name\<close> of the class of an exception. It refuses classes of the module \<^verbatim>\<open>__main__\<close>.
\<close>

definition serialized_class :: "exn \<Rightarrow> string result" where
  "serialized_class e =
     (if prefix ''__main__:'' (exception_name e) then Inl ValueError else Inr (exception_name e))"

text \<open>The entries that the handlers add, or the exception that leaves \<^verbatim>\<open>execute_tasks\<close>.\<close>

fun failure_entries :: "exn \<Rightarrow> dict result" where
  "failure_entries (RetryException m log_error) =
     bind_result (serialized_class (RetryException m log_error)) (\<lambda>name.
       Inr ([(''retry'', JBool True)] @ entry ''retry_method'' (map_option retry_method_json m) @
         [(''log_error'', JBool log_error), (''exception_name'', JStr name)]))"
| "failure_entries e =
     (if caught e then bind_result (serialized_class e) (\<lambda>name. Inr [(''exception_name'', JStr name)])
      else Inl e)"

text \<open>The record of a failure, which the handlers complete when the exception has been handled.\<close>

definition failure_record :: "'r program \<Rightarrow> bool \<Rightarrow> time \<Rightarrow> dict \<Rightarrow> time \<Rightarrow> exn \<Rightarrow> dict" where
  "failure_record P store_tracebacks time_started entries time_failed e =
     [(''time_started'', JNum time_started)] @ entries @ [(''time_failed'', JNum time_failed)] @
     entry ''traceback'' (when_true store_tracebacks (JStr (format_exception P e))) @
     [(''success'', JBool False), (''host'', JStr (hostname P))]"

fun run_single_tasks :: "'r runner \<Rightarrow> (task \<times> rat) list \<Rightarrow> 'r \<Rightarrow> unit result \<times> 'r" where
  "run_single_tasks runner [] s = (Inr (), s)"
| "run_single_tasks runner ((T, timeout) # rest) s =
     bind_state (run_single_task runner T timeout s) (\<lambda>_ s'. run_single_tasks runner rest s')"

definition run_tasks :: "'r program \<Rightarrow> config \<Rightarrow> task list \<Rightarrow> 'r \<Rightarrow> unit result \<times> 'r" where
  "run_tasks P C Ts s =
     (case func_of P (hd Ts) of
        Inl e \<Rightarrow> (Inl e, s)
      | Inr func \<Rightarrow>
          (case get_runner_class P Ts of
             Inl e \<Rightarrow> (Inl e, s)
           | Inr runner \<Rightarrow>
               (let hard_timeouts = get_hard_timeouts C func Ts in
                if is_batch func then run_batch_tasks runner Ts (hd hard_timeouts) s
                else run_single_tasks runner (zip Ts hard_timeouts) s)))"

definition same_func :: "task list \<Rightarrow> unit result" where
  "same_func Ts =
     (case Ts of
        [] \<Rightarrow> Inl AssertionError
      | T # Ts' \<Rightarrow>
          bind_result (serialized_func T) (\<lambda>name.
          bind_result (map_result serialized_func Ts') (\<lambda>names.
            if \<forall>n \<in> set names. n = name then Inr () else Inl AssertionError)))"

text \<open>
  \<^verbatim>\<open>execute_tasks\<close>: whether the group succeeded. The tasks of a group share the record of a failure.
\<close>

definition execute_tasks ::
    "pylib \<Rightarrow> 'r program \<Rightarrow> 'r redis \<Rightarrow> config \<Rightarrow> bool \<Rightarrow> task list \<Rightarrow> 'r \<Rightarrow> bool result \<times> 'r" where
  "execute_tasks L P R C store_tracebacks Ts s =
     (case same_func Ts of
        Inl e \<Rightarrow> (Inl e, s)
      | Inr _ \<Rightarrow>
          (let (time_started, s1) = read_time P s in
           case run_tasks P C Ts s1 of
             (Inr _, s2) \<Rightarrow> (Inr True, s2)
           | (Inl e, s2) \<Rightarrow>
               (case failure_entries e of
                  Inl e' \<Rightarrow> (Inl e', s2)
                | Inr entries \<Rightarrow>
                    (let (time_failed, s3) = read_time P s2;
                         execution = failure_record P store_tracebacks time_started entries time_failed e
                     in case store_task_execution L R C Ts execution s3 of
                          (Inl e', s4) \<Rightarrow> (Inl e', s4)
                        | (Inr _, s4) \<Rightarrow> (Inr False, s4)))))"

text \<open>
  The executor in the current thread; the heartbeats of its second thread are among the changes of
  the world that running the tasks may bring.
\<close>

definition sync_execute ::
    "pylib \<Rightarrow> 'r program \<Rightarrow> 'r redis \<Rightarrow> config \<Rightarrow> bool \<Rightarrow> task list \<Rightarrow> 'r \<Rightarrow> bool result \<times> 'r" where
  "sync_execute L P R C store_tracebacks Ts s =
     (if Ts = [] then (Inl AssertionError, s)
      else bind_state (map_result task_id Ts, s) (\<lambda>_ s.
           bind_state (serialized_func (hd Ts), s) (\<lambda>_ s.
             execute_tasks L P R C store_tracebacks Ts s)))"

subsection \<open>Executing in a forked child\<close>

text \<open>
  What the parent observes in a round of its loop: the exit status of the child, if there is one,
  before and after it sleeps (\<open>meanwhile\<close> is what the child and others do to the server in between),
  the time, and the status should it kill the child now.
\<close>

record 'r wait_round =
  poll_before :: "int option"
  meanwhile :: "'r \<Rightarrow> 'r"
  poll_after :: "int option"
  round_time :: time
  kill_status :: int

definition killed_execution :: "'r program \<Rightarrow> time \<Rightarrow> time \<Rightarrow> dict" where
  "killed_execution P time_started now =
     [(''time_started'', JNum time_started), (''time_failed'', JNum now),
      (''exception_name'', JStr (exception_name JobTimeoutException)),
      (''success'', JBool False), (''host'', JStr (hostname P))]"

fun wait_for_child ::
    "pylib \<Rightarrow> 'r program \<Rightarrow> 'r redis \<Rightarrow> config \<Rightarrow> queue_name \<Rightarrow> task list \<Rightarrow> task_id list
      \<Rightarrow> held_lock list \<Rightarrow> semaphore option \<Rightarrow> time \<Rightarrow> time \<Rightarrow> 'r wait_round list \<Rightarrow> 'r
      \<Rightarrow> (bool result \<times> 'r) option" where
  "wait_for_child L P R C queue Ts ids locks queue_lock time_started timeout_at [] s = None"
| "wait_for_child L P R C queue Ts ids locks queue_lock time_started timeout_at (r # rounds) s =
     (case poll_before r of
        Some return_code \<Rightarrow> Some (Inr (return_code = 0), s)
      | None \<Rightarrow>
          (let s1 = meanwhile r s in
           case poll_after r of
             Some return_code \<Rightarrow> Some (Inr (return_code = 0), s1)
           | None \<Rightarrow>
               if timeout_at < round_time r then
                 (case store_task_execution L R C Ts (killed_execution P time_started (round_time r)) s1 of
                    (Inl e, s2) \<Rightarrow> Some (Inl e, s2)
                  | (Inr _, s2) \<Rightarrow> Some (Inr (kill_status r = 0), s2))
               else wait_for_child L P R C queue Ts ids locks queue_lock time_started timeout_at rounds
                 (heartbeat P R C queue ids locks queue_lock s1)))"

definition fork_execute ::
    "pylib \<Rightarrow> 'r program \<Rightarrow> 'r redis \<Rightarrow> config \<Rightarrow> queue_name \<Rightarrow> task list \<Rightarrow> held_lock list
      \<Rightarrow> semaphore option \<Rightarrow> 'r wait_round list \<Rightarrow> 'r \<Rightarrow> (bool result \<times> 'r) option" where
  "fork_execute L P R C queue Ts locks queue_lock rounds s =
     (if Ts = [] then Some (Inl IndexError, s)
      else case func_of P (hd Ts) of
        Inl e \<Rightarrow> Some (Inl e, s)
      | Inr func \<Rightarrow>
          (case map_result task_id Ts of
             Inl e \<Rightarrow> Some (Inl e, s)
           | Inr ids \<Rightarrow>
               (let hard_timeouts = get_hard_timeouts C func Ts;
                    (time_started, s1) = read_time P s;
                    timeout_at = time_started + sum_list hard_timeouts + ACTIVE_TASK_UPDATE_TIMEOUT C
                in wait_for_child L P R C queue Ts (remdups ids) locks queue_lock time_started
                     timeout_at rounds s1)))"

end
