(* ===== verification/Workers.thy ===== *)
theory Workers
  imports Executors
begin

text \<open>
  The worker (\<^verbatim>\<open>tasktiger/worker.py\<close>): its configuration and state, the queues that it looks at, and
  the tasks that it moves before and after it executes them. Sets of queue names are lists without
  repetitions. Each reading of the clock goes through \<open>read_time\<close>.
\<close>

subsection \<open>The worker's state\<close>

record worker =
  worker_id :: string
  only_queues :: "queue_name list"
  exclude_queues :: "queue_name list"
  single_worker_queues :: "queue_name list"
  max_workers_per_queue :: "int option"
  store_tracebacks :: bool
  did_work :: bool
  last_task_check :: time
  queue_set :: "queue_name list"
  stop_requested :: bool

definition queues_or :: "queue_name list option \<Rightarrow> queue_name list \<Rightarrow> queue_name list" where
  "queues_or arg configured = remdups (if the_list arg \<noteq> [] then the_list arg else configured)"

definition new_worker ::
    "config \<Rightarrow> string \<Rightarrow> queue_name list option \<Rightarrow> queue_name list option \<Rightarrow> queue_name list option
      \<Rightarrow> int option \<Rightarrow> bool option \<Rightarrow> worker result" where
  "new_worker C uuid queues exclude single max_workers tracebacks =
     (let max_workers' = (case max_workers of None \<Rightarrow> None | Some n \<Rightarrow> if n = 0 then None else Some n) in
      if \<exists>n \<in> set_option max_workers'. n < 1 then Inl AssertionError
      else Inr \<lparr>worker_id = uuid, only_queues = queues_or queues (ONLY_QUEUES C),
        exclude_queues = queues_or exclude (EXCLUDE_QUEUES C),
        single_worker_queues = queues_or single (SINGLE_WORKER_QUEUES C),
        max_workers_per_queue = max_workers',
        store_tracebacks = (case tracebacks of None \<Rightarrow> STORE_TRACEBACKS C | Some b \<Rightarrow> b),
        did_work = True, last_task_check = 0, queue_set = [], stop_requested = False\<rparr>)"

definition worker_group_name :: "pylib \<Rightarrow> worker \<Rightarrow> string" where
  "worker_group_name L W =
     sha256 L (json_dumps L (JList [strings_json (sort (only_queues W)), strings_json (sort (exclude_queues W))]))"

subsection \<open>Which queues the worker processes\<close>

definition worker_includes :: "worker \<Rightarrow> queue_name \<Rightarrow> bool" where
  "worker_includes W queue = queue_included (only_queues W) (exclude_queues W) queue"

definition filter_queues :: "worker \<Rightarrow> queue_name list \<Rightarrow> queue_name list" where
  "filter_queues W queues = filter (worker_includes W) queues"

text \<open>
  The members of a set. For a single configured queue the server is asked for the names that match
  a pattern only; \<open>matches\<close> is how the server matches patterns.
\<close>

definition redis_glob_escape :: "string \<Rightarrow> string" where
  "redis_glob_escape x =
     concat (map (\<lambda>c. if c \<in> set (CHR 0x5C # ''?*[]'') then [CHR 0x5C, c] else [c]) x)"

definition retrieve_queues ::
    "(string \<Rightarrow> string \<Rightarrow> bool) \<Rightarrow> 'r redis \<Rightarrow> worker \<Rightarrow> key \<Rightarrow> 'r \<Rightarrow> queue_name list" where
  "retrieve_queues matches R W key s =
     (case only_queues W of
        [q] \<Rightarrow> filter (matches (redis_glob_escape q @ ''*'')) (r_smembers R key s)
      | _ \<Rightarrow> r_smembers R key s)"

definition refresh_queue_set ::
    "(string \<Rightarrow> string \<Rightarrow> bool) \<Rightarrow> 'r redis \<Rightarrow> config \<Rightarrow> worker \<Rightarrow> 'r \<Rightarrow> worker" where
  "refresh_queue_set matches R C W s =
     W\<lparr>queue_set := filter_queues W (retrieve_queues matches R W (state_key (REDIS_PREFIX C) QUEUED) s)\<rparr>"

text \<open>A message of the activity channel, whose arrival may start the batch timeout.\<close>

definition process_queue_message ::
    "worker \<Rightarrow> queue_name \<Rightarrow> bool \<Rightarrow> time \<Rightarrow> time \<Rightarrow> time \<Rightarrow> time \<Rightarrow> time \<Rightarrow> bool \<times> time \<times> worker" where
  "process_queue_message W message_queue new_queue_found batch_exit start_time timeout batch_timeout now =
     (if worker_includes W message_queue \<and> message_queue \<notin> set (queue_set W) then
        let batch_exit' = (if new_queue_found then batch_exit
              else min (now + batch_timeout) (start_time + timeout))
        in (True, batch_exit', W\<lparr>queue_set := queue_set W @ [message_queue]\<rparr>)
      else (new_queue_found, batch_exit, W))"

subsection \<open>Batch sizes and queue locks\<close>

fun batch_size_of :: "(queue_name \<times> int) list \<Rightarrow> queue_name list \<Rightarrow> int \<Rightarrow> int" where
  "batch_size_of batch_queues [] n = n"
| "batch_size_of batch_queues (part # parts) n =
     batch_size_of batch_queues parts
       (case map_of batch_queues part of None \<Rightarrow> n | Some m \<Rightarrow> m)"

definition get_queue_batch_size :: "config \<Rightarrow> queue_name \<Rightarrow> int" where
  "get_queue_batch_size C queue = batch_size_of (BATCH_QUEUES C) (dotted_parts queue) 1"

definition queue_max_workers :: "worker \<Rightarrow> queue_name \<Rightarrow> int option" where
  "queue_max_workers W queue =
     (if list_ex (\<lambda>part. part \<in> set (single_worker_queues W)) (dotted_parts queue) then Some 1
      else max_workers_per_queue W)"

definition queue_semaphore :: "config \<Rightarrow> worker \<Rightarrow> queue_name \<Rightarrow> int \<Rightarrow> semaphore" where
  "queue_semaphore C W queue max_workers =
     \<lparr>sem_name = tiger_key (REDIS_PREFIX C) [''qslock'', queue], sem_lock_id = worker_id W,
      sem_timeout = ACTIVE_TASK_UPDATE_TIMEOUT C, sem_max_locks = max_workers\<rparr>"

text \<open>The lock, if the queue needs one, and whether it could not be acquired.\<close>

definition get_queue_lock ::
    "'r program \<Rightarrow> 'r redis \<Rightarrow> config \<Rightarrow> worker \<Rightarrow> queue_name \<Rightarrow> 'r \<Rightarrow> (semaphore option \<times> bool) \<times> 'r" where
  "get_queue_lock P R C W queue s =
     (case queue_max_workers W queue of
        None \<Rightarrow> ((None, False), s)
      | Some n \<Rightarrow>
          if n = 0 then ((None, False), s)
          else let S = queue_semaphore C W queue n;
                   (now, s1) = read_time P s;
                   ((acquired, locks), s2) = acquire R S now s1
               in if acquired then ((Some S, False), s2) else ((None, True), s2))"

subsection \<open>Due and expired tasks\<close>

text \<open>Due tasks of one queue, and of all queues that the worker includes.\<close>

definition queue_due_tasks ::
    "'r redis \<Rightarrow> config \<Rightarrow> time \<Rightarrow> queue_name \<Rightarrow> worker \<times> 'r \<Rightarrow> worker \<times> 'r" where
  "queue_due_tasks R C now queue = (\<lambda>(W, s).
     let p = REDIS_PREFIX C;
         (moved, s1) = zpoppush_exists_ignore_update_sets R (queue_key p SCHEDULED queue)
           (queue_key p QUEUED queue) (state_key p SCHEDULED) (state_key p QUEUED)
           (Some now) (SCHEDULED_TASK_BATCH_SIZE C) now queue s
     in if moved = [] then (W, s1)
        else (W\<lparr>did_work := True\<rparr>,
              if PUBLISH_QUEUED_TASKS C then r_publish R (activity_channel p) queue s1 else s1))"

definition worker_queue_scheduled_tasks ::
    "pylib \<Rightarrow> (string \<Rightarrow> string \<Rightarrow> bool) \<Rightarrow> 'r program \<Rightarrow> 'r redis \<Rightarrow> config \<Rightarrow> worker \<Rightarrow> 'r \<Rightarrow> worker \<times> 'r" where
  "worker_queue_scheduled_tasks L matches P R C W s =
     (let p = REDIS_PREFIX C; timeout = QUEUE_SCHEDULED_TASKS_TIME C;
          lock_name = tiger_key p [''lockv2'', ''queue_scheduled_tasks'', worker_group_name L W];
          (locked, s1) = (if timeout > 0 then apfst (\<lambda>token. token \<noteq> None) (r_lock_acquire R lock_name timeout s)
                          else (True, s))
      in if \<not> locked then (W, s1)
         else let queues = filter_queues W (retrieve_queues matches R W (state_key p SCHEDULED) s1);
                  (now, s2) = read_time P s1
              in fold (queue_due_tasks R C now) queues (W, s2))"

text \<open>
  One expired task. It is queued again if it may be retried on a timeout, else it becomes an error.
  If the task cannot be loaded and its data is gone, the entry is removed; that removal may raise.
\<close>

definition requeue_expired_task ::
    "pylib \<Rightarrow> 'r program \<Rightarrow> 'r redis \<Rightarrow> config \<Rightarrow> time \<Rightarrow> queue_name \<Rightarrow> task_id \<Rightarrow> 'r \<Rightarrow> unit result \<times> 'r" where
  "requeue_expired_task L P R C now queue i s =
     (let attempt =
        (case from_id L R C queue ACTIVE i 0 s of
           Inl e \<Rightarrow> (Inl e, s)
         | Inr T \<Rightarrow>
             (case (if should_retry_on (resolve_class P) (is_subclass P) T (exception_name JobTimeoutException)
                then move R C now (Some ACTIVE) (Some QUEUED) (Some now) (Some ''nx'') T s
                else move R C now (Some ACTIVE) (Some ERROR) (Some now) None T s) of
                (r, _, s') \<Rightarrow> (r, s')))
      in case attempt of
           (Inl (TaskNotFound i'), s1) \<Rightarrow>
             (case r_get R (task_key (REDIS_PREFIX C) i) s1 of
                None \<Rightarrow>
                  (case move R C now None None None None
                      (stored_task queue [(''id'', JStr i)] (Some ACTIVE) None []) s1 of
                     (r, _, s2) \<Rightarrow> (r, s2))
              | Some x \<Rightarrow>
                  if x = [] then
                    (case move R C now None None None None
                        (stored_task queue [(''id'', JStr i)] (Some ACTIVE) None []) s1 of
                       (r, _, s2) \<Rightarrow> (r, s2))
                  else (Inr (), s1))
         | _ \<Rightarrow> attempt)"

fun requeue_expired_tasks ::
    "pylib \<Rightarrow> 'r program \<Rightarrow> 'r redis \<Rightarrow> config \<Rightarrow> time \<Rightarrow> (queue_name \<times> task_id) list \<Rightarrow> 'r
      \<Rightarrow> unit result \<times> 'r" where
  "requeue_expired_tasks L P R C now [] s = (Inr (), s)"
| "requeue_expired_tasks L P R C now ((queue, i) # rest) s =
     bind_state (requeue_expired_task L P R C now queue i s)
       (\<lambda>_ s'. requeue_expired_tasks L P R C now rest s')"

definition worker_queue_expired_tasks ::
    "pylib \<Rightarrow> 'r program \<Rightarrow> 'r redis \<Rightarrow> config \<Rightarrow> worker \<Rightarrow> 'r \<Rightarrow> unit result \<times> worker \<times> 'r" where
  "worker_queue_expired_tasks L P R C W s =
     (let lock = tiger_key (REDIS_PREFIX C) [''lockv2'', ''queue_expired_tasks''] in
      case r_lock_acquire R lock (REQUEUE_EXPIRED_TASKS_INTERVAL C) s of
        (None, s1) \<Rightarrow> (Inr (), W, s1)
      | (Some token, s1) \<Rightarrow>
          (let (now, s2) = read_time P s1;
               batch = REQUEUE_EXPIRED_TASKS_BATCH_SIZE C;
               tasks = get_expired_tasks R (REDIS_PREFIX C) (now - ACTIVE_TASK_UPDATE_TIMEOUT C) batch s2;
               W' = (if tasks = [] then W else W\<lparr>did_work := True\<rparr>)
           in case requeue_expired_tasks L P R C now tasks s2 of
                (Inl e, s3) \<Rightarrow> (Inl e, W', s3)
              | (Inr _, s3) \<Rightarrow>
                  (Inr (), W',
                   if int (length tasks) = batch then snd (r_lock_release R lock token s3) else s3)))"

end
