(* ===== verification/Worker_Tasks.thy ===== *)
theory Worker_Tasks
  imports Workers
begin

text \<open>
  How the worker processes a queue: it moves tasks to the active state, locks and executes them in
  groups, and afterwards removes, reschedules or fails each of them (\<^verbatim>\<open>_process_from_queue\<close>,
  \<^verbatim>\<open>_process_queue_tasks\<close>, \<^verbatim>\<open>_execute_task_group\<close> and \<^verbatim>\<open>_finish_task_processing\<close>). The executor is a
  parameter with the interface of \<^verbatim>\<open>Executor\<close>; those of the library are in the theory Executors.
\<close>

record 'r executor =
  executor_execute ::
    "queue_name \<Rightarrow> task list \<Rightarrow> held_lock list \<Rightarrow> semaphore option \<Rightarrow> 'r \<Rightarrow> bool result \<times> 'r"
  exit_worker_on_job_timeout :: bool

definition sync_executor :: "pylib \<Rightarrow> 'r program \<Rightarrow> 'r redis \<Rightarrow> config \<Rightarrow> bool \<Rightarrow> 'r executor" where
  "sync_executor L P R C tracebacks =
     \<lparr>executor_execute = (\<lambda>queue Ts locks queue_lock. sync_execute L P R C tracebacks Ts),
      exit_worker_on_job_timeout = True\<rparr>"

subsection \<open>After the execution\<close>

text \<open>The last execution, if there is one.\<close>

definition last_execution :: "pylib \<Rightarrow> 'r redis \<Rightarrow> config \<Rightarrow> task_id \<Rightarrow> 'r \<Rightarrow> dict option result" where
  "last_execution L R C i s =
     (case r_lindex R (executions_key (REDIS_PREFIX C) i) (- 1) s of
        None \<Rightarrow> Inr None
      | Some x \<Rightarrow>
          if x = [] then Inr None
          else bind_result (loads_dict L x) (\<lambda>d. Inr (if d = [] then None else Some d)))"

definition execution_timed_out :: "dict option \<Rightarrow> bool result" where
  "execution_timed_out execution =
     (case execution of
        None \<Rightarrow> Inr False
      | Some d \<Rightarrow>
          (case dict_get d ''exception_name'' of
             None \<Rightarrow> Inl KeyError
           | Some v \<Rightarrow> Inr (v = JStr (exception_name JobTimeoutException))))"

text \<open>
  The method by which to retry and whether to log an error. An execution that asked for a retry
  (by raising \<^verbatim>\<open>RetryException\<close>) comes first: its own method, the task's, or the configured one.
  Otherwise the task's method applies if the task retries on the exception at hand.
\<close>

definition asked_retry ::
    "config \<Rightarrow> task \<Rightarrow> dict \<Rightarrow> ((string \<times> rat list) \<times> bool) result" where
  "asked_retry C T execution =
     bind_result
       (case dict_get execution ''retry_method'' of
          Some v \<Rightarrow> retry_method_of v
        | None \<Rightarrow> bind_result (retry_method T) (\<lambda>m.
            case m of Some m' \<Rightarrow> Inr m' | None \<Rightarrow> serialize_retry_method (DEFAULT_RETRY_METHOD C))) (\<lambda>m.
     case dict_get execution ''log_error'' of
       None \<Rightarrow> Inl KeyError
     | Some v \<Rightarrow> Inr (m, truthy v))"

definition retries_on_failure :: "'r program \<Rightarrow> task \<Rightarrow> dict option \<Rightarrow> bool result" where
  "retries_on_failure P T execution =
     (if retry_on T = [] then Inr True
      else case execution of
        None \<Rightarrow> Inr (should_retry_on (resolve_class P) (is_subclass P) T (exception_name JobTimeoutException))
      | Some d \<Rightarrow>
          bind_result (entry_string ''exception_name'' d) (\<lambda>n.
            case import_attribute (resolve_class P) n of
              Inl _ \<Rightarrow> Inr False
            | Inr c \<Rightarrow> Inr (should_retry_on (resolve_class P) (is_subclass P) T c)))"

definition retry_decision ::
    "'r program \<Rightarrow> config \<Rightarrow> task \<Rightarrow> dict option \<Rightarrow> ((string \<times> rat list) option \<times> bool) result" where
  "retry_decision P C T execution =
     (if \<exists>d \<in> set_option execution. truthy (get_default d ''retry'' JNull) then
        bind_result (asked_retry C T (the execution)) (\<lambda>(m, log_error).
        bind_result (retry_method T) (\<lambda>_. Inr (Some m, log_error)))
      else
        bind_result (retry_method T) (\<lambda>m.
        case m of
          None \<Rightarrow> Inr (None, True)
        | Some m' \<Rightarrow>
            bind_result (retries_on_failure P T execution) (\<lambda>b.
              Inr (if b then Some m' else None, True))))"

text \<open>
  The state and time of the task after its failure: scheduled after the delay that the method gives
  for the number of executions so far (at least one), or an error if there is to be no retry, the
  method cannot be imported, or it raises \<^verbatim>\<open>StopRetry\<close>.
\<close>

definition next_state ::
    "'r program \<Rightarrow> 'r redis \<Rightarrow> config \<Rightarrow> task \<Rightarrow> (string \<times> rat list) option \<Rightarrow> time \<Rightarrow> 'r
      \<Rightarrow> (task_state \<times> time) result" where
  "next_state P R C T decision now s =
     (case decision of
        None \<Rightarrow> Inr (ERROR, now)
      | Some (retry_func, retry_args) \<Rightarrow>
          bind_result (n_executions R C T s) (\<lambda>n.
          let retry_num = (if n = 0 then 1 else int n) in
          case import_attribute (resolve_retry P) retry_func of
            Inl _ \<Rightarrow> Inr (ERROR, now)
          | Inr func \<Rightarrow>
              (case func retry_num retry_args of
                 Inl StopRetry \<Rightarrow> Inr (ERROR, now)
               | Inl e \<Rightarrow> Inl e
               | Inr retry_delay \<Rightarrow> Inr (SCHEDULED, now + retry_delay))))"

definition finish_failed ::
    "'r program \<Rightarrow> 'r redis \<Rightarrow> config \<Rightarrow> task \<Rightarrow> dict option \<Rightarrow> time \<Rightarrow> task_state \<Rightarrow> time \<Rightarrow> bool \<Rightarrow> 'r
      \<Rightarrow> unit result \<times> 'r" where
  "finish_failed P R C T execution now state when log_error s =
     (if state = ERROR \<and> \<not> log_error then
        (case move R C now (Some ACTIVE) None None None T s of (r, _, s1) \<Rightarrow> (r, s1))
      else
        (case move R C now (Some ACTIVE) (Some state) (Some when) None T s of
           (Inl e, _, s1) \<Rightarrow> (Inl e, s1)
         | (Inr _, T', s1) \<Rightarrow>
             (case serialized_runner_class T' of
                None \<Rightarrow> (Inr (), s1)
              | Some c \<Rightarrow>
                  if state = ERROR \<and> c \<noteq> [] then
                    (case get_runner_class P [T'] of
                       Inl e \<Rightarrow> (Inl e, s1)
                     | Inr runner \<Rightarrow> on_permanent_error runner T' (map_option JObj execution) s1)
                  else (Inr (), s1))))"

definition finish_task_processing ::
    "pylib \<Rightarrow> 'r program \<Rightarrow> 'r redis \<Rightarrow> config \<Rightarrow> bool \<Rightarrow> task \<Rightarrow> bool \<Rightarrow> 'r \<Rightarrow> unit result \<times> 'r" where
  "finish_task_processing L P R C exit_on_timeout T success s =
     bind_state (bind_result (serialized_func T) (\<lambda>_. task_id T), s) (\<lambda>i s0.
     let (now, s1) = read_time P s0 in
     if success then (case move R C now (Some ACTIVE) None None None T s1 of (r, _, s2) \<Rightarrow> (r, s2))
     else
       bind_state (last_execution L R C i s1, s1) (\<lambda>execution s1.
       bind_state (execution_timed_out execution, s1) (\<lambda>timed_out s1.
       bind_state (retry_decision P C T execution, s1) (\<lambda>(decision, log_error) s1.
       bind_state (next_state P R C T decision now s1, s1) (\<lambda>(state, when) s1.
       bind_state (finish_failed P R C T execution now state when log_error s1) (\<lambda>_ s2.
         (if exit_on_timeout \<and> timed_out then Inl SystemExit else Inr (), s2)))))))"

subsection \<open>Executing a group\<close>

definition task_lock_id :: "pylib \<Rightarrow> task \<Rightarrow> string result" where
  "task_lock_id L T =
     bind_result (serialized_func T) (\<lambda>name.
       Inr (if lock_key T \<noteq> [] then
              gen_unique_id L name JNull (JObj (pick_keys (lock_key T) (task_kwargs T)))
            else gen_unique_id L name (JList (task_args T)) (JObj (task_kwargs T))))"

text \<open>
  The tasks that can run: those without a lock, and those whose lock is acquired, once for the
  group. A task whose lock is taken is scheduled again shortly, but not later than it was scheduled
  already.
\<close>

fun lock_tasks ::
    "pylib \<Rightarrow> 'r program \<Rightarrow> 'r redis \<Rightarrow> config \<Rightarrow> task list \<Rightarrow> string list \<Rightarrow> held_lock list \<Rightarrow> task list
      \<Rightarrow> 'r \<Rightarrow> (held_lock list \<times> task list) result \<times> 'r" where
  "lock_tasks L P R C [] lock_ids locks ready s = (Inr (locks, ready), s)"
| "lock_tasks L P R C (T # Ts) lock_ids locks ready s =
     (if \<not> has_lock T then lock_tasks L P R C Ts lock_ids locks (ready @ [T]) s
      else bind_state (task_lock_id L T, s) (\<lambda>lock_id s.
        if lock_id \<in> set lock_ids then lock_tasks L P R C Ts lock_ids locks (ready @ [T]) s
        else let k = tiger_key (REDIS_PREFIX C) [''lockv2'', lock_id] in
          case r_lock_acquire R k (ACTIVE_TASK_UPDATE_TIMEOUT C) s of
            (Some token, s1) \<Rightarrow>
              lock_tasks L P R C Ts (lock_ids @ [lock_id]) (locks @ [(k, token)]) (ready @ [T]) s1
          | (None, s1) \<Rightarrow>
              (let (now, s2) = read_time P s1 in
               case move R C now (Some ACTIVE) (Some SCHEDULED) (Some (now + LOCK_RETRY C)) (Some ''min'') T s2 of
                 (Inl e, _, s3) \<Rightarrow> (Inl e, s3)
               | (Inr _, _, s3) \<Rightarrow> lock_tasks L P R C Ts lock_ids locks ready s3)))"

text \<open>A periodic task is queued for its next period before it is executed.\<close>

definition prepare_execution ::
    "pylib \<Rightarrow> 'r program \<Rightarrow> 'r redis \<Rightarrow> config \<Rightarrow> (string \<times> task_func) list \<Rightarrow> int \<Rightarrow> task list \<Rightarrow> 'r
      \<Rightarrow> unit result \<times> 'r" where
  "prepare_execution L P R C periodic_task_funcs utcnow Ts s =
     bind_state (same_func Ts, s) (\<lambda>_ s.
     bind_state (serialized_func (hd Ts), s) (\<lambda>name s.
       if name \<in> fst ` set periodic_task_funcs then
         (let (now, s1) = read_time P s in
          apfst (map_sum id (\<lambda>_. ())) (queue_for_next_period L P R C utcnow now (hd Ts) s1))
       else (Inr (), s)))"

definition release_locks :: "'r redis \<Rightarrow> held_lock list \<Rightarrow> 'r \<Rightarrow> 'r" where
  "release_locks R locks s = fold (\<lambda>(k, token) s. snd (r_lock_release R k token s)) locks s"

definition execute_task_group ::
    "pylib \<Rightarrow> 'r program \<Rightarrow> 'r redis \<Rightarrow> config \<Rightarrow> 'r executor \<Rightarrow> (string \<times> task_func) list \<Rightarrow> int
      \<Rightarrow> queue_name \<Rightarrow> task list \<Rightarrow> semaphore option \<Rightarrow> 'r \<Rightarrow> (bool \<times> task list) result \<times> 'r" where
  "execute_task_group L P R C E periodic_task_funcs utcnow queue Ts queue_lock s =
     bind_state (lock_tasks L P R C Ts [] [] [] s) (\<lambda>(locks, ready) s1.
       if ready = [] then (Inr (True, []), s1)
       else
         bind_state (prepare_execution L P R C periodic_task_funcs utcnow ready s1) (\<lambda>_ s2.
         bind_state (executor_execute E queue ready locks queue_lock s2) (\<lambda>success s3.
           (Inr (success, ready), release_locks R locks s3))))"

subsection \<open>Processing a queue\<close>

text \<open>
  The tasks whose data was found, in order. An entry without data is removed; so is the task that
  the data names, if it is not the one of the entry.
\<close>

fun parse_tasks ::
    "pylib \<Rightarrow> 'r redis \<Rightarrow> config \<Rightarrow> queue_name \<Rightarrow> time \<Rightarrow> (task_id \<times> string option) list \<Rightarrow> 'r
      \<Rightarrow> task list result \<times> 'r" where
  "parse_tasks L R C queue now [] s = (Inr [], s)"
| "parse_tasks L R C queue now ((i, serialized_task) # rest) s =
     (if serialized_task = None \<or> serialized_task = Some [] then
        (case move R C now None None None None
            (stored_task queue [(''id'', JStr i)] (Some ACTIVE) (Some now) []) s of
           (Inl e, _, s1) \<Rightarrow> (Inl e, s1)
         | (Inr _, _, s1) \<Rightarrow> parse_tasks L R C queue now rest s1)
      else
        bind_state (loads_dict L (the serialized_task), s) (\<lambda>data s.
        let T = stored_task queue data (Some ACTIVE) (Some now) [] in
        bind_state (task_id T, s) (\<lambda>j s.
          if j \<noteq> i then
            (case move R C now None None None None T s of
               (Inl e, _, s1) \<Rightarrow> (Inl e, s1)
             | (Inr _, _, s1) \<Rightarrow> parse_tasks L R C queue now rest s1)
          else bind_state (parse_tasks L R C queue now rest s) (\<lambda>Ts s1. (Inr (T # Ts), s1)))))"

text \<open>Groups of tasks with the same function, in the order in which the functions occur.\<close>

fun add_to_group :: "string \<Rightarrow> 'a \<Rightarrow> (string \<times> 'a list) list \<Rightarrow> (string \<times> 'a list) list" where
  "add_to_group f x [] = [(f, [x])]"
| "add_to_group f x ((g, xs) # groups) =
     (if f = g then (g, xs @ [x]) # groups else (g, xs) # add_to_group f x groups)"

fun tasks_by_func :: "task list \<Rightarrow> (string \<times> task list) list \<Rightarrow> (string \<times> task list) list result" where
  "tasks_by_func [] groups = Inr groups"
| "tasks_by_func (T # Ts) groups =
     bind_result (serialized_func T) (\<lambda>f. tasks_by_func Ts (add_to_group f T groups))"

fun finish_tasks ::
    "pylib \<Rightarrow> 'r program \<Rightarrow> 'r redis \<Rightarrow> config \<Rightarrow> bool \<Rightarrow> bool \<Rightarrow> task list \<Rightarrow> 'r \<Rightarrow> unit result \<times> 'r" where
  "finish_tasks L P R C exit_on_timeout success [] s = (Inr (), s)"
| "finish_tasks L P R C exit_on_timeout success (T # Ts) s =
     bind_state (finish_task_processing L P R C exit_on_timeout T success s)
       (\<lambda>_ s'. finish_tasks L P R C exit_on_timeout success Ts s')"

fun process_groups ::
    "pylib \<Rightarrow> 'r program \<Rightarrow> 'r redis \<Rightarrow> config \<Rightarrow> 'r executor \<Rightarrow> (string \<times> task_func) list \<Rightarrow> int
      \<Rightarrow> queue_name \<Rightarrow> semaphore option \<Rightarrow> task list list \<Rightarrow> nat \<Rightarrow> 'r \<Rightarrow> nat result \<times> 'r" where
  "process_groups L P R C E funcs utcnow queue queue_lock [] n s = (Inr n, s)"
| "process_groups L P R C E funcs utcnow queue queue_lock (Ts # groups) n s =
     bind_state (execute_task_group L P R C E funcs utcnow queue Ts queue_lock s) (\<lambda>(success, done) s1.
     bind_state (finish_tasks L P R C (exit_worker_on_job_timeout E) success done s1) (\<lambda>_ s2.
       process_groups L P R C E funcs utcnow queue queue_lock groups (n + length done) s2))"

definition process_queue_tasks ::
    "pylib \<Rightarrow> 'r program \<Rightarrow> 'r redis \<Rightarrow> config \<Rightarrow> 'r executor \<Rightarrow> (string \<times> task_func) list \<Rightarrow> int
      \<Rightarrow> queue_name \<Rightarrow> semaphore option \<Rightarrow> task_id list \<Rightarrow> time \<Rightarrow> 'r \<Rightarrow> nat result \<times> 'r" where
  "process_queue_tasks L P R C E funcs utcnow queue queue_lock task_ids now s =
     (let serialized_tasks = map (\<lambda>i. r_get R (task_key (REDIS_PREFIX C) i) s) task_ids in
      bind_state (parse_tasks L R C queue now (zip task_ids serialized_tasks) s) (\<lambda>Ts s1.
      bind_state (tasks_by_func Ts [], s1) (\<lambda>groups s1.
        process_groups L P R C E funcs utcnow queue queue_lock (map snd groups) 0 s1)))"

text \<open>
  The tasks taken out of the queue and how many of them were processed, or \<open>- 1\<close> without the queue's
  lock. A unique task that is active already is scheduled for later.
\<close>

definition take_tasks ::
    "'r redis \<Rightarrow> config \<Rightarrow> queue_name \<Rightarrow> int \<Rightarrow> time \<Rightarrow> time \<Rightarrow> 'r \<Rightarrow> task_id list \<times> 'r" where
  "take_tasks R C queue batch_size now later s =
     (let p = REDIS_PREFIX C in
      zpoppush_exists_min_update_sets R (queue_key p QUEUED queue) (queue_key p ACTIVE queue)
        (state_key p QUEUED) (state_key p ACTIVE) (state_key p SCHEDULED) (queue_key p SCHEDULED queue)
        None batch_size now queue later s)"

definition process_from_queue ::
    "pylib \<Rightarrow> 'r program \<Rightarrow> 'r redis \<Rightarrow> config \<Rightarrow> 'r executor \<Rightarrow> (string \<times> task_func) list \<Rightarrow> int
      \<Rightarrow> worker \<Rightarrow> queue_name \<Rightarrow> 'r \<Rightarrow> (task_id list \<times> int) result \<times> 'r" where
  "process_from_queue L P R C E funcs utcnow W queue s =
     (let (now, s1) = read_time P s;
          batch_size = get_queue_batch_size C queue;
          ((queue_lock, failed), s2) = get_queue_lock P R C W queue s1
      in if failed then (Inr ([], - 1), s2)
         else
           let (now', s3) = read_time P s2;
               (task_ids, s4) = take_tasks R C queue batch_size now (now' + LOCK_RETRY C) s3
           in bind_state
                (if task_ids = [] then (Inr 0, s4)
                 else process_queue_tasks L P R C E funcs utcnow queue queue_lock task_ids now s4)
                (\<lambda>n s5. (Inr (task_ids, int n),
                   case queue_lock of None \<Rightarrow> s5 | Some S \<Rightarrow> release R S s5)))"

end
