(* ===== verification/Worker_Run.thy ===== *)
theory Worker_Run
  imports Worker_Tasks
begin

text \<open>
  The worker's loop: a run over its queues, the periodic tasks that it queues at its start, and the
  wait for messages between two runs (\<^verbatim>\<open>_worker_run\<close>, \<^verbatim>\<open>_queue_periodic_tasks\<close>, \<^verbatim>\<open>_pubsub_for_queues\<close>
  and \<^verbatim>\<open>run\<close>). The loops that last until something happens outside are functions of what they
  observe, round by round, and have no value if the observations end before the loop does.
\<close>

subsection \<open>One run\<close>

text \<open>\<open>stopped\<close> tells whether a signal has asked the worker to stop.\<close>

fun run_queues ::
    "pylib \<Rightarrow> 'r program \<Rightarrow> 'r redis \<Rightarrow> config \<Rightarrow> 'r executor \<Rightarrow> (string \<times> task_func) list \<Rightarrow> int
      \<Rightarrow> ('r \<Rightarrow> bool) \<Rightarrow> queue_name list \<Rightarrow> worker \<Rightarrow> 'r \<Rightarrow> unit result \<times> worker \<times> 'r" where
  "run_queues L P R C E funcs utcnow stopped [] W s = (Inr (), W, s)"
| "run_queues L P R C E funcs utcnow stopped (queue # queues) W s =
     (case process_from_queue L P R C E funcs utcnow W queue s of
        (Inl e, s1) \<Rightarrow> (Inl e, W, s1)
      | (Inr (task_ids, processed_count), s1) \<Rightarrow>
          let W1 = (if task_ids = [] \<and> processed_count \<noteq> - 1
                    then W\<lparr>queue_set := remove1 queue (queue_set W)\<rparr> else W);
              W2 = (if stopped s1 then W1\<lparr>stop_requested := True\<rparr> else W1)
          in if stop_requested W2 then (Inr (), W2, s1)
             else run_queues L P R C E funcs utcnow stopped queues
               (if processed_count > 0 then W2\<lparr>did_work := True\<rparr> else W2) s1)"

definition worker_run ::
    "pylib \<Rightarrow> (string \<Rightarrow> string \<Rightarrow> bool) \<Rightarrow> 'r program \<Rightarrow> 'r redis \<Rightarrow> config \<Rightarrow> 'r executor
      \<Rightarrow> (string \<times> task_func) list \<Rightarrow> int \<Rightarrow> ('r \<Rightarrow> bool) \<Rightarrow> (queue_name list \<Rightarrow> queue_name list)
      \<Rightarrow> worker \<Rightarrow> 'r \<Rightarrow> unit result \<times> worker \<times> 'r" where
  "worker_run L matches P R C E funcs utcnow stopped shuffle W s =
     (case run_queues L P R C E funcs utcnow stopped (shuffle (queue_set W)) W s of
        (Inl e, W1, s1) \<Rightarrow> (Inl e, W1, s1)
      | (Inr _, W1, s1) \<Rightarrow>
          let (now, s2) = read_time P s1 in
          if now - last_task_check W1 > SELECT_TIMEOUT C \<and> \<not> stop_requested W1 then
            let (W2, s3) = worker_queue_scheduled_tasks L matches P R C W1 s2 in
            (case worker_queue_expired_tasks L P R C W2 s3 of
               (Inl e, W3, s4) \<Rightarrow> (Inl e, W3, s4)
             | (Inr _, W3, s4) \<Rightarrow>
                 let (now', s5) = read_time P s4 in (Inr (), W3\<lparr>last_task_check := now'\<rparr>, s5))
          else (Inr (), W1, s2))"

subsection \<open>Periodic tasks\<close>

text \<open>Whether a task is queued, active or scheduled, with a score other than zero.\<close>

definition already_queued :: "'r redis \<Rightarrow> config \<Rightarrow> queue_name \<Rightarrow> task_id \<Rightarrow> 'r \<Rightarrow> bool" where
  "already_queued R C queue i s =
     list_ex (\<lambda>st. case r_zscore R (queue_key (REDIS_PREFIX C) st queue) i s of
         None \<Rightarrow> False | Some score \<Rightarrow> score \<noteq> 0) [QUEUED, ACTIVE, SCHEDULED]"

definition queue_periodic_task ::
    "pylib \<Rightarrow> 'r program \<Rightarrow> 'r redis \<Rightarrow> config \<Rightarrow> task_id \<Rightarrow> int \<Rightarrow> task_func \<Rightarrow> 'r \<Rightarrow> unit result \<times> 'r" where
  "queue_periodic_task L P R C fresh_id utcnow func s =
     bind_state (new_task L C fresh_id func [] [] no_options, s) (\<lambda>T s.
     bind_state (the_queue T, s) (\<lambda>queue s.
     bind_state (task_id T, s) (\<lambda>i s.
       if already_queued R C queue i s then (Inr (), s)
       else
         let (now, s1) = read_time P s
         in apfst (map_sum id (\<lambda>_. ())) (queue_for_next_period L P R C utcnow now T s1))))"

fun queue_periodic_funcs ::
    "pylib \<Rightarrow> 'r program \<Rightarrow> 'r redis \<Rightarrow> config \<Rightarrow> task_id \<Rightarrow> int \<Rightarrow> task_func list \<Rightarrow> 'r \<Rightarrow> unit result \<times> 'r" where
  "queue_periodic_funcs L P R C fresh_id utcnow [] s = (Inr (), s)"
| "queue_periodic_funcs L P R C fresh_id utcnow (func # funcs) s =
     bind_state (queue_periodic_task L P R C fresh_id utcnow func s)
       (\<lambda>_ s'. queue_periodic_funcs L P R C fresh_id utcnow funcs s')"

definition queue_periodic_tasks ::
    "pylib \<Rightarrow> 'r program \<Rightarrow> 'r redis \<Rightarrow> config \<Rightarrow> (string \<times> task_func) list \<Rightarrow> task_id \<Rightarrow> int
      \<Rightarrow> worker \<Rightarrow> 'r \<Rightarrow> unit result \<times> 'r" where
  "queue_periodic_tasks L P R C periodic_task_funcs fresh_id utcnow W s =
     queue_periodic_funcs L P R C fresh_id utcnow
       (filter (\<lambda>f. worker_includes W (queue_from_function C f)) (map snd periodic_task_funcs)) s"

subsection \<open>Waiting for messages\<close>

text \<open>
  A round of the wait: the messages that arrive, each with the time of its processing, and the two
  readings of the clock that decide whether to go on.
\<close>

record pubsub_round =
  messages :: "(queue_name \<times> time) list"
  batch_time :: time
  timeout_time :: time

fun process_messages ::
    "time \<Rightarrow> time \<Rightarrow> time \<Rightarrow> (queue_name \<times> time) list \<Rightarrow> bool \<times> time \<times> worker \<Rightarrow> bool \<times> time \<times> worker" where
  "process_messages start_time timeout batch_timeout [] state = state"
| "process_messages start_time timeout batch_timeout ((q, now) # ms) (new_queue_found, batch_exit, W) =
     process_messages start_time timeout batch_timeout ms
       (process_queue_message W q new_queue_found batch_exit start_time timeout batch_timeout now)"

fun pubsub_loop ::
    "time \<Rightarrow> time \<Rightarrow> time \<Rightarrow> pubsub_round list \<Rightarrow> bool \<times> time \<times> worker \<Rightarrow> worker option" where
  "pubsub_loop start_time timeout batch_timeout [] state = None"
| "pubsub_loop start_time timeout batch_timeout (r # rounds) state =
     (let (found, batch_exit, W) = process_messages start_time timeout batch_timeout (messages r) state in
      if did_work W then Some W
      else if batch_time r \<ge> batch_exit \<and> found then Some W
      else if timeout_time r - start_time > timeout then Some W
      else pubsub_loop start_time timeout batch_timeout rounds (found, batch_exit, W))"

definition pubsub_for_queues ::
    "time \<Rightarrow> time \<Rightarrow> time \<Rightarrow> pubsub_round list \<Rightarrow> worker \<Rightarrow> worker option" where
  "pubsub_for_queues start_time timeout batch_timeout rounds W =
     pubsub_loop start_time timeout batch_timeout rounds (False, start_time, W)"

subsection \<open>The main loop\<close>

text \<open>
  A request to stop ends the loop by raising \<^verbatim>\<open>KeyboardInterrupt\<close>, which the loop swallows; so it does
  with one that the code of a task raises. Any other exception goes to the caller.

  What an iteration observes: when it starts to wait and the rounds of the wait, the order in which
  the queues come out of the shuffle, the datetime, and whether the time to exit has passed.
\<close>

record iteration =
  wait_start :: time
  wait_rounds :: "pubsub_round list"
  queue_order :: "queue_name list \<Rightarrow> queue_name list"
  utc_time :: int
  past_exit :: bool

definition wait_for_queues ::
    "(string \<Rightarrow> string \<Rightarrow> bool) \<Rightarrow> 'r redis \<Rightarrow> config \<Rightarrow> iteration \<Rightarrow> worker \<Rightarrow> 'r \<Rightarrow> worker option" where
  "wait_for_queues matches R C it W s =
     (if POLL_TASK_QUEUES_INTERVAL C \<noteq> 0 then Some (refresh_queue_set matches R C W s)
      else pubsub_for_queues (wait_start it) (SELECT_TIMEOUT C) (SELECT_BATCH_TIMEOUT C) (wait_rounds it) W)"

fun run_loop ::
    "pylib \<Rightarrow> (string \<Rightarrow> string \<Rightarrow> bool) \<Rightarrow> 'r program \<Rightarrow> 'r redis \<Rightarrow> config \<Rightarrow> 'r executor
      \<Rightarrow> (string \<times> task_func) list \<Rightarrow> ('r \<Rightarrow> bool) \<Rightarrow> bool \<Rightarrow> bool \<Rightarrow> iteration list \<Rightarrow> worker \<Rightarrow> 'r
      \<Rightarrow> (unit result \<times> worker \<times> 'r) option" where
  "run_loop L matches P R C E funcs stopped once force_once [] W s = None"
| "run_loop L matches P R C E funcs stopped once force_once (it # its) W s =
     (case wait_for_queues matches R C it W s of
        None \<Rightarrow> None
      | Some W0 \<Rightarrow>
          (case worker_run L matches P R C E funcs (utc_time it) stopped (queue_order it)
              (W0\<lparr>did_work := False\<rparr>) s of
             (Inl e, W1, s1) \<Rightarrow> Some (if e = KeyboardInterrupt then Inr () else Inl e, W1, s1)
           | (Inr _, W1, s1) \<Rightarrow>
               if once \<and> (queue_set W1 = [] \<or> force_once) then Some (Inr (), W1, s1)
               else if past_exit it then Some (Inr (), W1, s1)
               else if stop_requested W1 then Some (Inr (), W1, s1)
               else run_loop L matches P R C E funcs stopped once force_once its W1 s1))"

definition worker_main ::
    "pylib \<Rightarrow> (string \<Rightarrow> string \<Rightarrow> bool) \<Rightarrow> 'r program \<Rightarrow> 'r redis \<Rightarrow> config \<Rightarrow> 'r executor
      \<Rightarrow> (string \<times> task_func) list \<Rightarrow> task_id \<Rightarrow> int \<Rightarrow> ('r \<Rightarrow> bool) \<Rightarrow> bool \<Rightarrow> bool \<Rightarrow> iteration list
      \<Rightarrow> worker \<Rightarrow> 'r \<Rightarrow> (unit result \<times> worker \<times> 'r) option" where
  "worker_main L matches P R C E funcs fresh_id utcnow stopped once force_once its W s =
     (case queue_periodic_tasks L P R C funcs fresh_id utcnow W s of
        (Inl e, s1) \<Rightarrow> Some (Inl e, W, s1)
      | (Inr _, s1) \<Rightarrow>
          run_loop L matches P R C E funcs stopped once force_once its
            (refresh_queue_set matches R C W s1) s1)"

end
