(* ===== verification/Task_Tiger.thy ===== *)
theory Task_Tiger
  imports Worker_Run
begin

text \<open>
  The remaining operations of the class \<^verbatim>\<open>TaskTiger\<close> (\<^verbatim>\<open>tasktiger/tasktiger.py\<close>): queueing a function,
  what it tells about queues and about the current task, system locks, and the purge of failed
  tasks.
\<close>

subsection \<open>The current task\<close>

text \<open>The global context, as \<^verbatim>\<open>execute_tasks\<close> sets it while the application's code runs.\<close>

record task_context =
  g_current_task_is_batch :: "bool option"
  g_current_tasks :: "task list option"

definition within_tasks :: "task list \<Rightarrow> bool \<Rightarrow> task_context" where
  "within_tasks Ts b = \<lparr>g_current_task_is_batch = Some b, g_current_tasks = Some Ts\<rparr>"

definition no_task :: task_context where
  "no_task = \<lparr>g_current_task_is_batch = None, g_current_tasks = None\<rparr>"

definition current_task :: "task_context \<Rightarrow> task result" where
  "current_task g =
     (case g_current_tasks g of
        None \<Rightarrow> Inl RuntimeError
      | Some Ts \<Rightarrow>
          if g_current_task_is_batch g = Some True then Inl RuntimeError
          else case Ts of [] \<Rightarrow> Inl IndexError | T # _ \<Rightarrow> Inr T)"

definition current_tasks :: "task_context \<Rightarrow> task list result" where
  "current_tasks g =
     (case g_current_tasks g of
        None \<Rightarrow> Inl RuntimeError
      | Some Ts \<Rightarrow> if g_current_task_is_batch g \<noteq> Some True then Inl RuntimeError else Inr Ts)"

definition current_serialized_func :: "task_context \<Rightarrow> string result" where
  "current_serialized_func g =
     (case g_current_tasks g of
        None \<Rightarrow> Inl RuntimeError
      | Some [] \<Rightarrow> Inl IndexError
      | Some (T # _) \<Rightarrow> serialized_func T)"

definition current_task_is_batch :: "task_context \<Rightarrow> bool result" where
  "current_task_is_batch g =
     (case g_current_task_is_batch g of None \<Rightarrow> Inl RuntimeError | Some b \<Rightarrow> Inr b)"

text \<open>The \<^verbatim>\<open>structlog\<close> processor of \<^verbatim>\<open>logging.py\<close>, which adds the current task to an event.\<close>

definition tasktiger_processor :: "task_context \<Rightarrow> dict \<Rightarrow> dict result" where
  "tasktiger_processor g event_dict =
     (case g_current_tasks g of
        None \<Rightarrow> Inr event_dict
      | Some Ts \<Rightarrow>
          if g_current_task_is_batch g = Some True then Inr event_dict
          else case Ts of
            [] \<Rightarrow> Inl IndexError
          | T # _ \<Rightarrow>
              bind_result (task_id T) (\<lambda>i.
              bind_result (serialized_func T) (\<lambda>name.
              bind_result (the_queue T) (\<lambda>queue.
                Inr (dict_set ''queue'' (JStr queue) (dict_set ''task_func'' (JStr name)
                  (dict_set ''task_id'' (JStr i) event_dict)))))))"

subsection \<open>Queueing a function\<close>

text \<open>The limit on the queue's size applies to this call only and is not stored with the task.\<close>

definition tiger_delay ::
    "pylib \<Rightarrow> 'r program \<Rightarrow> 'r redis \<Rightarrow> config \<Rightarrow> task_id \<Rightarrow> int \<Rightarrow> time \<Rightarrow> task_func \<Rightarrow> json list \<Rightarrow> dict
      \<Rightarrow> when_arg \<Rightarrow> task_options \<Rightarrow> 'r \<Rightarrow> task result \<times> 'r" where
  "tiger_delay L P R C fresh_id utcnow now func args kwargs w opts s =
     (case new_task L C fresh_id func args kwargs (opts\<lparr>max_queue_size_arg := None\<rparr>) of
        Inl e \<Rightarrow> (Inl e, s)
      | Inr T \<Rightarrow>
          (case delay L P R C utcnow now w (max_queue_size_arg opts) T s of
             (Inl e, _, s') \<Rightarrow> (Inl e, s')
           | (Inr _, T', s') \<Rightarrow> (Inr T', s')))"

subsection \<open>Queues\<close>

definition get_sizes_for_queues_and_states ::
    "'r redis \<Rightarrow> config \<Rightarrow> (queue_name \<times> task_state) list \<Rightarrow> 'r \<Rightarrow> nat list" where
  "get_sizes_for_queues_and_states R C queues_and_states s =
     map (\<lambda>(queue, state). r_zcard R (queue_key (REDIS_PREFIX C) state queue) s) queues_and_states"

definition get_queue_system_lock :: "'r redis \<Rightarrow> config \<Rightarrow> queue_name \<Rightarrow> 'r \<Rightarrow> time option" where
  "get_queue_system_lock R C queue s = get_system_lock R (tiger_key (REDIS_PREFIX C) [''qslock'', queue]) s"

definition set_queue_system_lock :: "'r redis \<Rightarrow> config \<Rightarrow> queue_name \<Rightarrow> int \<Rightarrow> time \<Rightarrow> 'r \<Rightarrow> 'r" where
  "set_queue_system_lock R C queue timeout now s =
     set_system_lock R (tiger_key (REDIS_PREFIX C) [''qslock'', queue]) timeout now s"

definition would_process_configured_queue :: "config \<Rightarrow> queue_name \<Rightarrow> bool" where
  "would_process_configured_queue C queue = queue_included (ONLY_QUEUES C) (EXCLUDE_QUEUES C) queue"

text \<open>
  The statistics: the queues of each state come from one round trip, their sizes from a second one,
  as a flat list that the last loop takes apart again in the same order.
\<close>

definition add_stat ::
    "queue_name \<Rightarrow> task_state \<Rightarrow> nat \<Rightarrow> (queue_name \<Rightarrow> task_state \<Rightarrow> nat option)
      \<Rightarrow> queue_name \<Rightarrow> task_state \<Rightarrow> nat option" where
  "add_stat queue state n stats = stats(queue := (stats queue)(state \<mapsto> n))"

fun assign_cards ::
    "(task_state \<times> queue_name) list \<Rightarrow> nat list \<Rightarrow> (queue_name \<Rightarrow> task_state \<Rightarrow> nat option)
      \<Rightarrow> (queue_name \<Rightarrow> task_state \<Rightarrow> nat option) result" where
  "assign_cards [] card_results stats = Inr stats"
| "assign_cards ((state, queue) # pairs) card_results stats =
     (case card_results of
        [] \<Rightarrow> Inl IndexError
      | n # card_results' \<Rightarrow> assign_cards pairs card_results' (add_stat queue state n stats))"

definition get_queue_stats ::
    "'r redis \<Rightarrow> config \<Rightarrow> 'r \<Rightarrow> (queue_name \<Rightarrow> task_state \<Rightarrow> nat option) result" where
  "get_queue_stats R C s =
     (let p = REDIS_PREFIX C;
          states = [QUEUED, ACTIVE, SCHEDULED, ERROR];
          queue_results = map (\<lambda>state. r_smembers R (state_key p state) s) states;
          pairs = concat (map (\<lambda>(state, result). map (Pair state) result) (zip states queue_results));
          card_results = map (\<lambda>(state, queue). r_zcard R (queue_key p state queue) s) pairs
      in assign_cards pairs card_results (\<lambda>_ _. None))"

subsection \<open>Purging failed tasks\<close>

text \<open>
  The tasks of a page are deleted one by one, those that failed too recently are skipped, and the
  whole purge stops at the limit. The number of tasks purged so far is threaded through; the flag
  tells that the limit was reached.
\<close>

fun purge_tasks ::
    "'r program \<Rightarrow> 'r redis \<Rightarrow> config \<Rightarrow> time option \<Rightarrow> int option \<Rightarrow> task list \<Rightarrow> int \<Rightarrow> 'r
      \<Rightarrow> (int \<times> bool) result \<times> 'r" where
  "purge_tasks P R C last_execution_before limit [] n s = (Inr (n, False), s)"
| "purge_tasks P R C last_execution_before limit (T # Ts) n s =
     (if \<exists>before \<in> set_option last_execution_before. \<exists>ts \<in> set_option (t_ts T). before < ts
      then purge_tasks P R C last_execution_before limit Ts n s
      else
        let (now, s1) = read_time P s in
        case delete R C now T s1 of
          (Inl e, _, s2) \<Rightarrow> (Inl e, s2)
        | (Inr _, _, s2) \<Rightarrow>
            if \<exists>m \<in> set_option limit. m \<le> n + 1 then (Inr (n + 1, True), s2)
            else purge_tasks P R C last_execution_before limit Ts (n + 1) s2)"

text \<open>
  The pages of a queue: the loop runs while the entries skipped are fewer than the queue held when
  the page before was loaded. Tasks are deleted while it goes on. The number of pages to read is
  bounded by fuel.
\<close>

fun purge_pages ::
    "pylib \<Rightarrow> 'r program \<Rightarrow> 'r redis \<Rightarrow> config \<Rightarrow> time option \<Rightarrow> int option \<Rightarrow> int \<Rightarrow> queue_name
      \<Rightarrow> nat \<Rightarrow> int \<Rightarrow> int option \<Rightarrow> int \<Rightarrow> 'r \<Rightarrow> ((int \<times> bool) result \<times> 'r) option" where
  "purge_pages L P R C before limit task_limit queue 0 skip total_tasks n s = None"
| "purge_pages L P R C before limit task_limit queue (Suc fuel) skip total_tasks n s =
     (if \<exists>total' \<in> set_option total_tasks. total' \<le> skip then Some (Inr (n, False), s)
      else
        case tasks_from_queue L R C queue ERROR skip task_limit 0 True s of
          Inl e \<Rightarrow> Some (Inl e, s)
        | Inr (total', tasks) \<Rightarrow>
            (case purge_tasks P R C before limit tasks n s of
               (Inl e, s1) \<Rightarrow> Some (Inl e, s1)
             | (Inr (n', stop), s1) \<Rightarrow>
                 if stop then Some (Inr (n', True), s1)
                 else purge_pages L P R C before limit task_limit queue fuel (skip + task_limit)
                   (Some (int total')) n' s1))"

fun purge_queues ::
    "pylib \<Rightarrow> 'r program \<Rightarrow> 'r redis \<Rightarrow> config \<Rightarrow> queue_name list \<Rightarrow> queue_name list \<Rightarrow> time option
      \<Rightarrow> int option \<Rightarrow> nat \<Rightarrow> queue_name list \<Rightarrow> int \<Rightarrow> 'r \<Rightarrow> (int result \<times> 'r) option" where
  "purge_queues L P R C only excl before limit fuel [] n s = Some (Inr n, s)"
| "purge_queues L P R C only excl before limit fuel (queue # queues) n s =
     (if \<not> queue_included only excl queue then purge_queues L P R C only excl before limit fuel queues n s
      else
        case purge_pages L P R C before limit 5000 queue fuel 0 None n s of
          None \<Rightarrow> None
        | Some (Inl e, s1) \<Rightarrow> Some (Inl e, s1)
        | Some (Inr (n', stop), s1) \<Rightarrow>
            if stop then Some (Inr n', s1)
            else purge_queues L P R C only excl before limit fuel queues n' s1)"

definition purge_errored_tasks ::
    "pylib \<Rightarrow> 'r program \<Rightarrow> 'r redis \<Rightarrow> config \<Rightarrow> nat \<Rightarrow> queue_name list option \<Rightarrow> queue_name list option
      \<Rightarrow> time option \<Rightarrow> int option \<Rightarrow> 'r \<Rightarrow> (int result \<times> 'r) option" where
  "purge_errored_tasks L P R C fuel queues exclude last_execution_before limit s =
     (if \<exists>m \<in> set_option limit. m \<le> 0 then Some (Inl AssertionError, s)
      else purge_queues L P R C (queues_or queues (ONLY_QUEUES C)) (queues_or exclude (EXCLUDE_QUEUES C))
        last_execution_before limit fuel (r_smembers R (state_key (REDIS_PREFIX C) ERROR) s) 0 s)"

subsection \<open>Migration of the counters\<close>

text \<open>
  \<^verbatim>\<open>migrate_executions_count\<close> (\<^verbatim>\<open>tasktiger/migrations.py\<close>): the keys are those that the server's scan
  for the pattern yields; the script raises a counter that is behind the list.
\<close>

definition migrate_task_script :: "'r redis \<Rightarrow> key \<Rightarrow> key \<Rightarrow> 'r \<Rightarrow> 'r" where
  "migrate_task_script R k counter s =
     (let count = r_llen R k s in
      if (case r_get R counter s of None \<Rightarrow> 0 | Some x \<Rightarrow> nat_of_dec x) < count
      then r_set R counter (dec_of_nat count) s else s)"

definition migrate_match :: "config \<Rightarrow> string" where
  "migrate_match C = redis_glob_escape (REDIS_PREFIX C) @ '':task:*:executions''"

definition migrate_executions_count :: "'r redis \<Rightarrow> key list \<Rightarrow> 'r \<Rightarrow> 'r" where
  "migrate_executions_count R keys s =
     fold (\<lambda>k. migrate_task_script R k (k @ ''_count'')) keys s"

end
