(* ===== verification/Worker_Closure.thy ===== *)
theory Worker_Closure
  imports Worker_Run
begin

text \<open>
  What a worker does to the server is made of a few operations: it reads the clock, queues, moves and
  takes tasks, publishes, records executions, and acquires and releases locks. The locale
  \<open>worker_closure\<close> is this interface: whatever property of the server's state these operations keep,
  every operation of the worker keeps it, up to its main loop. The locale \<open>fork_closure\<close> adds what
  heartbeats do. Worker_Laws and Worker_Traces interpret both.
\<close>

subsection \<open>Keeping a property\<close>

definition keeps :: "('r \<Rightarrow> bool) \<Rightarrow> ('r \<Rightarrow> 'a \<times> 'r) \<Rightarrow> bool" where
  "keeps G f \<longleftrightarrow> (\<forall>s. G s \<longrightarrow> G (snd (f s)))"

lemma keepsD: "keeps G f \<Longrightarrow> f s = (x, s') \<Longrightarrow> G s \<Longrightarrow> G s'"
  by (metis keeps_def snd_conv)

text \<open>Locks are those that were acquired, so releasing them touches no other key.\<close>

definition lock_keys :: "string \<Rightarrow> held_lock list \<Rightarrow> bool" where
  "lock_keys p locks \<longleftrightarrow> (\<forall>(k, token) \<in> set locks. \<exists>parts. k = tiger_key p (''lockv2'' # parts))"

definition queue_slot :: "config \<Rightarrow> semaphore option \<Rightarrow> bool" where
  "queue_slot C queue_lock \<longleftrightarrow> queue_lock = None \<or> (\<exists>W q n. queue_lock = Some (queue_semaphore C W q n))"

lemma queue_slot_simps [simp]: "queue_slot C None" "queue_slot C (Some (queue_semaphore C W q n))"
  by (auto simp: queue_slot_def)

text \<open>
  What the application must do: its code keeps the property, while tasks whose identifiers came from
  the server (\<open>known\<close>) are executed under the worker's locks, and when it is told of a permanent error.
\<close>

definition known_tasks :: "(task_id \<Rightarrow> bool) \<Rightarrow> task list \<Rightarrow> bool" where
  "known_tasks known Ts \<longleftrightarrow> (\<forall>T \<in> set Ts. \<exists>i. task_id T = Inr i \<and> known i)"

definition application_keeps ::
    "('r \<Rightarrow> bool) \<Rightarrow> (task_id \<Rightarrow> bool) \<Rightarrow> config \<Rightarrow> 'r program \<Rightarrow> 'r executor \<Rightarrow> bool" where
  "application_keeps G known C P E \<longleftrightarrow>
     (\<forall>queue Ts locks queue_lock.
       known_tasks known Ts \<and> lock_keys (REDIS_PREFIX C) locks \<and> queue_slot C queue_lock \<longrightarrow>
       keeps G (executor_execute E queue Ts locks queue_lock)) \<and>
     (\<forall>m a runner T execution. resolve_runner P m a = Some runner \<longrightarrow>
       keeps G (on_permanent_error runner T execution))"

definition program_keeps :: "('r \<Rightarrow> bool) \<Rightarrow> 'r program \<Rightarrow> bool" where
  "program_keeps G P \<longleftrightarrow>
     (\<forall>timeout func args kwargs. keeps G (call_func P timeout func args kwargs)) \<and>
     (\<forall>timeout func params. keeps G (call_batch P timeout func params)) \<and>
     (\<forall>m a runner. resolve_runner P m a = Some runner \<longrightarrow>
       (\<forall>T timeout. keeps G (run_single_task runner T timeout)) \<and>
       (\<forall>Ts timeout. keeps G (run_batch_tasks runner Ts timeout)) \<and>
       (\<forall>T execution. keeps G (on_permanent_error runner T execution)))"

declare loads_dict.simps [simp del]

lemma stored_fields_simps [simp]:
  "t_state (stored_task q d st ts xs) = st"
  by (simp_all add: stored_task_def)

lemma known_tasks_simps [simp]:
  "known_tasks known []"
  "known_tasks known (T # Ts) \<longleftrightarrow> (\<exists>i. task_id T = Inr i \<and> known i) \<and> known_tasks known Ts"
  "known_tasks known (Ts @ Ts') \<longleftrightarrow> known_tasks known Ts \<and> known_tasks known Ts'"
  by (auto simp: known_tasks_def)

lemma bind_state_keeps:
  assumes "bind_state x f = (r, s')" "\<And>y t. x = (y, t) \<Longrightarrow> G t"
    and "\<And>y t r' t'. x = (Inr y, t) \<Longrightarrow> f y t = (r', t') \<Longrightarrow> G t \<Longrightarrow> G t'"
  shows "G s'"
  using assms by (cases x; cases "fst x") auto

lemma apfst_eq_pair: "apfst g x = (a, b) \<longleftrightarrow> (\<exists>y. x = (y, b) \<and> g y = a)"
  by (cases x) auto

lemma renewed_clone_id:
  assumes "renewed_clone L P T = Inr T'" "pylib_ok L"
  obtains i where "task_id T' = Inr i" "colon_free i"
  using assms that
  by (auto simp: renewed_clone_def bind_result_Inr_iff task_id_def entry_string_def)

lemma get_runner_class_cases:
  assumes "get_runner_class P Ts = Inr runner"
  obtains "runner = default_runner P" | m a where "resolve_runner P m a = Some runner"
  using assms
  by (auto simp: get_runner_class_def import_attribute_def bind_result_Inr_iff
      split: list.splits option.splits if_splits prod.splits)

lemma stop_retry_case:
  "(case x of Inl StopRetry \<Rightarrow> a | Inl e \<Rightarrow> Inl e | Inr d \<Rightarrow> b d) =
    (case x of Inl e \<Rightarrow> if e = StopRetry then a else Inl e | Inr d \<Rightarrow> b d)"
  by (simp split: sum.split exn.split)

lemmas next_state_eq = next_state_def [unfolded stop_retry_case]

lemma next_state_final:
  "next_state P R C T decision now s = Inr (st, w) \<Longrightarrow> st = ERROR \<or> st = SCHEDULED"
proof (cases decision)
  case (Some m)
  obtain f xs where m: "m = (f, xs)" by (cases m)
  assume state: "next_state P R C T decision now s = Inr (st, w)"
  show ?thesis
  proof (cases "import_attribute (resolve_retry P) f")
    case (Inr func)
    obtain n where n: "n_executions R C T s = Inr n"
      using state Some m by (auto simp: next_state_eq bind_result_Inr_iff)
    show ?thesis
      using state Some m n Inr by (cases "func (if n = 0 then 1 else int n) xs") (auto simp: next_state_eq Let_def split: if_splits)
  qed (use state Some m in \<open>auto simp: next_state_eq bind_result_Inr_iff\<close>)
qed (simp add: next_state_def)

lemma queue_time_state: "queue_time ts now = (t, st) \<Longrightarrow> st = QUEUED \<or> st = SCHEDULED"
  by (auto simp: queue_time_def split: option.splits if_splits)

lemma lock_tasks_keys:
  "lock_tasks L P R C Ts lock_ids locks ready s = (Inr (locks', ready'), s') \<Longrightarrow>
    lock_keys (REDIS_PREFIX C) locks \<Longrightarrow> lock_keys (REDIS_PREFIX C) locks'"
proof (induction Ts arbitrary: lock_ids locks ready s)
  case (Cons T Ts)
  have more: "lock_keys (REDIS_PREFIX C) (locks @ [(tiger_key (REDIS_PREFIX C) [''lockv2'', lock_id], token)])"
    for lock_id token
    using Cons.prems(2) by (auto simp: lock_keys_def)
  from Cons.prems Cons.IH Cons.IH [OF _ more] show ?case
    by (fastforce simp: bind_state_Inr_iff Let_def split: if_splits prod.splits option.splits sum.splits)
qed simp

lemma get_queue_lock_slot: "get_queue_lock P R C W q s = ((queue_lock, failed), s') \<Longrightarrow> queue_slot C queue_lock"
  by (auto simp: get_queue_lock_def Let_def split: option.splits if_splits prod.splits)

text \<open>The tasks that can run are among those of the group.\<close>

lemma lock_tasks_known:
  "lock_tasks L P R C Ts lock_ids locks ready s = (Inr (locks', ready'), s') \<Longrightarrow>
    known_tasks known Ts \<Longrightarrow> known_tasks known ready \<Longrightarrow> known_tasks known ready'"
proof (induction Ts arbitrary: lock_ids locks ready s)
  case (Cons T Ts)
  have "known_tasks known (ready @ [T])" using Cons.prems(2,3) by simp
  with Cons.prems Cons.IH show ?case
    by (fastforce simp: bind_state_Inr_iff Let_def split: if_splits prod.splits option.splits sum.splits)
qed simp

lemma tasks_by_func_known:
  "tasks_by_func Ts groups = Inr groups' \<Longrightarrow> known_tasks known Ts \<Longrightarrow>
    \<forall>Ts' \<in> set (map snd groups). known_tasks known Ts' \<Longrightarrow> \<forall>Ts' \<in> set (map snd groups'). known_tasks known Ts'"
proof (induction Ts arbitrary: groups)
  case (Cons T Ts)
  have "\<forall>Ts' \<in> set (map snd (add_to_group f T groups)). known_tasks known Ts'" for f
    using Cons.prems(2,3) by (induction f T groups rule: add_to_group.induct) auto
  with Cons show ?case by (auto simp: bind_result_Inr_iff)
qed simp

subsection \<open>Code of the application\<close>

lemma keeps_ignore_value: "keeps G f \<Longrightarrow> keeps G (\<lambda>s. ignore_value (f s))"
  by (simp add: keeps_def ignore_value_def)

lemma keeps_raise: "keeps G (Pair x)"
  by (simp add: keeps_def)

lemma keeps_default:
  assumes "program_keeps G P"
  shows "keeps G (default_single P T timeout)" "keeps G (default_batch P Ts timeout)"
proof -
  have call: "keeps G (call_func P t func args kwargs)" "keeps G (call_batch P t func params)"
    for t func args kwargs params
    using assms by (simp_all add: program_keeps_def)
  show "keeps G (default_single P T timeout)"
    using keeps_ignore_value [OF call(1)]
    by (cases "func_of P T") (simp_all add: default_single_def [abs_def] keeps_raise)
  show "keeps G (default_batch P Ts timeout)"
  proof (cases Ts)
    case (Cons T Ts')
    then show ?thesis
      using keeps_ignore_value [OF call(2)]
      by (cases "func_of P T") (simp_all add: default_batch_def [abs_def] keeps_raise)
  qed (simp add: default_batch_def [abs_def] keeps_raise)
qed

lemma keeps_runner:
  assumes "program_keeps G P" "get_runner_class P Ts = Inr runner"
  shows "keeps G (run_single_task runner T timeout) \<and> keeps G (run_batch_tasks runner Ts' timeout)"
  using assms(2)
proof (cases rule: get_runner_class_cases)
  case 1
  then show ?thesis using keeps_default [OF assms(1)] by (simp add: default_runner_def)
next
  case 2
  then show ?thesis using assms(1) unfolding program_keeps_def by blast
qed

lemmas keeps_runnerD = keeps_runner [THEN conjunct1, THEN keepsD] keeps_runner [THEN conjunct2, THEN keepsD]

lemma run_single_tasks_keeps:
  assumes "program_keeps G P" "get_runner_class P Ts = Inr runner"
  shows "run_single_tasks runner jobs s = (r, s') \<Longrightarrow> G s \<Longrightarrow> G s'"
proof (induction jobs arbitrary: s r s')
  case (Cons job jobs)
  then show ?case
    by (cases job) (auto elim!: bind_state_keeps intro: keeps_runnerD(1) [OF assms])
qed simp

lemma run_tasks_keeps:
  assumes "program_keeps G P" "run_tasks P C Ts s = (r, s')" "G s"
  shows "G s'"
  using assms(2,3) unfolding run_tasks_def Let_def
  by (auto split: sum.splits if_splits intro: keeps_runnerD(2) [OF assms(1)] run_single_tasks_keeps [OF assms(1)])

lemma known_tasks_ids: "map_result task_id Ts = Inr ids \<Longrightarrow> known_tasks known Ts \<Longrightarrow> \<forall>i \<in> set ids. known i"
  by (induction Ts arbitrary: ids) (auto simp: bind_result_Inr_iff)

subsection \<open>The interface\<close>

text \<open>
  \<open>known\<close> is what the identifiers that the server gives out satisfy; it may depend on nothing else.
\<close>

locale worker_closure =
  fixes R :: "'r redis" and P :: "'r program" and C :: config and good :: "'r \<Rightarrow> bool"
    and known :: "task_id \<Rightarrow> bool"
  assumes good_time: "read_time P s = (now, s') \<Longrightarrow> good s \<Longrightarrow> good s'"
    and good_enqueue: "colon_free i \<Longrightarrow> st = QUEUED \<or> st = SCHEDULED \<Longrightarrow> good s \<Longrightarrow> good (enqueue R C st q i x ts s)"
    and good_move_task: "move_task R (REDIS_PREFIX C) i q ACTIVE to_state unique ts mode (PUBLISH_QUEUED_TASKS C) s = Inr s' \<Longrightarrow>
      to_state \<noteq> Some ACTIVE \<Longrightarrow> good s \<Longrightarrow> good s'"
    and good_take_tasks: "take_tasks R C q n now later s = (ids, s') \<Longrightarrow> good s \<Longrightarrow> good s'"
    and known_taken: "take_tasks R C q n now later s = (ids, s') \<Longrightarrow> good s \<Longrightarrow> i \<in> set ids \<Longrightarrow> known i"
    and good_due: "good s \<Longrightarrow> good (snd (zpoppush_exists_ignore_update_sets R
      (queue_key (REDIS_PREFIX C) SCHEDULED q) (queue_key (REDIS_PREFIX C) QUEUED q)
      (state_key (REDIS_PREFIX C) SCHEDULED) (state_key (REDIS_PREFIX C) QUEUED)
      (Some now) (SCHEDULED_TASK_BATCH_SIZE C) now q s))"
    and good_publish: "good s \<Longrightarrow> good (r_publish R (activity_channel (REDIS_PREFIX C)) q s)"
    and good_record: "known i \<Longrightarrow> good s \<Longrightarrow> good (store_one_execution R (REDIS_PREFIX C) x i limit s)"
    and good_lock_acquire: "r_lock_acquire R (tiger_key (REDIS_PREFIX C) (''lockv2'' # parts)) timeout s = (token, s') \<Longrightarrow>
      good s \<Longrightarrow> good s'"
    and good_lock_release: "good s \<Longrightarrow> good (snd (r_lock_release R (tiger_key (REDIS_PREFIX C) (''lockv2'' # parts)) held_token s))"
    and good_acquire: "good s \<Longrightarrow> good (snd (acquire R (queue_semaphore C W q m) now s))"
    and good_release: "good s \<Longrightarrow> good (release R (queue_semaphore C W q m) s)"
begin

lemmas good_bind = bind_state_keeps [where G = good]

lemma good_move:
  assumes "move R C now from_state to_state w mode T s = (r, T', s')" "or_else from_state (t_state T) = Some ACTIVE"
    and "to_state \<noteq> Some ACTIVE" "good s"
  shows "good s'"
  using assms by (auto simp: move_def dest: good_move_task split: sum.splits option.splits exn.splits if_splits)

lemma good_move_active:
  "move R C now (Some ACTIVE) to_state w mode T s = (r, T', s') \<Longrightarrow> to_state \<noteq> Some ACTIVE \<Longrightarrow> good s \<Longrightarrow> good s'"
  by (rule good_move [where from_state = "Some ACTIVE"]) simp_all

lemma good_move_stored:
  "move R C now None None w mode (stored_task q d (Some ACTIVE) ts xs) s = (r, T', s') \<Longrightarrow> good s \<Longrightarrow> good s'"
  using good_move [where from_state = None and to_state = None and T = "stored_task q d (Some ACTIVE) ts xs"] by simp

lemma good_delay:
  assumes "delay L P R C utcnow now w max_arg T s = (r, T', s')" "\<not> ALWAYS_EAGER C" "good s"
    and "\<And>i. task_id T = Inr i \<Longrightarrow> colon_free i"
  shows "good s'"
proof -
  obtain ts state where ts: "queue_time (get_timestamp utcnow w) now = (ts, state)"
    by (metis prod.exhaust)
  have id: "task_id (set_entry ''scheduled_at'' a (set_entry ''time_last_queued'' b T)) = task_id T" for a b
    by (simp add: task_id_def entry_string_def)
  show ?thesis
    using assms queue_time_state [OF ts] unfolding delay_def ts Let_def prod.case
    by (auto simp: id good_enqueue split: sum.splits if_splits option.splits)
qed

lemma good_next_period:
  assumes "queue_for_next_period L P R C utcnow now T s = (r, s')"
    and "\<not> ALWAYS_EAGER C" "pylib_ok L" "good s"
  shows "good s'"
proof -
  have queued: "good t"
    if "renewed_clone L P T = Inr T'" "delay L P R C utcnow now w m T' s = (r', T'', t)" for T' T'' w m r' t
  proof (rule good_delay [OF that(2) assms(2,4)])
    show "colon_free i" if "task_id T' = Inr i" for i
      using that renewed_clone_id [OF \<open>renewed_clone L P T = Inr T'\<close> assms(3)] by auto
  qed
  show ?thesis
    using assms(1,4) queued
    by (auto simp: queue_for_next_period_def split: sum.splits option.splits prod.splits)
qed

lemma good_prepare:
  assumes "prepare_execution L P R C funcs utcnow Ts s = (r, s')"
    and "\<not> ALWAYS_EAGER C" "pylib_ok L" "good s"
  shows "good s'"
  using assms(1,4) unfolding prepare_execution_def
  by (auto elim!: good_bind simp: apfst_eq_pair split: if_splits prod.splits
      intro: good_next_period [OF _ assms(2,3)] dest!: good_time)

lemma good_lock_tasks:
  "lock_tasks L P R C Ts lock_ids locks ready s = (r, s') \<Longrightarrow> good s \<Longrightarrow> good s'"
proof (induction Ts arbitrary: lock_ids locks ready s r s')
  case (Cons T Ts)
  show ?case
  proof (cases "has_lock T")
    case False
    with Cons show ?thesis by simp
  next
    case True
    have retry: "good t2"
      if "move R C now (Some ACTIVE) (Some SCHEDULED) w m T t1 = (r', T', t2)" "read_time P t = (now, t1)" "good t"
      for now w m r' T' t t1 t2
      using that by (blast intro: good_move_active good_time)
    from Cons.prems(1) True show ?thesis
      using Cons.prems(2) Cons.IH
      by (auto elim!: good_bind simp: Let_def split: if_splits prod.splits option.splits sum.splits)
        (blast intro: good_lock_acquire retry)+
  qed
qed simp

lemma good_parse_tasks:
  "parse_tasks L R C queue now entries s = (r, s') \<Longrightarrow> good s \<Longrightarrow> good s'"
proof (induction entries arbitrary: s r s')
  case (Cons entry entries)
  obtain i x where entry: "entry = (i, x)" by (cases entry)
  show ?case
  proof (cases "x = None \<or> x = Some []")
    case True
    with Cons show ?thesis
      by (simp add: entry split: prod.splits sum.splits) (blast intro: good_move_stored)+
  next
    case False
    with Cons show ?thesis
      by (simp add: entry Let_def)
        ((elim good_bind; auto split: if_splits prod.splits sum.splits
          elim!: good_bind intro: good_move_stored), blast intro: good_move_stored)
  qed
qed simp

lemma parse_tasks_known:
  "parse_tasks L R C queue now entries s = (Inr Ts, s') \<Longrightarrow> \<forall>i \<in> set (map fst entries). known i \<Longrightarrow> known_tasks known Ts"
proof (induction entries arbitrary: s Ts s')
  case (Cons entry entries)
  then show ?case
    by (cases entry) (auto simp: bind_state_Inr_iff Let_def split: if_splits prod.splits sum.splits)
qed simp

lemma good_release_locks: "lock_keys (REDIS_PREFIX C) locks \<Longrightarrow> good s \<Longrightarrow> good (release_locks R locks s)"
proof (induction locks arbitrary: s)
  case (Cons l locks)
  then obtain parts token where "l = (tiger_key (REDIS_PREFIX C) (''lockv2'' # parts), token)"
    by (auto simp: lock_keys_def)
  with Cons good_lock_release [of s parts token] show ?case
    by (auto simp: release_locks_def lock_keys_def)
qed (simp add: release_locks_def)

lemma keepsD_good: "keeps good f \<Longrightarrow> f s = (x, s') \<Longrightarrow> good s \<Longrightarrow> good s'"
  by (rule keepsD)

lemma good_permanent_error:
  assumes "on_permanent_error runner T execution s = (r, s')" "application_keeps good known C P E" "good s"
    and "get_runner_class P Ts = Inr runner"
  shows "good s'"
  using assms(4)
proof (cases rule: get_runner_class_cases)
  case 1
  with assms(1,3) show ?thesis by (simp add: default_runner_def base_runner_def)
next
  case 2
  with assms(2) have "keeps good (on_permanent_error runner T execution)"
    by (auto simp: application_keeps_def)
  with assms(1,3) show ?thesis by (blast intro: keepsD)
qed

lemma good_finish_failed:
  assumes "finish_failed P R C T execution now state w log_error s = (r, s')"
    and "application_keeps good known C P E" "state \<noteq> ACTIVE" "good s"
  shows "good s'"
  using assms(1,3,4) unfolding finish_failed_def
  by (auto dest: good_move_active good_permanent_error [OF _ assms(2)]
      split: if_splits prod.splits sum.splits option.splits)

lemma good_finish_task_processing:
  assumes "finish_task_processing L P R C exit_on_timeout T success s = (r, s')"
    and "application_keeps good known C P E" "good s"
  shows "good s'"
  using assms(1,3) unfolding finish_task_processing_def
  by (auto elim!: good_bind simp: Let_def split: if_splits prod.splits
      dest!: good_time next_state_final intro: good_finish_failed [OF _ assms(2)] good_move_active)

lemma good_finish_tasks:
  assumes "application_keeps good known C P E"
  shows "finish_tasks L P R C exit_on_timeout success Ts s = (r, s') \<Longrightarrow> good s \<Longrightarrow> good s'"
proof (induction Ts arbitrary: s r s')
  case (Cons T Ts)
  then show ?case
    by (auto elim!: good_bind) (metis (no_types, lifting) assms good_finish_task_processing prod.collapse)
qed simp

text \<open>A group, and the groups of a queue.\<close>

lemma good_execute_task_group:
  assumes "execute_task_group L P R C E funcs utcnow queue Ts queue_lock s = (r, s')"
    and "application_keeps good known C P E" "\<not> ALWAYS_EAGER C" "pylib_ok L" "known_tasks known Ts"
    and "queue_slot C queue_lock" "good s"
  shows "good s'"
proof -
  have locked: "lock_keys (REDIS_PREFIX C) locks \<and> known_tasks known ready"
    if "lock_tasks L P R C Ts [] [] [] s = (Inr (locks, ready), t)" for locks ready t
    using lock_tasks_keys [OF that] lock_tasks_known [OF that assms(5)] by (simp add: lock_keys_def)
  have executed: "good s2"
    if "lock_tasks L P R C Ts [] [] [] s = (Inr (locks, ready), t)"
      "executor_execute E queue ready locks queue_lock s1 = (r, s2)" "good s1" for locks ready t s1 s2 r
  proof -
    have "keeps good (executor_execute E queue ready locks queue_lock)"
      using assms(2,6) locked [OF that(1)] unfolding application_keeps_def by blast
    with that(2,3) show ?thesis by (blast intro: keepsD)
  qed
  have released: "good (release_locks R locks s1)"
    if "lock_tasks L P R C Ts [] [] [] s = (Inr (locks, ready), t)" "good s1" for locks ready t s1
    using locked [OF that(1)] that(2) by (blast intro: good_release_locks)
  show ?thesis
    using assms(1,7) unfolding execute_task_group_def
    by (auto elim!: good_bind split: if_splits prod.splits
        intro: good_lock_tasks good_prepare [OF _ assms(3,4)] executed released)
qed

lemma good_process_groups:
  assumes "application_keeps good known C P E" "\<not> ALWAYS_EAGER C" "pylib_ok L" "queue_slot C queue_lock"
  shows "process_groups L P R C E funcs utcnow queue queue_lock groups n s = (r, s') \<Longrightarrow>
    \<forall>Ts \<in> set groups. known_tasks known Ts \<Longrightarrow> good s \<Longrightarrow> good s'"
proof (induction groups arbitrary: n s r s')
  case (Cons Ts groups)
  then show ?case
    by (auto elim!: good_bind intro: good_execute_task_group [OF _ assms(1-3) _ assms(4)] good_finish_tasks [OF assms(1)])
qed simp

lemma good_process_queue_tasks:
  assumes "application_keeps good known C P E" "\<not> ALWAYS_EAGER C" "pylib_ok L" "queue_slot C queue_lock"
    and "process_queue_tasks L P R C E funcs utcnow queue queue_lock task_ids now s = (r, s')" "good s"
    and "\<forall>i \<in> set task_ids. known i"
  shows "good s'"
proof -
  let ?entries = "zip task_ids (map (\<lambda>i. r_get R (task_key (REDIS_PREFIX C) i) s) task_ids)"
  have groups: "known_tasks known Ts'"
    if "parse_tasks L R C queue now ?entries s = (Inr Ts, t)" "tasks_by_func Ts [] = Inr groups" "(f, Ts') \<in> set groups"
    for Ts t groups f Ts'
    using tasks_by_func_known [OF that(2) parse_tasks_known [OF that(1)]] assms(7) that(3)
    by fastforce
  show ?thesis
    using assms(5,6) unfolding process_queue_tasks_def Let_def
    by (elim good_bind) (auto elim!: good_bind intro: good_parse_tasks
      dest!: good_process_groups [OF assms(1-4)], blast intro: groups)
qed

text \<open>The locks of queues.\<close>

lemma good_get_queue_lock:
  "get_queue_lock P R C W q s = ((queue_lock, failed), s') \<Longrightarrow> good s \<Longrightarrow> good s'"
  by (auto simp: get_queue_lock_def Let_def split: option.splits if_splits prod.splits)
    (metis good_acquire good_time snd_conv)+

lemma good_free_slot:
  "queue_slot C queue_lock \<Longrightarrow> good s \<Longrightarrow> good (case queue_lock of None \<Rightarrow> s | Some S \<Rightarrow> release R S s)"
  by (auto simp: queue_slot_def good_release)

lemma good_process_from_queue:
  assumes "application_keeps good known C P E" "\<not> ALWAYS_EAGER C" "pylib_ok L"
    and "process_from_queue L P R C E funcs utcnow W queue s = (r, s')" "good s"
  shows "good s'"
proof -
  obtain now s1 where s1: "read_time P s = (now, s1)" by fastforce
  obtain queue_lock failed s2 where s2: "get_queue_lock P R C W queue s1 = ((queue_lock, failed), s2)"
    by (metis prod.exhaust)
  have good2: "good s2" by (rule good_get_queue_lock [OF s2 good_time [OF s1 assms(5)]])
  have slot: "queue_slot C queue_lock" by (rule get_queue_lock_slot [OF s2])
  obtain now' s3 where s3: "read_time P s2 = (now', s3)" by fastforce
  obtain ids s4 where s4: "take_tasks R C queue (get_queue_batch_size C queue) now (now' + LOCK_RETRY C) s3 = (ids, s4)"
    by fastforce
  have good3: "good s3" by (rule good_time [OF s3 good2])
  have "good s4" by (rule good_take_tasks [OF s4 good3])
  moreover have "\<forall>i \<in> set ids. known i" using known_taken [OF s4 good3] by blast
  ultimately show ?thesis
    using assms(4) good2 unfolding process_from_queue_def Let_def s1 s2 s3 s4 prod.case
    by (auto elim!: good_bind split: if_splits
        intro: good_process_queue_tasks [OF assms(1-3) slot] good_free_slot [OF slot])
qed

text \<open>Due and expired tasks, the run over the queues and the main loop.\<close>

lemma good_queue_due_tasks: "good s \<Longrightarrow> good (snd (queue_due_tasks R C now queue (W, s)))"
  using good_due [of s queue now]
  by (auto simp: queue_due_tasks_def Let_def good_publish split: prod.splits)

lemma good_due_fold: "good s \<Longrightarrow> good (snd (fold (queue_due_tasks R C now) queues (W, s)))"
proof (induction queues arbitrary: W s)
  case (Cons q queues)
  then show ?case
    using good_queue_due_tasks [OF Cons.prems, of now q W]
    by (metis (no_types, lifting) comp_apply fold_simps(2) prod.collapse)
qed simp

lemma good_worker_queue_scheduled_tasks:
  "worker_queue_scheduled_tasks L matches P R C W s = (W', s') \<Longrightarrow> good s \<Longrightarrow> good s'"
  unfolding worker_queue_scheduled_tasks_def Let_def
  by (auto simp: apfst_eq_pair split: if_splits prod.splits dest!: good_time dest: good_lock_acquire)
    (metis good_due_fold snd_conv good_lock_acquire good_time)+

lemma good_requeue_expired_task:
  "requeue_expired_task L P R C now queue i s = (r, s') \<Longrightarrow> good s \<Longrightarrow> good s'"
  unfolding requeue_expired_task_def Let_def
  by (auto split: sum.splits prod.splits option.splits if_splits exn.splits
      dest: good_move_active good_move_stored)

lemma good_requeue_expired_tasks:
  "requeue_expired_tasks L P R C now entries s = (r, s') \<Longrightarrow> good s \<Longrightarrow> good s'"
proof (induction entries arbitrary: s r s')
  case (Cons entry entries)
  then show ?case
    by (cases entry) (auto elim!: good_bind intro: good_requeue_expired_task)
qed simp

lemma good_release_lock: "good s \<Longrightarrow> r_lock_release R (tiger_key (REDIS_PREFIX C) (''lockv2'' # parts)) token s = (x, s') \<Longrightarrow> good s'"
  using good_lock_release [of s parts token] by simp

lemma good_worker_queue_expired_tasks:
  "worker_queue_expired_tasks L P R C W s = (r, W', s') \<Longrightarrow> good s \<Longrightarrow> good s'"
  unfolding worker_queue_expired_tasks_def Let_def
  by (auto split: sum.splits prod.splits option.splits if_splits)
    (blast intro: good_lock_acquire good_requeue_expired_tasks good_time good_lock_release)+

lemma good_run_queues:
  assumes "application_keeps good known C P E" "\<not> ALWAYS_EAGER C" "pylib_ok L"
  shows "run_queues L P R C E funcs utcnow stopped queues W s = (r, W', s') \<Longrightarrow> good s \<Longrightarrow> good s'"
proof (induction queues arbitrary: W s r W' s')
  case (Cons q queues)
  then show ?case
    by (auto simp: Let_def split: sum.splits prod.splits if_splits dest!: good_process_from_queue [OF assms])
qed simp

lemma good_worker_run:
  assumes "application_keeps good known C P E" "\<not> ALWAYS_EAGER C" "pylib_ok L"
    and "worker_run L matches P R C E funcs utcnow stopped shuffle W s = (r, W', s')" "good s"
  shows "good s'"
  using assms(4,5) unfolding worker_run_def Let_def
  by (auto split: sum.splits prod.splits if_splits
      dest!: good_run_queues [OF assms(1-3)] good_time good_worker_queue_scheduled_tasks
        good_worker_queue_expired_tasks)

lemma good_queue_periodic_task:
  assumes "\<not> ALWAYS_EAGER C" "pylib_ok L"
    and "queue_periodic_task L P R C fresh_id utcnow func s = (r, s')" "good s"
  shows "good s'"
  using assms(3,4) unfolding queue_periodic_task_def Let_def
  by (auto elim!: good_bind simp: apfst_eq_pair split: prod.splits if_splits
      dest!: good_time intro: good_next_period [OF _ assms(1,2)])

lemma good_queue_periodic_funcs:
  assumes "\<not> ALWAYS_EAGER C" "pylib_ok L"
  shows "queue_periodic_funcs L P R C fresh_id utcnow funcs s = (r, s') \<Longrightarrow> good s \<Longrightarrow> good s'"
proof (induction funcs arbitrary: s r s')
  case (Cons f funcs)
  then show ?case
    by (auto elim!: good_bind intro: good_queue_periodic_task [OF assms])
qed simp

lemma good_run_loop:
  assumes "application_keeps good known C P E" "\<not> ALWAYS_EAGER C" "pylib_ok L"
  shows "run_loop L matches P R C E funcs stopped once force_once its W s = Some (r, W', s') \<Longrightarrow>
    good s \<Longrightarrow> good s'"
proof (induction its arbitrary: W s)
  case (Cons it its)
  then show ?case
    by (auto split: option.splits sum.splits prod.splits if_splits dest!: good_worker_run [OF assms])
qed simp

lemma good_worker_main:
  assumes "application_keeps good known C P E" "\<not> ALWAYS_EAGER C" "pylib_ok L"
    and "worker_main L matches P R C E funcs fresh_id utcnow stopped once force_once its W s = Some (r, W', s')"
    and "good s"
  shows "good s'"
  using assms(4,5) unfolding worker_main_def queue_periodic_tasks_def
  by (auto split: sum.splits prod.splits
      dest!: good_queue_periodic_funcs [OF assms(2,3)] good_run_loop [OF assms(1-3)])

text \<open>Executing in the worker's process.\<close>

lemma good_store_executions:
  "store_executions R (REDIS_PREFIX C) x Ts s = (r, s') \<Longrightarrow> known_tasks known Ts \<Longrightarrow> good s \<Longrightarrow> good s'"
  by (induction Ts arbitrary: s) (auto split: sum.splits intro: good_record)

lemma good_execute_tasks:
  assumes "program_keeps good P" "execute_tasks L P R C tracebacks Ts s = (r, s')" "known_tasks known Ts" "good s"
  shows "good s'"
  using assms(2,3,4) unfolding execute_tasks_def Let_def store_task_execution_def
  by (auto split: sum.splits prod.splits option.splits
      dest!: good_time run_tasks_keeps [OF assms(1)] good_store_executions)

lemma application_keeps_sync:
  assumes "program_keeps good P"
  shows "application_keeps good known C P (sync_executor L P R C tracebacks)"
proof -
  have "good s'" if "sync_execute L P R C tracebacks Ts s = (r, s')" "known_tasks known Ts" "good s" for Ts s r s'
    using that unfolding sync_execute_def
    by (auto elim!: good_bind split: if_splits intro: good_execute_tasks [OF assms])
  then have "keeps good (sync_execute L P R C tracebacks Ts)" if "known_tasks known Ts" for Ts
    using that unfolding keeps_def by (metis prod.collapse)
  with assms show ?thesis
    by (simp add: application_keeps_def sync_executor_def program_keeps_def)
qed

end

subsection \<open>The forking executor\<close>

text \<open>
  The executor that forks a child for every group: \<open>observe\<close> gives the rounds of the parent's loop. If
  they end before the loop does, the worker is still waiting; it is then taken to be stopped.
\<close>

definition fork_executor ::
    "pylib \<Rightarrow> 'r program \<Rightarrow> 'r redis \<Rightarrow> config \<Rightarrow> (queue_name \<Rightarrow> task list \<Rightarrow> 'r \<Rightarrow> 'r wait_round list) \<Rightarrow> 'r executor" where
  "fork_executor L P R C observe =
     \<lparr>executor_execute = (\<lambda>queue Ts locks queue_lock s.
        case fork_execute L P R C queue Ts locks queue_lock (observe queue Ts s) s of
          Some outcome \<Rightarrow> outcome | None \<Rightarrow> (Inl SystemExit, s)),
      exit_worker_on_job_timeout = False\<rparr>"

locale fork_closure = worker_closure R P C good known
  for R :: "'r redis" and P :: "'r program" and C :: config and good :: "'r \<Rightarrow> bool"
    and known :: "task_id \<Rightarrow> bool" +
  assumes good_worker_heartbeat: "ids \<noteq> [] \<Longrightarrow> \<forall>i \<in> set ids. known i \<Longrightarrow> good s \<Longrightarrow> good (worker_heartbeat R C q ids now s)"
    and good_lock_reacquire: "good s \<Longrightarrow>
      good (snd (r_lock_reacquire R (tiger_key (REDIS_PREFIX C) (''lockv2'' # parts)) token s))"
begin

lemma good_reacquire_locks:
  "lock_keys (REDIS_PREFIX C) locks \<Longrightarrow> good s \<Longrightarrow> good (reacquire_locks R locks s)"
proof (induction locks arbitrary: s)
  case (Cons l locks)
  then obtain parts token where "l = (tiger_key (REDIS_PREFIX C) (''lockv2'' # parts), token)"
    by (auto simp: lock_keys_def)
  with Cons good_lock_reacquire [of s parts token] show ?case
    by (auto simp: reacquire_locks_def lock_keys_def)
qed (simp add: reacquire_locks_def)

lemma good_heartbeat:
  assumes "ids \<noteq> []" "\<forall>i \<in> set ids. known i" "lock_keys (REDIS_PREFIX C) locks" "queue_slot C queue_lock" "good s"
  shows "good (heartbeat P R C q ids locks queue_lock s)"
proof -
  obtain now s1 where s1: "read_time P s = (now, s1)" by fastforce
  have s2: "good (reacquire_locks R locks (worker_heartbeat R C q ids now s1))"
    by (rule good_reacquire_locks [OF assms(3) good_worker_heartbeat [OF assms(1,2) good_time [OF s1 assms(5)]]])
  then show ?thesis
    using assms(4) good_acquire good_time [OF _ s2]
    by (auto simp: heartbeat_def s1 renew_def queue_slot_def split: prod.splits)
qed

lemma good_wait_for_child:
  assumes "known_tasks known Ts" "ids \<noteq> []" "\<forall>i \<in> set ids. known i"
    and "lock_keys (REDIS_PREFIX C) locks" "queue_slot C queue_lock"
  shows "wait_for_child L P R C q Ts ids locks queue_lock started deadline rounds s = Some (r, s') \<Longrightarrow>
    (\<forall>rd \<in> set rounds. \<forall>s. good s \<longrightarrow> good (meanwhile rd s)) \<Longrightarrow> good s \<Longrightarrow> good s'"
proof (induction rounds arbitrary: s)
  case (Cons rd rounds)
  then show ?case
    by (auto simp: Let_def store_task_execution_def split: option.splits if_splits prod.splits sum.splits
        dest!: good_store_executions [OF _ assms(1)] dest: good_heartbeat [OF assms(2-5)])
qed simp

lemma good_fork_execute:
  assumes "fork_execute L P R C q Ts locks queue_lock rounds s = Some (r, s')"
    and "\<forall>rd \<in> set rounds. \<forall>s. good s \<longrightarrow> good (meanwhile rd s)" "known_tasks known Ts"
    and "lock_keys (REDIS_PREFIX C) locks" "queue_slot C queue_lock" "good s"
  shows "good s'"
proof (cases "Ts = [] \<or> (\<exists>e. func_of P (hd Ts) = Inl e) \<or> (\<exists>e. map_result task_id Ts = Inl e)")
  case True
  then show ?thesis using assms(1,6) by (auto simp: fork_execute_def split: sum.splits if_splits)
next
  case False
  then obtain func ids where func: "Ts \<noteq> []" "func_of P (hd Ts) = Inr func" "map_result task_id Ts = Inr ids"
    by (metis old.sum.exhaust)
  obtain started s1 where s1: "read_time P s = (started, s1)" by fastforce
  have ids: "remdups ids \<noteq> []" "\<forall>i \<in> set (remdups ids). known i"
    using known_tasks_ids [OF func(3) assms(3)] func(1,3) by (cases Ts; auto simp: bind_result_Inr_iff)+
  obtain deadline where "wait_for_child L P R C q Ts (remdups ids) locks queue_lock started deadline rounds s1 = Some (r, s')"
    using assms(1) func s1 by (auto simp: fork_execute_def Let_def)
  then show ?thesis
    by (rule good_wait_for_child [OF assms(3) ids assms(4,5) _ assms(2) good_time [OF s1 assms(6)]])
qed

lemma application_keeps_fork:
  assumes "\<forall>queue Ts s. \<forall>rd \<in> set (observe queue Ts s). \<forall>s. good s \<longrightarrow> good (meanwhile rd s)"
    and "\<forall>m a runner T execution. resolve_runner P m a = Some runner \<longrightarrow> keeps good (on_permanent_error runner T execution)"
  shows "application_keeps good known C P (fork_executor L P R C observe)"
proof -
  have "good (snd (executor_execute (fork_executor L P R C observe) queue Ts locks queue_lock s))"
    if "known_tasks known Ts" "lock_keys (REDIS_PREFIX C) locks" "queue_slot C queue_lock" "good s"
    for queue Ts locks queue_lock s
    using good_fork_execute [of L queue Ts locks queue_lock "observe queue Ts s" s] assms(1) that
    by (auto simp: fork_executor_def split: option.split)
  with assms(2) show ?thesis by (simp add: application_keeps_def keeps_def)
qed

end

end
