(* ===== verification/Task_Properties.thy ===== *)
theory Task_Properties
  imports Task_Laws Script_Properties
begin

text \<open>
  The properties of tasks: what the constructor stores, what queueing does on each of its branches,
  that a queued task can be loaded again, that a unique task is queued once, and when the moves of a
  task succeed.
\<close>

subsection \<open>The constructor\<close>

lemma dict_get_append:
  "dict_get (d @ e) k = (case dict_get d k of None \<Rightarrow> dict_get e k | Some v \<Rightarrow> Some v)"
  by (simp add: dict_get_def map_add_def split: option.splits)

lemma dict_get_entry: "dict_get (entry k v) k' = (if k' = k then v else None)"
  by (simp add: dict_get_def entry_def split: option.split)

lemma case_option_None_Some: "(case x of None \<Rightarrow> None | Some y \<Rightarrow> Some y) = x"
  by (cases x) simp_all

lemmas new_data_get = new_data_def dict_get_append dict_get_entry case_option_None_Some

lemma entry_string_eq: "entry_string k d =
    (case dict_get d k of Some v \<Rightarrow> (case json_string v of Some x \<Rightarrow> Inr x | None \<Rightarrow> Inl TypeError)
     | None \<Rightarrow> Inl KeyError)"
  by (simp add: entry_string_def split: option.split)

lemma json_strings_JNull [simp]: "json_strings JNull = []"
  by (simp add: json_strings_def map_filter_simps)

lemma new_data_fields:
  assumes "t_data T =
    new_data i name unique ukey lock lkey args kwargs timeout retries max_size max_stored runner"
  shows "task_id T = Inr i" "serialized_func T = Inr name"
    "is_unique T \<longleftrightarrow> unique \<or> ukey \<noteq> []" "unique_key T = ukey"
    "has_lock T \<longleftrightarrow> lock \<or> lkey \<noteq> []" "lock_key T = lkey"
    "task_args T = args" "task_kwargs T = kwargs"
    "hard_timeout T = (if timeout = Some 0 then None else timeout)"
  by (simp_all add: assms task_id_def serialized_func_def entry_string_eq is_unique_def unique_key_def
      has_lock_def lock_key_def task_args_def task_kwargs_def hard_timeout_def get_default_def
      new_data_get when_true_def nonzero_def split: option.split)

lemma map_filter_json_number [simp]: "List.map_filter json_number (map JNum xs) = xs"
  by (induction xs) (simp_all add: map_filter_simps)

lemma new_data_retries:
  assumes "t_data T =
    new_data i name unique ukey lock lkey args kwargs timeout retries max_size max_stored runner"
  shows "retry_method T = Inr (map_option fst retries)"
    "retry_on T = (case retries of None \<Rightarrow> [] | Some (_, names) \<Rightarrow> names)"
    "max_stored_executions T = max_stored" "serialized_runner_class T = runner"
    "data_max_queue_size T = (if max_size = Some 0 then None else map_option of_int max_size)"
  by (auto simp: assms retry_method_def retry_on_def max_stored_executions_def
      serialized_runner_class_def data_max_queue_size_def retry_method_json_def get_default_def
      new_data_get when_true_def nonzero_def split: option.split)

lemma new_task_Inr:
  assumes "new_task L C fresh_id func args kwargs opts = Inr T"
  obtains name retries runner where
    "serialize_func_name (pyfunc.truncate func) = Inr name"
    "retry_settings C (the_bool (or_else (retry_arg opts) (task_retry func)))
      (the_list (or_else (retry_on_arg opts) (task_retry_on func)))
      (or_else (retry_method_arg opts) (task_retry_method func)) = Inr retries"
    "t_func T = Some func" "t_state T = None" "t_ts T = None"
    "t_queue T = Some (case queue_arg opts of None \<Rightarrow> queue_from_function C func | Some q \<Rightarrow> q)"
    "t_data T = new_data
      (new_task_id L fresh_id name (the_bool (or_else (unique_arg opts) (task_unique func)))
        (the_list (or_else (unique_key_arg opts) (task_unique_key func))) args kwargs) name
      (the_bool (or_else (unique_arg opts) (task_unique func)))
      (the_list (or_else (unique_key_arg opts) (task_unique_key func)))
      (the_bool (or_else (lock_arg opts) (task_lock func)))
      (the_list (or_else (lock_key_arg opts) (task_lock_key func))) args kwargs
      (hard_timeout_arg opts) retries
      (or_else (max_queue_size_arg opts) (task_max_queue_size func))
      (or_else (max_stored_executions_arg opts) (task_max_stored_executions func)) runner"
  using that assms unfolding new_task_def Let_def bind_result_Inr_iff
  by (elim exE conjE) (simp, metis task.select_convs)

text \<open>A task made from a function has the arguments it was given, is unique or locked exactly if an
  argument or else the decorator says so or chooses keys, is named after the function (and so can be
  imported again), has the chosen queue, and can be retried exactly if retries were asked for: by
  the chosen method, or else by the configured one.\<close>

theorem new_task_fields:
  assumes "new_task L C fresh_id func args kwargs opts = Inr T"
  shows "serialize_func_name (pyfunc.truncate func) = serialized_func T \<and>
    task_args T = args \<and> task_kwargs T = kwargs \<and>
    the_list (or_else (unique_key_arg opts) (task_unique_key func)) = unique_key T \<and>
    is_unique T = (or_else (unique_arg opts) (task_unique func) = Some True \<or> unique_key T \<noteq> []) \<and>
    the_list (or_else (lock_key_arg opts) (task_lock_key func)) = lock_key T \<and>
    has_lock T = (or_else (lock_arg opts) (task_lock func) = Some True \<or> lock_key T \<noteq> []) \<and>
    t_queue T = Some (case queue_arg opts of None \<Rightarrow> queue_from_function C func | Some q \<Rightarrow> q) \<and>
    max_stored_executions T = or_else (max_stored_executions_arg opts) (task_max_stored_executions func) \<and>
    (let m = or_else (retry_method_arg opts) (task_retry_method func);
         on = the_list (or_else (retry_on_arg opts) (task_retry_on func));
         asked = (or_else (retry_arg opts) (task_retry func) = Some True \<or> on \<noteq> [] \<or> m \<noteq> None)
     in if asked
        then map_sum id Some (serialize_retry_method
               (case m of None \<Rightarrow> DEFAULT_RETRY_METHOD C | Some m \<Rightarrow> m)) = retry_method T \<and>
             map_result serialize_func_name on = Inr (retry_on T)
        else retry_method T = Inr None \<and> retry_on T = [])"
proof -
  from assms obtain name retries runner where
    name: "serialize_func_name (pyfunc.truncate func) = Inr name" and
    retries: "retry_settings C (the_bool (or_else (retry_arg opts) (task_retry func)))
      (the_list (or_else (retry_on_arg opts) (task_retry_on func)))
      (or_else (retry_method_arg opts) (task_retry_method func)) = Inr retries" and
    queue: "t_queue T = Some (case queue_arg opts of None \<Rightarrow> queue_from_function C func | Some q \<Rightarrow> q)" and
    data: "t_data T = new_data
      (new_task_id L fresh_id name (the_bool (or_else (unique_arg opts) (task_unique func)))
        (the_list (or_else (unique_key_arg opts) (task_unique_key func))) args kwargs) name
      (the_bool (or_else (unique_arg opts) (task_unique func)))
      (the_list (or_else (unique_key_arg opts) (task_unique_key func)))
      (the_bool (or_else (lock_arg opts) (task_lock func)))
      (the_list (or_else (lock_key_arg opts) (task_lock_key func))) args kwargs
      (hard_timeout_arg opts) retries
      (or_else (max_queue_size_arg opts) (task_max_queue_size func))
      (or_else (max_stored_executions_arg opts) (task_max_stored_executions func)) runner"
    by (rule new_task_Inr)
  note fields = new_data_fields [OF data] new_data_retries [OF data]
  from retries show ?thesis
    by (auto simp: fields name queue the_bool_def retry_settings_def bind_result_Inr_iff Let_def
        split: if_splits)
qed

definition ex_func :: task_func where
  "ex_func = (plain_func \<lparr>fn_module = ''m'', fn_qualname = Some ''f'', fn_name = ''f''\<rparr>)
     \<lparr>task_unique := Some True, task_retry := Some True\<rparr>"

lemma ex_func_name: "serialize_func_name (pyfunc.truncate ex_func) = Inr ''m:f''"
  by (simp add: ex_func_def plain_func_def pyfunc.truncate_def serialize_func_name_def)

lemma ex_new_task:
  "\<exists>T. new_task num_lib default_config ''fresh'' ex_func [JNum 3] [] no_options = Inr T"
  by (simp add: new_task_def ex_func_name Let_def no_options_def ex_func_def plain_func_def
      default_config_def retry_settings_def serialize_func_name_def retry_function_def
      the_list_def pyfunc.truncate_def)

theorem new_task_fields_witness:
  "\<exists>T. new_task num_lib default_config ''fresh'' ex_func [JNum 3] [] no_options = Inr T \<and>
    is_unique T \<and> task_args T = [JNum 3] \<and>
    retry_method T = Inr (Some (''tasktiger.retry:_fixed'', [60, 3]))"
proof -
  obtain T where T: "new_task num_lib default_config ''fresh'' ex_func [JNum 3] [] no_options = Inr T"
    using ex_new_task by blast
  from new_task_fields [OF T] have "is_unique T" "task_args T = [JNum 3]"
    "map_sum id Some (serialize_retry_method (DEFAULT_RETRY_METHOD default_config)) = retry_method T"
    by (simp_all add: no_options_def ex_func_def plain_func_def Let_def)
  with T show ?thesis
    by (simp add: default_config_def serialize_func_name_def retry_function_def flip: \<open>_ = retry_method T\<close>)
qed

subsection \<open>Queueing\<close>

text \<open>C11: queueing a task (outside eager mode) raises \<^verbatim>\<open>QueueFullException\<close>, with the number of tasks
  that are queued, scheduled or active, exactly if a limit applies and is reached, and then changes
  nothing on the server; otherwise the task is stored as the move on the store says: now, in the
  queued state, if no later time is given, else scheduled for that time.\<close>

theorem delay_outcome:
  assumes "tiger_redis R kind p" "REDIS_PREFIX C = p" "\<not> ALWAYS_EAGER C"
    and "the_queue T = Inr q" "task_id T = Inr i" "colon_free i"
    and "delay L P R C utcnow now w max_arg T s = (reply, T', s')"
  shows "let store = tiger_view p (view R s);
      n = (\<Sum>st \<leftarrow> [QUEUED, SCHEDULED, ACTIVE]. length (zlist (place store st q)));
      (ts, state) = (case get_timestamp utcnow w of
          Some t \<Rightarrow> if t \<noteq> 0 \<and> now < t then (t, SCHEDULED) else (now, QUEUED)
        | None \<Rightarrow> (now, QUEUED))
    in if is_full (size_limit max_arg T) n
       then reply = Inl (QueueFullException (int n)) \<and> s' = s
       else reply = Inr () \<and> t_state T' = Some state \<and> t_ts T' = Some ts \<and> task_id T' = Inr i \<and>
         scheduled_at T' = Some ts \<and> time_last_queued T' = Some now \<and>
         tiger_view p (view R s') = enqueue_in_store p state q i (json_dumps L (JObj (t_data T'))) ts
           (PUBLISH_QUEUED_TASKS C) store"
proof -
  obtain ts state where ts: "queue_time (get_timestamp utcnow w) now = (ts, state)"
    by (metis prod.exhaust)
  then have ts': "(case get_timestamp utcnow w of
      Some t \<Rightarrow> if t \<noteq> 0 \<and> now < t then (t, SCHEDULED) else (now, QUEUED)
    | None \<Rightarrow> (now, QUEUED)) = (ts, state)"
    by (auto simp: queue_time_def split: option.splits if_splits)
  note total = tiger_redis.total_queue_size [OF assms(1,2)]
    and stored = tiger_redis.store_enqueue [OF assms(1,2,6)]
  have "scheduled_at ((stamped now ts T)\<lparr>t_state := Some state, t_ts := Some ts\<rparr>) = Some ts"
    "time_last_queued ((stamped now ts T)\<lparr>t_state := Some state, t_ts := Some ts\<rparr>) = Some now"
    using stamped_simps(9,10) [of now ts T] by (simp_all add: scheduled_at_def time_last_queued_def)
  then show ?thesis
    using assms(7) unfolding delay_eq [OF assms(3-5) ts] total ts' Let_def prod.case
    by (auto split: if_splits simp: stored assms(5) simp del: tiger_view_simps)
qed

definition ex_program :: "memdb program" where
  "ex_program = \<lparr>resolve_func = (\<lambda>m a. if m = ''m'' \<and> a = ''f'' then Some ex_func else None),
     resolve_class = (\<lambda>m a. Some (m @ '':'' @ a)), is_subclass = (=), resolve_runner = (\<lambda>_ _. None),
     call_func = (\<lambda>_ _ _ _ s. (Inr JNull, s)), resolve_retry = (\<lambda>_ _. None),
     read_time = (\<lambda>s. (m_clock s, s)), format_exception = (\<lambda>_. ''trace''), hostname = ''host'',
     call_batch = (\<lambda>_ _ _ s. (Inr JNull, s))\<rparr>"

definition ex_task :: task where
  "ex_task = stored_task ''q'' [(''id'', JStr ''x''), (''func'', JStr ''m:f''), (''unique'', JBool True)]
     None None []"

lemma ex_task_simps [simp]: "the_queue ex_task = Inr ''q''" "task_id ex_task = Inr ''x''"
  by (simp_all add: ex_task_def the_queue_def stored_task_def task_id_def entry_string_def dict_get_def)

abbreviation tmem :: "memdb redis" where
  "tmem \<equiv> mem_redis (tiger_kind ''t'')"

lemma default_config_simps [simp]: "REDIS_PREFIX default_config = ''t''"
  "\<not> ALWAYS_EAGER default_config" "PUBLISH_QUEUED_TASKS default_config"
  by (simp_all add: default_config_def)

lemma mem_empty_place [simp]: "place (ex_store mem_empty) st q = zempty"
  by (simp add: mem_redis_def mem_view_def mem_empty_def)

theorem delay_outcome_witness:
  "fst (delay num_lib ex_program tmem default_config 0 7 WhenNone None ex_task mem_empty) = Inr () \<and>
   fst (delay num_lib ex_program tmem default_config 0 7 WhenNone (Some 0) ex_task mem_empty) = Inr ()"
proof -
  have "data_max_queue_size ex_task = None"
    by (simp add: ex_task_def stored_task_def data_max_queue_size_def get_default_def dict_get_def)
  then have "\<not> is_full (size_limit None ex_task) n" "\<not> is_full (size_limit (Some 0) ex_task) n" for n
    by (simp_all add: is_full_def size_limit_def)
  moreover have "fst (delay num_lib ex_program tmem default_config 0 7 WhenNone m ex_task mem_empty) = Inr ()"
    if "\<And>n. \<not> is_full (size_limit m ex_task) n" for m
  proof -
    obtain reply T' s' where
      d: "delay num_lib ex_program tmem default_config 0 7 WhenNone m ex_task mem_empty = (reply, T', s')"
      by (rule prod_cases3)
    from delay_outcome [OF tiger_mem.tiger_redis_axioms default_config_simps(1,2) ex_task_simps
        colon_free_x d] that
    have "reply = Inr ()" by (auto simp: Let_def split: if_splits prod.splits)
    with d show ?thesis by simp
  qed
  ultimately show ?thesis by blast
qed

subsection \<open>A queued task can be loaded\<close>

lemma loads_dict_dumps: "pylib_ok L \<Longrightarrow> loads_dict L (json_dumps L (JObj d)) = Inr d"
  by simp

text \<open>C23: a task that was queued can be loaded by its identifier from the queue and state it was queued
  in: the loaded task has the data of the queued one, and as time stamp the time it was queued for,
  or the time it had there already.\<close>

theorem delay_from_id:
  assumes "tiger_redis R kind p" "REDIS_PREFIX C = p" "\<not> ALWAYS_EAGER C" "pylib_ok L"
    and "the_queue T = Inr q" "task_id T = Inr i" "colon_free i"
    and "delay L P R C utcnow now w max_arg T s = (Inr (), T', s')"
    and "t_state T' = Some st" "t_ts T' = Some ts"
    and "sc = (case task_score (tiger_view p (view R s)) st q i of None \<Rightarrow> ts | Some old \<Rightarrow> old)" "sc \<noteq> 0"
  shows "from_id L R C q st i 0 s' = Inr (stored_task q (t_data T') (Some st) (Some sc) [])"
proof -
  let ?t = "tiger_view p (view R s)" and ?t' = "tiger_view p (view R s')"
  have stored: "?t' = enqueue_in_store p st q i (json_dumps L (JObj (t_data T'))) ts (PUBLISH_QUEUED_TASKS C) ?t"
    by (rule delay_stored [OF assms(1-3,5-10)])
  have "task_data ?t' i = Some (json_dumps L (JObj (t_data T')))"
    by (simp only: stored enqueue_in_store_data fun_upd_same)
  then have data: "r_get R (task_key p i) s' = Some (json_dumps L (JObj (t_data T')))"
    using assms(7) by (simp add: tiger_redis.kind_task [OF assms(1)]
        redis_server.get_str [OF tiger_redis.axioms(1) [OF assms(1)]])
  have "task_score ?t' st q i = Some sc"
    unfolding stored enqueue_in_store_score using assms(11) by (auto split: option.splits)
  then have "r_zscore R (queue_key p st q) i s' = Some sc"
    by (simp add: task_score_def tiger_redis.kind_queue [OF assms(1)]
        redis_server.zscore [OF tiger_redis.axioms(1) [OF assms(1)]])
  with data assms(4,12) show ?thesis
    by (simp add: from_id_def assms(2) load_executions_def loads_dict_dumps del: loads_dict.simps)
qed

lemma ex_delay:
  "\<exists>T' s'. delay num_lib ex_program tmem default_config 0 7 WhenNone (Some 0) ex_task mem_empty = (Inr (), T', s') \<and>
    t_state T' = Some QUEUED \<and> t_ts T' = Some 7"
proof -
  obtain reply T' s' where
    d: "delay num_lib ex_program tmem default_config 0 7 WhenNone (Some 0) ex_task mem_empty = (reply, T', s')"
    by (rule prod_cases3)
  then show ?thesis
    by (auto simp: delay_eq [where q = "''q''" and i = "''x''" and ts = 7 and state = QUEUED] queue_time_def
        is_full_def size_limit_def)
qed

theorem delay_from_id_witness:
  "\<exists>T' s'. delay num_lib ex_program tmem default_config 0 7 WhenNone (Some 0) ex_task mem_empty = (Inr (), T', s') \<and>
    from_id num_lib tmem default_config ''q'' QUEUED ''x'' 0 s' =
      Inr (stored_task ''q'' (t_data T') (Some QUEUED) (Some 7) [])"
proof -
  from ex_delay obtain T' s' where
    d: "delay num_lib ex_program tmem default_config 0 7 WhenNone (Some 0) ex_task mem_empty = (Inr (), T', s')"
    and T': "t_state T' = Some QUEUED" "t_ts T' = Some 7"
    by blast
  have "(7::rat) = (case task_score (ex_store mem_empty) QUEUED ''q'' ''x'' of None \<Rightarrow> 7 | Some old \<Rightarrow> old)"
    by (simp add: task_score_def del: tiger_view_simps)
  from delay_from_id [OF tiger_mem.tiger_redis_axioms default_config_simps(1,2) num_lib_ok ex_task_simps
      colon_free_x d T' this] d
  show ?thesis by simp
qed

subsection \<open>Unique tasks\<close>

lemma zins_new_present: "zget z i \<noteq> None \<Longrightarrow> zins_new ts i z = z"
  by (auto simp: zins_new_def)

text \<open>Queueing a task whose identifier is already in the same state of the queue adds no second
  entry: every queue keeps its members and times, the number of tasks stays, and only the stored
  data is replaced by the newer one.\<close>

theorem queued_once:
  assumes "tiger_redis R kind p" "REDIS_PREFIX C = p" "\<not> ALWAYS_EAGER C"
    and "the_queue T = Inr q" "task_id T = Inr i" "colon_free i"
    and "delay L P R C utcnow now w max_arg T s = (Inr (), T', s')" "t_state T' = Some st"
    and "task_at (tiger_view p (view R s)) st q i"
  shows "place (tiger_view p (view R s')) = place (tiger_view p (view R s)) \<and>
    task_data (tiger_view p (view R s')) =
      (task_data (tiger_view p (view R s)))(i \<mapsto> json_dumps L (JObj (t_data T')))"
proof -
  let ?t = "tiger_view p (view R s)"
  obtain ts where "tiger_view p (view R s') =
      enqueue_in_store p st q i (json_dumps L (JObj (t_data T'))) ts (PUBLISH_QUEUED_TASKS C) ?t"
    using delay_stored [OF assms(1-8)] delay_reports [OF assms(4,5,3,7)] by metis
  moreover have "zins_new ts i (place ?t st q) = place ?t st q" for ts
    using assms(9) by (intro zins_new_present) (simp only: task_at_def task_score_def not_False_eq_True)
  ultimately show ?thesis
    by (simp add: enqueue_in_store_def Let_def del: tiger_view_simps)
qed

theorem queued_once_witness:
  "\<exists>T' s' T'' s''. delay num_lib ex_program tmem default_config 0 7 WhenNone (Some 0) ex_task mem_empty = (Inr (), T', s') \<and>
    delay num_lib ex_program tmem default_config 0 9 WhenNone (Some 0) ex_task s' = (Inr (), T'', s'') \<and>
    place (ex_store s'') = place (ex_store s')"
proof -
  from ex_delay obtain T' s' where
    d: "delay num_lib ex_program tmem default_config 0 7 WhenNone (Some 0) ex_task mem_empty = (Inr (), T', s')"
    and T': "t_state T' = Some QUEUED" "t_ts T' = Some 7"
    by blast
  have s': "s' = enqueue tmem default_config QUEUED ''q'' ''x''
      (json_dumps num_lib (JObj (t_data (stamped 7 7 ex_task)))) 7 mem_empty"
    using d by (simp add: delay_eq [where q = "''q''" and i = "''x''" and ts = 7 and state = QUEUED]
        queue_time_def is_full_def size_limit_def)
  have at: "task_at (ex_store s') QUEUED ''q'' ''x''"
    unfolding s' tiger_mem.store_enqueue [OF default_config_simps(1) colon_free_x] task_at_def
      enqueue_in_store_score by (simp add: task_score_def)
  obtain T'' s'' where
    d': "delay num_lib ex_program tmem default_config 0 9 WhenNone (Some 0) ex_task s' = (Inr (), T'', s'')"
    and "t_state T'' = Some QUEUED"
    by (simp add: delay_eq [where q = "''q''" and i = "''x''" and ts = 9 and state = QUEUED] queue_time_def
        is_full_def size_limit_def)
  from queued_once [OF tiger_mem.tiger_redis_axioms default_config_simps(1,2) ex_task_simps
      colon_free_x d' this(2) at] d d'
  show ?thesis by blast
qed

subsection \<open>Moving a task\<close>

text \<open>Moving a task (as \<^verbatim>\<open>retry\<close>, \<^verbatim>\<open>cancel\<close>, \<^verbatim>\<open>delete\<close> and the worker do) succeeds exactly if the task
  is in the source state of its queue, and then does what the move on the store does and sets the
  state of the object; otherwise it raises \<^verbatim>\<open>TaskNotFound\<close> and changes neither the object nor the server.\<close>

theorem move_outcome:
  assumes "tiger_redis R kind p" "REDIS_PREFIX C = p"
    and "the_queue T = Inr q" "task_id T = Inr i" "colon_free i"
    and "or_else from_state (t_state T) = Some st" "known_mode (none_to_empty_str mode)"
  shows "if task_at (tiger_view p (view R s)) st q i
    then \<exists>s'. move R C now from_state to_state w mode T s = (Inr (), T\<lparr>t_state := to_state\<rparr>, s') \<and>
      tiger_view p (view R s') = move_in_store p i q st to_state (is_unique T) (or_now w now)
        (none_to_empty_str mode) (PUBLISH_QUEUED_TASKS C) (tiger_view p (view R s))
    else move R C now from_state to_state w mode T s = (Inl (TaskNotFound i), T, s)"
  by (rule tiger_redis.move_cases [OF assms])

theorem move_outcome_witness:
  "fst (retry tmem default_config 9 ex_task ex_failed) = Inr () \<and>
   fst (cancel tmem default_config 9 ex_task ex_failed) = Inl (TaskNotFound ''x'')"
  using move_outcome [OF tiger_mem.tiger_redis_axioms default_config_simps(1) ex_task_simps colon_free_x,
      where st = ERROR and mode = None and from_state = "Some ERROR" and to_state = "Some QUEUED" and w = None
        and now = 9 and s = ex_failed]
    move_outcome [OF tiger_mem.tiger_redis_axioms default_config_simps(1) ex_task_simps colon_free_x,
      where st = SCHEDULED and mode = None and from_state = "Some SCHEDULED" and to_state = None and w = None
        and now = 9 and s = ex_failed]
  by (auto simp: retry_def cancel_def)

subsection \<open>Pages of a queue\<close>

lemma slice_page:
  assumes "0 < limit" "0 \<le> skip"
  shows "slice_range (- limit - skip) (- 1 - skip) xs =
    drop (length xs - nat skip - nat limit) (take (length xs - nat skip) xs)"
proof -
  obtain l k where lk: "limit = int (Suc l)" "skip = int k"
    using assms by (metis gr0_conv_Suc nonneg_int_cases zero_less_imp_eq_int)
  have start: "nat (int (length xs) + (- 1 - int l - int k)) = length xs - Suc (k + l)"
    by linarith
  show ?thesis
  proof (cases "k \<le> length xs")
    case True
    then have "slice_range (- limit - skip) (- 1 - skip) xs =
        take (length xs - k - (length xs - k - Suc l)) (drop (length xs - k - Suc l) xs)"
      by (cases "k + Suc l \<le> length xs")
        (auto simp: slice_range_def Let_def lk max_def start nat_diff_distrib' nat_add_distrib
          intro!: arg_cong2 [where f = take])
    moreover have "nat limit = Suc l" by (simp add: lk)
    ultimately show ?thesis by (simp add: lk(2) drop_take)
  next
    case False
    then show ?thesis by (simp add: slice_range_def Let_def lk)
  qed
qed

definition stored_data :: "pylib \<Rightarrow> string option \<Rightarrow> task_id \<Rightarrow> dict result" where
  "stored_data L x i = (case x of None \<Rightarrow> Inr [(''id'', JStr i)] | Some y \<Rightarrow> loads_dict L y)"

lemma load_tasks_page:
  "load_tasks L R p q st 0 True data items s =
    map_result (\<lambda>(ts, i). map_sum id (\<lambda>d. stored_task q d (Some st) (Some ts) [])
      (stored_data L (r_get R (task_key p i) s) i)) items"
proof (induction items arbitrary: data)
  case (Cons item items)
  obtain ts i where item: "item = (ts, i)" by (cases item)
  have bind: "bind_result r (\<lambda>d. Inr (f d # Ts)) = bind_result (map_sum id f r) (\<lambda>y. Inr (y # Ts))"
    for r :: "dict result" and f :: "dict \<Rightarrow> task" and Ts by (cases r) simp_all
  show ?case
    using Cons
    by (cases "r_get R (task_key p i) s"; cases "stored_data L (r_get R (task_key p i) s) i")
      (simp_all add: item stored_data_def load_executions_def del: loads_dict.simps)
qed simp

text \<open>With \<open>include_not_found\<close>, \<open>tasks_from_queue\<close> returns the number of tasks in the queue and one
  task for each entry of the page that \<open>skip\<close> and \<open>limit\<close> count from the latest entry on, in the order
  of the scores, whether or not the task's data is still there.\<close>

theorem tasks_from_queue_page:
  assumes "tiger_redis R kind p" "REDIS_PREFIX C = p" "0 < limit" "0 \<le> skip"
    and zs_def: "zs = zlist (place (tiger_view p (view R s)) st q)"
  shows "tasks_from_queue L R C q st skip limit 0 True s =
    map_sum id (Pair (length zs))
      (map_result (\<lambda>(ts, i). map_sum id (\<lambda>d. stored_task q d (Some st) (Some ts) [])
          (stored_data L (r_get R (task_key p i) s) i))
        (drop (length zs - nat skip - nat limit) (take (length zs - nat skip) zs)))"
proof -
  note server = tiger_redis.axioms(1) [OF assms(1)] and kinds = tiger_redis.kind_queue [OF assms(1)]
  have "r_zrange R (queue_key p st q) (- limit - skip) (- 1 - skip) s =
      drop (length zs - nat skip - nat limit) (take (length zs - nat skip) zs)"
    by (simp add: redis_server.zrange [OF server] kinds slice_page [OF assms(3,4)] zs_def)
  moreover have "r_zcard R (queue_key p st q) s = length zs"
    by (simp add: redis_server.zcard [OF server] kinds zs_def)
  ultimately show ?thesis
    by (simp add: tasks_from_queue_def Let_def assms(2) load_tasks_page)
qed

theorem tasks_from_queue_page_witness:
  "tasks_from_queue num_lib tmem default_config ''q'' ACTIVE 0 1 0 True ex_active =
    Inr (2, [stored_task ''q'' [(''id'', JStr ''y'')] (Some ACTIVE) (Some 50) []])"
proof -
  have state: "zsets (view tmem ex_active) (queue_key ''t'' ACTIVE ''q'') = zins 50 ''y'' (zins 1 ''x'' zempty)"
    "r_get tmem (task_key ''t'' ''y'') ex_active = None"
    by (simp_all add: ex_active_def mem_update_defs)
  show ?thesis
    using tasks_from_queue_page [OF tiger_mem.tiger_redis_axioms default_config_simps(1),
        of 1 0 _ ex_active ACTIVE "''q''" num_lib, OF _ _ refl]
    by (simp add: state zlist_eval stored_data_def)
qed

text \<open>
  The task of entry \<open>k\<close> gets the data of the nearest entry up to \<open>k\<close> that has data; without one it gets
  what the variable held before the loop.
\<close>

lemma load_tasks_carry:
  assumes "\<forall>(ts, i) \<in> set items. load_executions L R p i n_load s = Inr (executions i) \<and>
      (\<forall>x. r_get R (task_key p i) s = Some x \<longrightarrow> loads_dict L x = Inr (data i))"
    and stored: "stored = (\<lambda>k. r_get R (task_key p (snd (items ! k))) s \<noteq> None)"
    and loaded: "loaded = (\<lambda>d k. stored_task q d (Some st) (Some (fst (items ! k))) (executions (snd (items ! k))))"
  shows "\<exists>Ts. load_tasks L R p q st n_load False (Some d0) items s = Inr Ts \<and> length Ts = length items \<and>
    (\<forall>k < length items.
      (\<exists>j \<le> k. stored j \<and> (\<forall>m. j < m \<and> m \<le> k \<longrightarrow> \<not> stored m) \<and> Ts ! k = loaded (data (snd (items ! j))) k) \<or>
      (\<forall>m \<le> k. \<not> stored m) \<and> Ts ! k = loaded d0 k)"
  using assms
proof (induction items arbitrary: d0 stored loaded)
  case (Cons item items)
  obtain ts i where item: "item = (ts, i)" by (cases item)
  define d1 where "d1 = (if stored 0 then data i else d0)"
  obtain Ts where Ts: "load_tasks L R p q st n_load False (Some d1) items s = Inr Ts" "length Ts = length items"
    and rest: "\<And>k. k < length items \<Longrightarrow>
      (\<exists>j \<le> k. stored (Suc j) \<and> (\<forall>m. j < m \<and> m \<le> k \<longrightarrow> \<not> stored (Suc m)) \<and>
        Ts ! k = loaded (data (snd (items ! j))) (Suc k)) \<or>
      (\<forall>m \<le> k. \<not> stored (Suc m)) \<and> Ts ! k = loaded d1 (Suc k)"
    using Cons.IH [OF _ refl refl, of d1] Cons.prems by auto
  have first: "load_tasks L R p q st n_load False (Some d0) (item # items) s = Inr (loaded d1 0 # Ts)"
    using Cons.prems Ts(1) by (auto simp: item d1_def)
  show ?case
  proof (intro exI [of _ "loaded d1 0 # Ts"] conjI first allI impI)
    fix k assume k: "k < length (item # items)"
    show "(\<exists>j \<le> k. stored j \<and> (\<forall>m. j < m \<and> m \<le> k \<longrightarrow> \<not> stored m) \<and>
        (loaded d1 0 # Ts) ! k = loaded (data (snd ((item # items) ! j))) k) \<or>
      (\<forall>m \<le> k. \<not> stored m) \<and> (loaded d1 0 # Ts) ! k = loaded d0 k"
    proof (cases k)
      case 0
      then show ?thesis by (simp add: d1_def item)
    next
      case (Suc n)
      with k have "n < length items" by simp
      from rest [OF this] show ?thesis
      proof
        assume "\<exists>j \<le> n. stored (Suc j) \<and> (\<forall>m. j < m \<and> m \<le> n \<longrightarrow> \<not> stored (Suc m)) \<and>
          Ts ! n = loaded (data (snd (items ! j))) (Suc n)"
        then obtain j where "j \<le> n" "stored (Suc j)" "\<forall>m. j < m \<and> m \<le> n \<longrightarrow> \<not> stored (Suc m)"
          "Ts ! n = loaded (data (snd (items ! j))) (Suc n)"
          by blast
        moreover from this(3) have "\<not> stored m" if "Suc j < m" "m \<le> Suc n" for m
          using that by (cases m) simp_all
        ultimately show ?thesis
          unfolding Suc by (intro disjI1 exI [of _ "Suc j"]) simp
      next
        assume none: "(\<forall>m \<le> n. \<not> stored (Suc m)) \<and> Ts ! n = loaded d1 (Suc n)"
        then have "\<not> stored m" if "0 < m" "m \<le> Suc n" for m
          using that by (cases m) simp_all
        moreover from this have "\<not> stored 0 \<Longrightarrow> \<forall>m \<le> Suc n. \<not> stored m"
          by (metis bot_nat_0.not_eq_extremum)
        ultimately show ?thesis
          using none unfolding Suc by (cases "stored 0") (simp_all add: d1_def item exI [of _ 0])
      qed
    qed
  qed (simp add: Ts(2))
qed simp

text \<open>C40: what \<open>tasks_from_queue\<close> makes of entries whose data is gone, on every page and for any number of
  executions to load. With \<open>include_not_found\<close> they become tasks that have their identifier only. By
  default, a page whose first entry has lost its data raises \<^verbatim>\<open>UnboundLocalError\<close>, and on any other page
  every entry without data becomes a task with the data of another one, the nearest entry before it
  that has data, but with its own score and executions.\<close>

theorem tasks_from_queue_lost_data:
  assumes "tiger_redis R kind p" "REDIS_PREFIX C = p" "0 < limit" "0 \<le> skip"
    and zs: "zs = zlist (place (tiger_view p (view R s)) st q)"
    and items: "items = drop (length zs - nat skip - nat limit) (take (length zs - nat skip) zs)"
    and loads: "\<forall>(ts, i) \<in> set items. load_executions L R p i n_load s = Inr (executions i) \<and>
      (\<forall>x. r_get R (task_key p i) s = Some x \<longrightarrow> loads_dict L x = Inr (data i))"
    and stored: "stored = (\<lambda>k. r_get R (task_key p (snd (items ! k))) s \<noteq> None)"
    and loaded: "loaded = (\<lambda>d k. stored_task q d (Some st) (Some (fst (items ! k))) (executions (snd (items ! k))))"
  shows "tasks_from_queue L R C q st skip limit n_load True s =
      Inr (length zs, map (\<lambda>k. loaded (if stored k then data (snd (items ! k)) else [(''id'', JStr (snd (items ! k)))]) k)
        [0..<length items]) \<and>
    (if items \<noteq> [] \<and> \<not> stored 0 then tasks_from_queue L R C q st skip limit n_load False s = Inl UnboundLocalError
     else \<exists>Ts. tasks_from_queue L R C q st skip limit n_load False s = Inr (length zs, Ts) \<and> length Ts = length items \<and>
       (\<forall>k < length items. \<exists>j \<le> k. stored j \<and> (\<forall>m. j < m \<and> m \<le> k \<longrightarrow> \<not> stored m) \<and>
         Ts ! k = loaded (data (snd (items ! j))) k))"
proof -
  note server = tiger_redis.axioms(1) [OF assms(1)] and kinds = tiger_redis.kind_queue [OF assms(1)]
  have page: "tasks_from_queue L R C q st skip limit n_load b s =
      map_sum id (Pair (length zs)) (load_tasks L R p q st n_load b None items s)" for b
    by (simp add: tasks_from_queue_def Let_def assms(2) redis_server.zrange [OF server] redis_server.zcard [OF server]
        kinds slice_page [OF assms(3,4)] zs items)
  have found: "load_tasks L R p q st n_load True d0 xs s = Inr (map (\<lambda>(ts, i). stored_task q
      (if r_get R (task_key p i) s \<noteq> None then data i else [(''id'', JStr i)]) (Some st) (Some ts) (executions i)) xs)"
    if "set xs \<subseteq> set items" for d0 xs
    using that loads by (induction xs arbitrary: d0) (auto simp del: loads_dict.simps split: option.splits)
  have "tasks_from_queue L R C q st skip limit n_load True s =
      Inr (length zs, map (\<lambda>k. loaded (if stored k then data (snd (items ! k)) else [(''id'', JStr (snd (items ! k)))]) k)
        [0..<length items])"
    unfolding page found [OF order.refl] loaded stored
    by (simp del: not_None_eq) (rule nth_equalityI, simp_all add: case_prod_beta del: not_None_eq)
  moreover have "if items \<noteq> [] \<and> \<not> stored 0 then tasks_from_queue L R C q st skip limit n_load False s = Inl UnboundLocalError
     else \<exists>Ts. tasks_from_queue L R C q st skip limit n_load False s = Inr (length zs, Ts) \<and> length Ts = length items \<and>
       (\<forall>k < length items. \<exists>j \<le> k. stored j \<and> (\<forall>m. j < m \<and> m \<le> k \<longrightarrow> \<not> stored m) \<and>
         Ts ! k = loaded (data (snd (items ! j))) k)"
  proof (cases items)
    case (Cons item rest)
    obtain ts i where item: "item = (ts, i)" by (cases item)
    show ?thesis
    proof (cases "stored 0")
      case True
      then have "load_tasks L R p q st n_load False None items s = load_tasks L R p q st n_load False (Some (data i)) items s"
        using loads by (auto simp: Cons item stored simp del: loads_dict.simps split: option.splits)
      then obtain Ts where "load_tasks L R p q st n_load False None items s = Inr Ts" "length Ts = length items"
        "\<forall>k < length items. (\<exists>j \<le> k. stored j \<and> (\<forall>m. j < m \<and> m \<le> k \<longrightarrow> \<not> stored m) \<and>
          Ts ! k = loaded (data (snd (items ! j))) k) \<or> (\<forall>m \<le> k. \<not> stored m) \<and> Ts ! k = loaded (data i) k"
        using load_tasks_carry [OF loads stored loaded] by metis
      with True show ?thesis unfolding page by fastforce
    next
      case False
      then show ?thesis
        using loads unfolding page by (simp add: Cons item stored)
    qed
  qed (simp add: page)
  ultimately show ?thesis ..
qed

definition ex_lost :: memdb where
  "ex_lost = r_set tmem (task_key ''t'' ''x'') (json_dumps num_lib (JObj [(''id'', JStr ''x'')])) ex_active"

text \<open>The entry \<open>y\<close> has lost its data: it is listed as a second task \<open>x\<close>, and raises on a page of its own.\<close>

theorem tasks_from_queue_lost_data_witness:
  "tasks_from_queue num_lib tmem default_config ''q'' ACTIVE 0 2 0 False ex_lost =
    Inr (2, [stored_task ''q'' [(''id'', JStr ''x'')] (Some ACTIVE) (Some 1) [],
      stored_task ''q'' [(''id'', JStr ''x'')] (Some ACTIVE) (Some 50) []]) \<and>
   tasks_from_queue num_lib tmem default_config ''q'' ACTIVE 0 1 0 False ex_lost = Inl UnboundLocalError"
proof -
  let ?zs = "[(1, ''x''), (50, ''y'')] :: (score \<times> task_id) list"
  have get: "r_get tmem (task_key ''t'' i) ex_lost =
      (if i = ''x'' then Some (json_dumps num_lib (JObj [(''id'', JStr ''x'')])) else None)" for i
    by (simp add: ex_lost_def ex_active_def mem_update_defs)
  have zs: "?zs = zlist (place (tiger_view ''t'' (view tmem ex_lost)) ACTIVE ''q'')"
    by (simp add: ex_lost_def ex_active_def mem_update_defs zlist_eval)
  have loads: "\<forall>(ts, i) \<in> set items. load_executions num_lib tmem ''t'' i 0 ex_lost = Inr [] \<and>
      (\<forall>x. r_get tmem (task_key ''t'' i) ex_lost = Some x \<longrightarrow> loads_dict num_lib x = Inr [(''id'', JStr ''x'')])"
    for items :: "(score \<times> task_id) list"
    by (auto simp: load_executions_def get loads_dict_dumps num_lib_ok simp del: loads_dict.simps)
  note lost = tasks_from_queue_lost_data [OF tiger_mem.tiger_redis_axioms default_config_simps(1) _ _ zs refl loads refl refl,
      THEN conjunct2]
  have "\<exists>Ts. tasks_from_queue num_lib tmem default_config ''q'' ACTIVE 0 2 0 False ex_lost = Inr (2, Ts) \<and> length Ts = 2 \<and>
      (\<forall>k < 2. \<exists>j \<le> k. Ts ! k = stored_task ''q'' [(''id'', JStr ''x'')] (Some ACTIVE) (Some (fst (?zs ! k))) [])"
    using lost [of 2 0] by (simp add: get numeral_2_eq_2) (elim exE conjE, intro exI conjI, assumption+, blast)
  moreover have "tasks_from_queue num_lib tmem default_config ''q'' ACTIVE 0 1 0 False ex_lost = Inl UnboundLocalError"
    using lost [of 1 0] by (simp add: get)
  ultimately show ?thesis
    by (auto simp: numeral_2_eq_2 All_less_Suc2 length_Suc_conv)
qed

end
