(* ===== verification/Worker_Laws.thy ===== *)
theory Worker_Laws
  imports Worker_Closure Task_Properties
begin

text \<open>
  What the operations that the worker is made of do to the store. The locale \<open>tiger_world\<close> adds the
  clock to the server: reading the time changes no data. The two pops of the worker refine
  \<open>due_in_store\<close> and \<open>take_in_store\<close>.
\<close>

subsection \<open>The world\<close>

locale tiger_world = tiger_redis R kind p
  for R :: "'r redis" and kind :: "key \<Rightarrow> ktype" and p :: string +
  fixes P :: "'r program" and C :: config
  assumes prefix [simp]: "REDIS_PREFIX C = p"
    and timeout_pos [simp]: "0 < ACTIVE_TASK_UPDATE_TIMEOUT C"
    and view_read_time [simp]: "view R (snd (read_time P s)) = view R s"

interpretation world_mem: tiger_world "mem_redis (tiger_kind ''t'')" "tiger_kind ''t''" "''t''"
  ex_program default_config
  by unfold_locales (simp_all add: ex_program_def default_config_def)

lemma qslock_neq_queue [simp]:
  "tiger_key p [''qslock'', q] \<noteq> queue_key p st q'" "queue_key p st q' \<noteq> tiger_key p [''qslock'', q]"
  by (simp_all add: tiger_key_eq)

lemma store_view_qslock [store_view]:
  "tiger_view p (d\<lparr>zsets := (zsets d)(tiger_key p [''qslock'', q] := z)\<rparr>) = tiger_view p d"
  by (simp add: tiger_view_def fun_eq_iff)

lemma store_view_held [store_view]: "tiger_view p (d\<lparr>held := h\<rparr>) = tiger_view p d"
  by (simp add: tiger_view_def fun_eq_iff)

lemma indexed_send: "indexed (send c x t) = indexed t"
  by (simp add: indexed_def)

context tiger_redis
begin

lemma store_lock_acquire [simp]:
  "store_of (snd (r_lock_acquire R (tiger_key p (''lockv2'' # parts)) t s)) = store_of s"
  by (simp add: view_lock_acquire kind_lock store_view split: option.split)

lemma store_lock_release [simp]:
  "store_of (snd (r_lock_release R (tiger_key p (''lockv2'' # parts)) token s)) = store_of s"
  by (simp add: view_lock_release kind_lock store_view)

lemma store_lock_reacquire [simp]:
  "store_of (snd (r_lock_reacquire R (tiger_key p (''lockv2'' # parts)) token s)) = store_of s"
  by (simp add: view_lock_reacquire kind_lock)

lemma store_publish [simp]: "store_of (r_publish R c x s) = send c x (store_of s)"
  by (simp add: redis_law store_view)


end

subsection \<open>Popping tasks into another state\<close>

lemma store_view_zmove [store_view]:
  "st \<noteq> st' \<Longrightarrow> tiger_view p (db_zmove (queue_key p st q) (queue_key p st' q) ms ps d) =
    put_tasks st' q (zins_all ps (zsets d (queue_key p st' q)))
      (put_tasks st q (zremove_all ms (zsets d (queue_key p st q))) (tiger_view p d))"
  by (auto simp: tiger_view_def put_tasks_def db_zmove_def fun_eq_iff)

lemma store_view_zins_min [store_view]:
  "tiger_view p (db_zins_min (queue_key p st q) sc ms d) =
    put_tasks st q (fold (zins_min sc) ms (zsets d (queue_key p st q))) (tiger_view p d)"
  by (auto simp: tiger_view_def put_tasks_def db_zins_min_def fun_eq_iff)

lemma store_view_update_sets [store_view]:
  "st \<noteq> st' \<Longrightarrow> tiger_view p (db_update_sets (queue_key p st q) q (state_key p st) (state_key p st') d) =
    list_queue st' q (unlist_empty st q (tiger_view p d))"
  by (auto simp: tiger_view_def db_update_sets_def list_queue_def unlist_empty_def fun_eq_iff)

lemma store_view_list_present [store_view]:
  "tiger_view p (db_list_present (queue_key p st q) q (state_key p st) d) =
    list_nonempty st q (tiger_view p d)"
  by (auto simp: tiger_view_def db_list_present_def list_nonempty_def list_queue_def fun_eq_iff)

lemma fold_zins_min_eq_zempty [simp]:
  "fold (zins_min sc) ms z = zempty \<longleftrightarrow> ms = [] \<and> z = zempty"
  by (induction ms arbitrary: z) auto

text \<open>
  The two pops of the worker: due tasks become queued, and queued tasks become active while those
  that are active already are scheduled for later.
\<close>

definition new_members :: "member list \<Rightarrow> zset \<Rightarrow> member list" where
  "new_members ms z = filter (\<lambda>m. zget z m = None) ms"

definition old_members :: "member list \<Rightarrow> zset \<Rightarrow> member list" where
  "old_members ms z = filter (\<lambda>m. zget z m \<noteq> None) ms"

definition pop_in_store ::
    "task_state \<Rightarrow> task_state \<Rightarrow> queue_name \<Rightarrow> member list \<Rightarrow> score \<Rightarrow> store \<Rightarrow> store" where
  "pop_in_store st st' q ms score t =
     put_tasks st' q (zins_all (with_score score (new_members ms (place t st' q))) (place t st' q))
       (put_tasks st q (zremove_all ms (place t st q)) t)"

definition due_in_store :: "queue_name \<Rightarrow> member list \<Rightarrow> time \<Rightarrow> store \<Rightarrow> store" where
  "due_in_store q ms now t =
     (if ms = [] then t
      else list_queue QUEUED q (unlist_empty SCHEDULED q (pop_in_store SCHEDULED QUEUED q ms now t)))"

definition take_in_store :: "queue_name \<Rightarrow> member list \<Rightarrow> time \<Rightarrow> time \<Rightarrow> store \<Rightarrow> store" where
  "take_in_store q ms now later t =
     (if ms = [] then t
      else let t1 = pop_in_store QUEUED ACTIVE q ms now t;
               t2 = put_tasks SCHEDULED q
                 (fold (zins_min later) (old_members ms (place t ACTIVE q)) (place t SCHEDULED q)) t1
           in list_nonempty SCHEDULED q (list_queue ACTIVE q (unlist_empty QUEUED q t2)))"

lemma pop_target_nonempty:
  assumes "ms \<noteq> []"
  shows "zins_all (with_score score (new_members ms z)) z \<noteq> zempty"
proof (cases "new_members ms z = []")
  case True
  then have "\<forall>m \<in> set ms. zget z m \<noteq> None"
    by (simp add: new_members_def filter_empty_conv)
  with assms have "z \<noteq> zempty"
    by (cases ms) (auto dest: zget_zempty_neq)
  then show ?thesis by simp
qed (simp add: with_score_def)

lemma indexed_due_in_store:
  assumes "indexed t" "ms \<noteq> [] \<Longrightarrow> place t SCHEDULED q \<noteq> zempty"
  shows "indexed (due_in_store q ms now t)"
  using assms pop_target_nonempty [of ms now "place t QUEUED q"]
  by (cases "ms = []") (auto simp: indexed_def due_in_store_def pop_in_store_def)

lemma indexed_take_in_store:
  assumes "indexed t" "ms \<noteq> [] \<Longrightarrow> place t QUEUED q \<noteq> zempty"
  shows "indexed (take_in_store q ms now later t)"
  using assms pop_target_nonempty [of ms now "place t ACTIVE q"]
  by (cases "ms = []") (auto simp: indexed_def take_in_store_def pop_in_store_def Let_def)

definition popped_tasks ::
    "'r redis \<Rightarrow> string \<Rightarrow> task_state \<Rightarrow> queue_name \<Rightarrow> score option \<Rightarrow> int \<Rightarrow> 'r \<Rightarrow> member list" where
  "popped_tasks R p st q score n s = pop_members R (queue_key p st q) score n s"

lemma zsets_zmove_other [simp]:
  "k \<noteq> source \<Longrightarrow> k \<noteq> destination \<Longrightarrow> zsets (db_zmove source destination ms ps d) k = zsets d k"
  by (simp add: db_zmove_def)

context tiger_redis
begin

lemma popped_nonempty:
  assumes "popped_tasks R p st q score n s \<noteq> []"
  shows "place (store_of s) st q \<noteq> zempty"
proof -
  have "hd (pop_members R (queue_key p st q) score n s) \<in> set (pop_members R (queue_key p st q) score n s)"
    using assms by (simp add: popped_tasks_def)
  from pop_members_subset [OF kind_queue this] show ?thesis
    by (auto dest: zget_zempty_neq)
qed

lemma store_due:
  "store_of (snd (zpoppush_exists_ignore_update_sets R (queue_key p SCHEDULED q) (queue_key p QUEUED q)
      (state_key p SCHEDULED) (state_key p QUEUED) score n now q s)) =
    due_in_store q (popped_tasks R p SCHEDULED q score n s) now (store_of s)"
  by (subst view_zpoppush_exists_ignore_update_sets [OF _ _ _ _ _ _ refl refl])
    (simp_all add: key_law due_in_store_def pop_in_store_def popped_tasks_def new_members_def store_view
      zremove_all_def)

lemma store_take:
  assumes "REDIS_PREFIX C = p"
  shows "store_of (snd (take_tasks R C q n now later s)) =
    take_in_store q (popped_tasks R p QUEUED q None n s) now later (store_of s)"
  unfolding take_tasks_def assms Let_def
  by (subst view_zpoppush_exists_min_update_sets [OF _ _ _ _ _ _ _ _ _ _ refl refl refl])
    (simp_all add: key_law take_in_store_def pop_in_store_def popped_tasks_def new_members_def
      old_members_def store_view Let_def)

end

subsection \<open>The locks of queues are not in the store\<close>

context tiger_world
begin

lemma store_acquire: "store_of (snd (acquire R (queue_semaphore C W q n) now s)) = store_of s"
  by (simp add: queue_semaphore_def kind_qslock view_acquire [OF _ _ refl] store_view)

lemma store_release: "store_of (release R (queue_semaphore C W q n) s) = store_of s"
  by (simp add: queue_semaphore_def kind_qslock view_release store_view)

end

end
