(* ===== verification/Execution_Laws.thy ===== *)
theory Execution_Laws
  imports Worker_Laws
begin

text \<open>
  What the execution of a group of tasks does to the store: the record of a failure. With it all
  operations that the worker is made of are known to keep the index of non-empty queues, and the
  locale \<open>worker_closure\<close> extends this to the worker's main loop.
\<close>

subsection \<open>Recording an execution\<close>

definition newest :: "int option \<Rightarrow> 'a list \<Rightarrow> 'a list" where
  "newest max_stored xs =
     (case max_stored of None \<Rightarrow> xs | Some n \<Rightarrow> if n = 0 then xs else slice_range (- n) (- 1) xs)"

definition record_in_store :: "string \<Rightarrow> int option \<Rightarrow> task_id \<Rightarrow> store \<Rightarrow> store" where
  "record_in_store x max_stored i t = t
     \<lparr>execs := (execs t)(i := newest max_stored (execs t i @ [x])),
      execs_count := (execs_count t)(i := Some (incr_string (execs_count t i)))\<rparr>"

lemma newest_last: "newest m (xs @ [x]) \<noteq> [] \<Longrightarrow> \<forall>n \<in> set_option m. 0 \<le> n \<Longrightarrow> last (newest m (xs @ [x])) = x"
  by (auto simp: newest_def slice_range_last split: option.splits if_splits)

lemma newest_positive: "0 < n \<Longrightarrow> newest (Some n) xs = drop (length xs - nat n) xs"
  by (simp add: newest_def slice_range_last)

lemma place_record [simp]:
  "place (record_in_store x m i t) = place t" "listed (record_in_store x m i t) = listed t"
  "task_data (record_in_store x m i t) = task_data t"
  "execs (record_in_store x m i t) = (execs t)(i := newest m (execs t i @ [x]))"
  "execs_count (record_in_store x m i t) = (execs_count t)(i := Some (incr_string (execs_count t i)))"
  by (simp_all add: record_in_store_def)

lemma store_view_count [store_view]:
  "colon_free i \<Longrightarrow> tiger_view p (d\<lparr>strs := (strs d)(count_key p i := Some x)\<rparr>) =
    (tiger_view p d)\<lparr>execs_count := (execs_count (tiger_view p d))(i := Some x)\<rparr>"
  by (auto simp: tiger_view_def fun_eq_iff)

lemma store_view_executions [store_view]:
  "colon_free i \<Longrightarrow> tiger_view p (d\<lparr>lists := (lists d)(executions_key p i := xs)\<rparr>) =
    (tiger_view p d)\<lparr>execs := (execs (tiger_view p d))(i := xs)\<rparr>"
  by (auto simp: tiger_view_def fun_eq_iff)

context tiger_redis
begin

lemma store_record:
  "colon_free i \<Longrightarrow>
    store_of (store_one_execution R p x i m s) = record_in_store x m i (store_of s)"
  by (auto simp: store_one_execution_def Let_def redis_law kind_count kind_executions tiger_view_def
      record_in_store_def newest_def fun_eq_iff split: option.split)

lemma index_record:
  "place (store_of (store_one_execution R p x i m s)) = place (store_of s)"
  "listed (store_of (store_one_execution R p x i m s)) = listed (store_of s)"
  by (auto simp: store_one_execution_def Let_def redis_law kind_count kind_executions tiger_view_def
      split: option.split)

lemma index_store_executions:
  "store_executions R p x Ts s = (r, s') \<Longrightarrow>
    place (store_of s') = place (store_of s) \<and> listed (store_of s') = listed (store_of s)"
  by (induction Ts arbitrary: s)
    (auto simp: index_record simp del: tiger_view_simps split: sum.splits)

lemma store_executions_eq:
  assumes "map_result task_id Ts = Inr ids" "list_all colon_free ids"
  shows "\<exists>s'. store_executions R p x Ts s = (Inr (), s') \<and>
    store_of s' = fold (\<lambda>(i, m). record_in_store x m i) (zip ids (map max_stored_executions Ts)) (store_of s)"
  using assms
proof (induction Ts arbitrary: ids s)
  case (Cons T Ts)
  then obtain i ids' where "task_id T = Inr i" "map_result task_id Ts = Inr ids'" "ids = i # ids'"
    by (auto simp: bind_result_Inr_iff)
  moreover from this Cons.prems have "list_all colon_free ids'" "colon_free i" by simp_all
  ultimately show ?case
    using Cons.IH [of ids' "store_one_execution R p x i (max_stored_executions T) s"]
    by (simp add: store_record del: tiger_view_simps)
qed simp

end

lemma record_fold:
  assumes "distinct (map fst ims)"
  shows "place (fold (\<lambda>(i, m). record_in_store x m i) ims t) = place t \<and>
    listed (fold (\<lambda>(i, m). record_in_store x m i) ims t) = listed t \<and>
    task_data (fold (\<lambda>(i, m). record_in_store x m i) ims t) = task_data t \<and>
    execs (fold (\<lambda>(i, m). record_in_store x m i) ims t) =
      (\<lambda>i. case map_of ims i of None \<Rightarrow> execs t i | Some m \<Rightarrow> newest m (execs t i @ [x])) \<and>
    execs_count (fold (\<lambda>(i, m). record_in_store x m i) ims t) =
      (\<lambda>i. case map_of ims i of None \<Rightarrow> execs_count t i | Some m \<Rightarrow> Some (incr_string (execs_count t i)))"
  using assms
proof (induction ims arbitrary: t)
  case (Cons im ims)
  obtain i m where im: "im = (i, m)" by (cases im)
  have "map_of ims i = None"
    using Cons.prems by (auto simp: im map_of_eq_None_iff)
  with Cons show ?case by (auto simp: im fun_eq_iff split: option.split)
qed simp

subsection \<open>The index, operation by operation\<close>

abbreviation index_exact :: "'r redis \<Rightarrow> string \<Rightarrow> 'r \<Rightarrow> bool" where
  "index_exact R p s \<equiv> indexed (tiger_view p (view R s))"

text \<open>The operations of the worker keep the index, so everything that is made of them does.\<close>

sublocale tiger_world \<subseteq> index: worker_closure R P C "index_exact R p" "\<lambda>_. True"
proof unfold_locales
  show "index_exact R p s'" if "read_time P s = (now, s')" "index_exact R p s" for s now s'
    using view_read_time [of s] that by simp
  show "index_exact R p (enqueue R C st q i x ts s)" if "colon_free i" "index_exact R p s" for i st q x ts s
    using that by (simp only: store_enqueue [OF prefix] indexed_enqueue_in_store)
  show "index_exact R p s'"
    if "move_task R (REDIS_PREFIX C) i q ACTIVE to_state unique ts mode (PUBLISH_QUEUED_TASKS C) s = Inr s'"
      "index_exact R p s" for i q to_state unique ts mode s s'
    using move_task_indexed_any that by (simp only: prefix)
  show "index_exact R p s'" if "take_tasks R C q n now later s = (ids, s')" "index_exact R p s" for q n now later s ids s'
    using store_take [OF prefix, of q n now later s] popped_nonempty [of QUEUED q None n s] that
    by (auto simp: indexed_take_in_store simp del: tiger_view_simps)
  show "index_exact R p (snd (zpoppush_exists_ignore_update_sets R (queue_key (REDIS_PREFIX C) SCHEDULED q)
      (queue_key (REDIS_PREFIX C) QUEUED q) (state_key (REDIS_PREFIX C) SCHEDULED) (state_key (REDIS_PREFIX C) QUEUED)
      (Some now) (SCHEDULED_TASK_BATCH_SIZE C) now q s))" if "index_exact R p s" for q now s
    using that popped_nonempty [of SCHEDULED q "Some now" "SCHEDULED_TASK_BATCH_SIZE C" s]
    by (simp only: prefix store_due) (rule indexed_due_in_store)
  show "index_exact R p (store_one_execution R (REDIS_PREFIX C) x i limit s)" if "index_exact R p s" for x i limit s
    using that indexed_frame [OF index_record] by (simp only: prefix)
  show "index_exact R p s'"
    if "r_lock_acquire R (tiger_key (REDIS_PREFIX C) (''lockv2'' # parts)) timeout s = (token, s')" "index_exact R p s"
    for parts timeout s token s'
    using store_lock_acquire [of parts timeout s] that by (metis prefix snd_conv)
qed (simp_all add: indexed_send store_acquire store_release del: tiger_view_simps)

context tiger_world
begin

lemmas main_keeps_index = index.good_worker_main
lemmas sync_keeps_index = index.application_keeps_sync

end

end
