(* ===== verification/Worker_Properties.thy ===== *)
theory Worker_Properties
  imports Execution_Laws
begin

text \<open>
  The properties of the worker: what happens to the tasks that it takes, finishes or requeues, which
  queues it looks at, and what it records.
\<close>

subsection \<open>A worker to try the properties on\<close>

definition ex_config :: config where
  "ex_config = default_config\<lparr>POLL_TASK_QUEUES_INTERVAL := 1\<rparr>"

definition ex_iteration :: iteration where
  "ex_iteration = \<lparr>wait_start = 0, wait_rounds = [], queue_order = (\<lambda>qs. qs), utc_time = 0, past_exit = False\<rparr>"

definition ex_worker :: worker where
  "ex_worker = \<lparr>worker_id = ''w'', only_queues = [], exclude_queues = [], single_worker_queues = [],
     max_workers_per_queue = None, store_tracebacks = True, did_work = True, last_task_check = 0,
     queue_set = [], stop_requested = False\<rparr>"

lemma ex_world: "tiger_world tmem (tiger_kind ''t'') ''t'' ex_program ex_config"
  by unfold_locales (simp_all add: ex_program_def ex_config_def default_config_def)

lemma ex_program_keeps: "program_keeps G ex_program"
  by (simp add: program_keeps_def ex_program_def keeps_def)

lemma ex_config_simps [simp]: "REDIS_PREFIX ex_config = ''t''" "\<not> ALWAYS_EAGER ex_config"
  "PUBLISH_QUEUED_TASKS ex_config" "POLL_TASK_QUEUES_INTERVAL ex_config = 1"
  by (simp_all add: ex_config_def default_config_def)

text \<open>A forced single round always returns.\<close>

lemma force_once_returns:
  "\<exists>r W' s'. run_loop L matches P R ex_config E funcs stopped True True [it] W s = Some (r, W', s')"
  by (simp add: wait_for_queues_def split: prod.split sum.split)

lemma ex_requeued_indexed: "indexed (ex_store ex_requeued)"
  by (auto simp: indexed_def ex_requeued_db)

subsection \<open>Finishing a task\<close>

context tiger_world
begin

lemma move_Inr:
  assumes "move R C now (Some st) st' w mode T s = (Inr r, T', s')" "the_queue T = Inr q" "task_id T = Inr i"
    and "colon_free i" "known_mode (none_to_empty_str mode)"
  shows "task_at (store_of s) st q i \<and> T' = T\<lparr>t_state := st'\<rparr> \<and>
    store_of s' = move_in_store p i q st st' (is_unique T) (or_now w now) (none_to_empty_str mode)
      (PUBLISH_QUEUED_TASKS C) (store_of s)"
  using move_cases [OF prefix assms(2-4) _ assms(5), where from_state = "Some st" and st = st
      and now = now and to_state = st' and w = w and s = s] assms(1)
  by (simp del: tiger_view_simps split: if_splits)

lemma finish_failed_Inr:
  assumes "finish_failed P R C T execution now state w log_error s = (Inr (), s')"
    and "the_queue T = Inr q" "task_id T = Inr i" "colon_free i" "serialized_runner_class T = None"
  shows "task_at (store_of s) ACTIVE q i \<and>
    store_of s' = (if state = ERROR \<and> \<not> log_error
      then move_in_store p i q ACTIVE None (is_unique T) now '''' (PUBLISH_QUEUED_TASKS C) (store_of s)
      else move_in_store p i q ACTIVE (Some state) (is_unique T) (or_now (Some w) now) ''''
        (PUBLISH_QUEUED_TASKS C) (store_of s))"
  using assms(1,5)
  by (auto simp: finish_failed_def serialized_runner_class_def simp del: tiger_view_simps or_now.simps(2)
      split: if_splits prod.splits sum.splits option.splits dest!: move_Inr [OF _ assms(2-4)])

lemma finish_Inr:
  assumes "finish_task_processing L P R C exit_on_timeout T success s = (Inr (), s')"
    and "the_queue T = Inr q" "task_id T = Inr i" "colon_free i" "serialized_runner_class T = None"
  shows "task_at (store_of s) ACTIVE q i \<and> (\<exists>st ts.
    (if success then st = None else st \<in> {None, Some SCHEDULED, Some ERROR}) \<and>
    store_of s' = move_in_store p i q ACTIVE st (is_unique T) ts '''' (PUBLISH_QUEUED_TASKS C) (store_of s))"
proof -
  obtain now s1 where s1: "read_time P s = (now, s1)" by fastforce
  then have store: "store_of s1 = store_of s" using view_read_time [of s] by simp
  have final: "st = ERROR \<or> st = SCHEDULED" if "next_state P R C T decision now s1 = Inr (st, w)" for decision st w
    using that by (auto simp: next_state_eq bind_result_Inr_iff Let_def
        split: option.splits sum.splits prod.splits if_splits) (metis sum.exhaust)+
  show ?thesis
  proof (cases success)
    case True
    with assms(1) s1 show ?thesis
      by (auto simp: finish_task_processing_def bind_state_Inr_iff bind_result_Inr_iff simp flip: store
          simp del: tiger_view_simps split: prod.splits dest!: move_Inr [OF _ assms(2-4)])
  next
    case False
    with assms(1) s1 obtain execution st w decision log_error where
      "next_state P R C T decision now s1 = Inr (st, w)"
      "finish_failed P R C T execution now st w log_error s1 = (Inr (), s')"
      by (auto simp: finish_task_processing_def bind_state_Inr_iff bind_result_Inr_iff split: if_splits)
    note state = this
    define target where "target = (if st = ERROR \<and> \<not> log_error then None else Some st)"
    obtain ts where "task_at (store_of s1) ACTIVE q i"
      "store_of s' = move_in_store p i q ACTIVE target (is_unique T) ts '''' (PUBLISH_QUEUED_TASKS C) (store_of s1)"
      using finish_failed_Inr [OF state(2) assms(2-5)]
      by (auto simp: target_def simp del: tiger_view_simps or_now.simps split: if_splits)
    moreover have "target \<in> {None, Some SCHEDULED, Some ERROR}"
      using final [OF state(1)] by (auto simp: target_def)
    ultimately show ?thesis
      using False unfolding store by (intro conjI exI [of _ target] exI [of _ ts]) simp_all
  qed
qed

end

text \<open>C22: when the processing of a task is finished without an exception, the task was active and is
  active no longer; a task that succeeded is nowhere else because of it, one that failed is now
  scheduled, or an error, or gone; and no other task, queue or state has changed.\<close>

theorem finish_leaves_active:
  assumes "tiger_world R kind p P C" "the_queue T = Inr q" "task_id T = Inr i" "colon_free i"
    and "serialized_runner_class T = None"
    and "finish_task_processing L P R C exit_on_timeout T success s = (Inr (), s')"
  shows "task_at (tiger_view p (view R s)) ACTIVE q i \<and> \<not> task_at (tiger_view p (view R s')) ACTIVE q i \<and>
    (\<exists>target. (target = None \<or> \<not> success \<and> target \<in> {Some SCHEDULED, Some ERROR}) \<and>
      (\<forall>st. target = Some st \<longrightarrow> task_at (tiger_view p (view R s')) st q i) \<and>
      (\<forall>st q' j. q' = q \<and> j = i \<and> (st = ACTIVE \<or> target = Some st) \<or>
        task_score (tiger_view p (view R s')) st q' j = task_score (tiger_view p (view R s)) st q' j))"
proof -
  obtain target ts where target: "if success then target = None else target \<in> {None, Some SCHEDULED, Some ERROR}"
    and store: "tiger_view p (view R s') = move_in_store p i q ACTIVE target (is_unique T) ts ''''
      (PUBLISH_QUEUED_TASKS C) (tiger_view p (view R s))"
    and active: "task_at (tiger_view p (view R s)) ACTIVE q i"
    using tiger_world.finish_Inr [OF assms(1,6,2-5)] by blast
  show ?thesis
    using active target unfolding store task_at_def move_in_store_score
    by (intro conjI exI [of _ target]) (auto split: if_splits)
qed

context tiger_world
begin

text \<open>The execution that the worker reads back, and the number of executions, in terms of the store.\<close>

lemma last_execution_eq:
  assumes "colon_free i" "execs (store_of s) i = xs @ [x]" "x \<noteq> []" "loads_dict L x = Inr d" "d \<noteq> []"
  shows "last_execution L R C i s = Inr (Some d)"
  using assms by (simp add: last_execution_def kind_executions lindex_last)

lemma n_executions_eq:
  assumes "colon_free i" "task_id T = Inr i" "task_data (store_of s) i \<noteq> None"
  shows "n_executions R C T s =
    Inr (case execs_count (store_of s) i of None \<Rightarrow> 0 | Some c \<Rightarrow> nat_of_dec c)"
  using assms by (simp add: n_executions_def exists_key kind_task kind_count get_str)

lemma finish_failed_retried:
  assumes "the_queue T = Inr q" "task_id T = Inr i" "colon_free i" "serialized_runner_class T = None"
    and "task_at (store_of s) ACTIVE q i" "state \<in> {SCHEDULED, ERROR}"
  shows "\<exists>s'. finish_failed P R C T execution now state w True s = (Inr (), s') \<and>
    store_of s' = move_in_store p i q ACTIVE (Some state) (is_unique T) (or_now (Some w) now) ''''
      (PUBLISH_QUEUED_TASKS C) (store_of s)"
  using move_cases [OF prefix assms(1-3), where from_state = "Some ACTIVE" and st = ACTIVE
      and now = now and to_state = "Some state" and w = "Some w" and s = s and mode = None] assms(4-6)
  by (auto simp: finish_failed_def serialized_runner_class_def simp del: tiger_view_simps or_now.simps)

end

lemma failed_task_outcome_lemma:
  assumes "tiger_world R kind p P C" "the_queue T = Inr q" "task_id T = Inr i" "colon_free i"
    and "serialized_func T = Inr name" "serialized_runner_class T = None"
    and "task_at t ACTIVE q i" "task_data t i \<noteq> None" "execs t i = xs @ [x]" "x \<noteq> []"
    and "loads_dict L x = Inr d" "dict_get d ''exception_name'' = Some (JStr exc)"
    and "\<not> truthy (get_default d ''retry'' JNull)"
    and "retry_method T = Inr (Some (f, args))" "retry_on T = []"
    and "import_attribute (resolve_retry P) f = Inr func"
    and t: "t = tiger_view p (view R s)" and now: "now = fst (read_time P s)"
    and n: "n = (case execs_count t i of None \<Rightarrow> 0 | Some c \<Rightarrow> nat_of_dec c)"
    and moved: "moved = (\<lambda>st ts. move_in_store p i q ACTIVE (Some st) (is_unique T) ts '''' (PUBLISH_QUEUED_TASKS C) t)"
    and final: "final = (if exit_on_timeout \<and> exc = exception_name JobTimeoutException then Inl SystemExit else Inr ())"
    and "finish_task_processing L P R C exit_on_timeout T False s = (r, s')"
  shows "case func (max 1 (int n)) args of
      Inr retry_delay \<Rightarrow> r = final \<and>
        tiger_view p (view R s') = moved SCHEDULED (or_now (Some (now + retry_delay)) now)
    | Inl e \<Rightarrow>
        if e = StopRetry then r = final \<and> tiger_view p (view R s') = moved ERROR now
        else r = Inl e \<and> tiger_view p (view R s') = t"
proof -
  obtain s1 where s1: "read_time P s = (now, s1)" by (simp add: now prod_eq_iff)
  have store: "tiger_view p (view R s1) = t"
    using tiger_world.view_read_time [OF assms(1), of s] s1 by (simp add: t)
  have nonempty: "d \<noteq> []" using assms(12) by (auto simp: dict_get_def)
  have last: "last_execution L R C i s1 = Inr (Some d)"
    by (rule tiger_world.last_execution_eq [OF assms(1,4) _ assms(10,11) nonempty])
      (simp add: store assms(9) del: tiger_view_simps)
  have count: "n_executions R C T s1 = Inr n"
    using tiger_world.n_executions_eq [OF assms(1,4,3), of s1] assms(8) by (simp only: store n not_False_eq_True)
  have decision: "retry_decision P C T (Some d) = Inr (Some (f, args), True)"
    using assms(13-15) by (simp add: retry_decision_def retries_on_failure_def)
  have num: "max 1 (int n) = (if n = 0 then 1 else int n)" by simp
  have state: "next_state P R C T (Some (f, args)) now s1 = (case func (max 1 (int n)) args of
      Inl e \<Rightarrow> if e = StopRetry then Inr (ERROR, now) else Inl e
    | Inr retry_delay \<Rightarrow> Inr (SCHEDULED, now + retry_delay))"
    unfolding next_state_eq num by (simp add: count assms(16))
  have timed: "execution_timed_out (Some d) = Inr (exc = exception_name JobTimeoutException)"
    using assms(12) by (simp add: execution_timed_out_def)
  have "task_at (tiger_view p (view R s1)) ACTIVE q i" using assms(7) store by simp
  note finish = tiger_world.finish_failed_retried [OF assms(1-4,6) this]
  have run: "(r, s') = bind_state (next_state P R C T (Some (f, args)) now s1, s1) (\<lambda>(state, w) s1.
      bind_state (finish_failed P R C T (Some d) now state w True s1) (\<lambda>_ s2. (final, s2)))"
    using assms(22) by (simp add: finish_task_processing_def assms(3,5) s1 last decision timed final)
  show ?thesis
  proof (cases "func (max 1 (int n)) args")
    case (Inl e)
    moreover have "or_now (Some now) now = now" by simp
    ultimately show ?thesis
      using run finish [of ERROR "Some d" now now, unfolded store] store unfolding state moved
      by (auto simp del: tiger_view_simps or_now.simps)
  next
    case (Inr retry_delay)
    then show ?thesis
      using run finish [of SCHEDULED "Some d" now "now + retry_delay"] unfolding state moved store
      by (auto simp del: tiger_view_simps or_now.simps)
  qed
qed

text \<open>C16: a task whose last execution failed, without asking for a retry of its own, is handled by the
  task's retry method: called with the number of executions so far, at least one, and the method's
  arguments, it gives the delay after which the task is scheduled, or by \<^verbatim>\<open>StopRetry\<close> makes it an
  error now; any other exception of the method leaves the task as it is. The worker is then asked to
  exit if the execution timed out and the executor cannot go on.\<close>

theorem failed_task_outcome:
  assumes "tiger_world R kind p P C" "the_queue T = Inr q" "task_id T = Inr i" "colon_free i"
    and "serialized_func T = Inr name" "serialized_runner_class T = None"
    and "task_at t ACTIVE q i" "task_data t i \<noteq> None" "execs t i = xs @ [x]" "x \<noteq> []"
    and "loads_dict L x = Inr d" "dict_get d ''exception_name'' = Some (JStr exc)"
    and "\<not> truthy (get_default d ''retry'' JNull)"
    and "retry_method T = Inr (Some (f, args))" "retry_on T = []"
    and "import_attribute (resolve_retry P) f = Inr func"
    and t: "t = tiger_view p (view R s)" and now: "now = fst (read_time P s)"
    and n: "n = (case execs_count t i of None \<Rightarrow> 0 | Some c \<Rightarrow> nat_of_dec c)"
    and moved: "moved = (\<lambda>st ts. move_in_store p i q ACTIVE (Some st) (is_unique T) ts '''' (PUBLISH_QUEUED_TASKS C) t)"
    and final: "final = (if exit_on_timeout \<and> exc = exception_name JobTimeoutException then Inl SystemExit else Inr ())"
    and "finish_task_processing L P R C exit_on_timeout T False s = (r, s')"
  shows "case func (max 1 (int n)) args of
      Inr retry_delay \<Rightarrow> r = final \<and>
        tiger_view p (view R s') = moved SCHEDULED (or_now (Some (now + retry_delay)) now)
    | Inl e \<Rightarrow>
        if e = StopRetry then r = final \<and> tiger_view p (view R s') = moved ERROR now
        else r = Inl e \<and> tiger_view p (view R s') = t"
  by (rule failed_task_outcome_lemma [OF assms])

text \<open>An active task that has failed twice, and whose last failure was a timeout.\<close>

definition ex_failure :: dict where
  "ex_failure = [(''exception_name'', JStr (exception_name JobTimeoutException))]"

definition ex_running :: memdb where
  "ex_running =
     (let M = mem_redis (tiger_kind ''t'') in
      r_rpush M (executions_key ''t'' ''x'') (json_dumps num_lib (JObj ex_failure))
        (r_set M (count_key ''t'' ''x'') (dec_of_nat 2)
          (r_set M (task_key ''t'' ''x'') ''data''
            (r_sadd M (state_key ''t'' ACTIVE) ''q''
              (snd (r_zadd M (queue_key ''t'' ACTIVE ''q'') [(5, ''x'')] mem_empty))))))"

lemma ex_running_store:
  "place (ex_store ex_running) st q = (if st = ACTIVE \<and> q = ''q'' then zins 5 ''x'' zempty else zempty)"
  "listed (ex_store ex_running) st = (if st = ACTIVE then {''q''} else {})"
  "task_data (ex_store ex_running) ''x'' = Some ''data''"
  "execs (ex_store ex_running) ''x'' = [json_dumps num_lib (JObj ex_failure)]"
  "execs_count (ex_store ex_running) ''x'' = Some (dec_of_nat 2)"
  by (auto simp: ex_running_def mem_update_defs Let_def key_law)

lemma ex_running_at [simp]:
  "task_score (ex_store ex_running) st q i = (if st = ACTIVE \<and> q = ''q'' \<and> i = ''x'' then Some 5 else None)"
  "task_at (ex_store ex_running) st q i \<longleftrightarrow> st = ACTIVE \<and> q = ''q'' \<and> i = ''x''"
  by (auto simp: task_at_def task_score_def ex_running_store simp del: tiger_view_simps)

lemma ex_running_clock [simp]: "m_clock ex_running = 0"
  by (simp add: ex_running_def mem_update_defs Let_def)

definition ex_failed_task :: task where
  "ex_failed_task = stored_task ''q'' [(''id'', JStr ''x''), (''func'', JStr ''m:f''),
     (''retry_method'', JList [JStr ''r:fixed'', JList [JNum 60, JNum 3]])] (Some ACTIVE) (Some 5) []"

lemma ex_failed_task_simps [simp]:
  "the_queue ex_failed_task = Inr ''q''" "task_id ex_failed_task = Inr ''x''"
  "serialized_func ex_failed_task = Inr ''m:f''" "serialized_runner_class ex_failed_task = None"
  "retry_method ex_failed_task = Inr (Some (''r:fixed'', [60, 3]))" "retry_on ex_failed_task = []"
  "\<not> is_unique ex_failed_task"
  by (simp_all add: ex_failed_task_def the_queue_def stored_task_def task_id_def serialized_func_def
      entry_string_def dict_get_def serialized_runner_class_def get_default_def retry_method_def
      retry_on_def is_unique_def List.map_filter_simps)

definition ex_retries :: "int \<Rightarrow> rat list \<Rightarrow> rat result" where
  "ex_retries n args = fixed_delay n (args ! 0) \<lfloor>args ! 1\<rfloor>"

definition ex_retry_program :: "memdb program" where
  "ex_retry_program = ex_program\<lparr>resolve_retry := (\<lambda>m a. Some ex_retries)\<rparr>"

lemma ex_retry_world: "tiger_world tmem (tiger_kind ''t'') ''t'' ex_retry_program ex_config"
  by unfold_locales (simp_all add: ex_retry_program_def ex_program_def ex_config_def default_config_def)

lemma ex_retry_world_time [simp]: "read_time ex_retry_program s = (m_clock s, s)"
  by (simp add: ex_retry_program_def ex_program_def)

theorem finish_leaves_active_witness:
  "\<exists>s'. finish_task_processing num_lib ex_retry_program tmem ex_config True ex_failed_task True ex_running = (Inr (), s') \<and>
    \<not> task_at (ex_store s') ACTIVE ''q'' ''x''"
proof -
  obtain s' where s': "finish_task_processing num_lib ex_retry_program tmem ex_config True ex_failed_task True
      ex_running = (Inr (), s')"
    using tiger_redis.move_cases [OF tiger_mem.tiger_redis_axioms, where C = ex_config and T = ex_failed_task
        and q = "''q''" and i = "''x''" and from_state = "Some ACTIVE" and st = ACTIVE and now = 0
        and s = ex_running and mode = None and to_state = None and w = None]
    by (auto simp: finish_task_processing_def)
  from finish_leaves_active [OF ex_retry_world ex_failed_task_simps(1,2) colon_free_x
      ex_failed_task_simps(4) s'] s'
  show ?thesis by blast
qed

theorem failed_task_outcome_witness:
  "\<exists>s'. finish_task_processing num_lib ex_retry_program tmem ex_config True ex_failed_task False ex_running =
      (Inl SystemExit, s') \<and> task_score (ex_store s') SCHEDULED ''q'' ''x'' = Some 60"
proof -
  obtain r s' where run: "finish_task_processing num_lib ex_retry_program tmem ex_config True ex_failed_task False
      ex_running = (r, s')"
    by fastforce
  have "import_attribute (resolve_retry ex_retry_program) ''r:fixed'' = Inr ex_retries"
    using str_rsplit_append [of "CHR '':''" "''fixed''" "''r''"]
    by (simp add: ex_retry_program_def import_attribute_def)
  moreover have "ex_retries 2 [60, 3] = Inr 60" by (simp add: ex_retries_def fixed_delay_def)
  moreover have "loads_dict num_lib (json_dumps num_lib (JObj ex_failure)) = Inr ex_failure"
    by (simp add: loads_dict_dumps num_lib_ok)
  moreover have nonempty: "json_dumps num_lib v \<noteq> []" for v
    by (simp add: num_lib_def dec_of_nat_nonempty)
  ultimately show ?thesis
    using failed_task_outcome [OF ex_retry_world ex_failed_task_simps(1,2) colon_free_x
      ex_failed_task_simps(3,4), where t = "ex_store ex_running" and d = ex_failure and xs = "[]"
        and L = num_lib and f = "''r:fixed''" and args = "[60, 3]" and func = ex_retries
        and x = "json_dumps num_lib (JObj ex_failure)" and s = ex_running,
        OF _ _ _ _ _ _ _ _ _ _ refl refl refl refl refl run] run
    by (simp add: ex_running_store ex_failure_def entry_string_def dict_get_def get_default_def
        nonempty move_in_store_score placed_score_def del: tiger_view_simps)
qed

end
