(* ===== verification/Worker_Queues.thy ===== *)
theory Worker_Queues
  imports Worker_Properties
begin

text \<open>
  What the worker does to the tasks of a queue: it takes queued tasks, queues those that are due, and
  requeues those that have expired. No task is lost on the way.
\<close>

subsection \<open>Taking and queueing tasks\<close>

lemma pop_in_store_score:
  "st \<noteq> st' \<Longrightarrow> task_score (pop_in_store st st' q ms sc t) st'' q' j =
    (if q' \<noteq> q \<or> j \<notin> set ms then task_score t st'' q' j
     else if st'' = st then None
     else if st'' = st' then Some (case task_score t st' q j of None \<Rightarrow> sc | Some old \<Rightarrow> old)
     else task_score t st'' q' j)"
  by (auto simp: pop_in_store_def with_score_def zget_zins_all_const zget_place new_members_def
      split: option.splits)

lemma list_nonempty_score [simp]: "task_score (list_nonempty st q t) = task_score t"
  by (auto simp: fun_eq_iff task_score_def)

lemma due_in_store_score:
  "task_score (due_in_store q ms now t) st q' j =
    (if q' \<noteq> q \<or> j \<notin> set ms then task_score t st q' j
     else if st = SCHEDULED then None
     else if st = QUEUED then Some (case task_score t QUEUED q j of None \<Rightarrow> now | Some old \<Rightarrow> old)
     else task_score t st q' j)"
  by (auto simp: due_in_store_def pop_in_store_score)

lemma task_data_due [simp]: "task_data (due_in_store q ms now t) = task_data t"
  by (simp add: due_in_store_def pop_in_store_def)

lemma take_in_store_score:
  "task_score (take_in_store q ms now later t) st q' j =
    (if q' \<noteq> q \<or> j \<notin> set ms then task_score t st q' j
     else case st of
         QUEUED \<Rightarrow> None
       | ACTIVE \<Rightarrow> Some (case task_score t ACTIVE q j of None \<Rightarrow> now | Some old \<Rightarrow> old)
       | SCHEDULED \<Rightarrow>
           if task_score t ACTIVE q j = None then task_score t SCHEDULED q j
           else Some (case task_score t SCHEDULED q j of None \<Rightarrow> later | Some old \<Rightarrow> min old later)
       | ERROR \<Rightarrow> task_score t ERROR q j)"
  by (cases st) (auto simp: take_in_store_def Let_def pop_in_store_score zget_fold_zins_min zget_place old_members_def
      split: option.splits)

context tiger_redis
begin

lemma popped_tasks_eq:
  "popped_tasks R p st q score n s =
    map snd (limit_take n (filter (\<lambda>e. in_scores None score (fst e)) (zlist (place (store_of s) st q))))"
  by (simp add: popped_tasks_def pop_members_eq kind_queue)

lemma fst_take_tasks:
  assumes "REDIS_PREFIX C = p"
  shows "fst (take_tasks R C q n now later s) =
    new_members (popped_tasks R p QUEUED q None n s) (place (store_of s) ACTIVE q)"
  unfolding take_tasks_def assms Let_def zpoppush_exists_min_update_sets_def
  by (subst fst_zpoppush_exists) (simp_all add: key_law popped_tasks_def new_members_def)

end

text \<open>C20: taking tasks out of a queue loses none: the first \<open>n\<close> queued tasks leave the queued state; each
  of them becomes active now, unless it is active already, in which case it is not returned, stays
  active and is scheduled, not later than it was scheduled before. Nothing else changes.\<close>

theorem take_tasks_conserve:
  assumes "tiger_redis R kind p" "REDIS_PREFIX C = p" "take_tasks R C q n now later s = (ids, s')"
    and t: "t = tiger_view p (view R s)" and popped: "popped = map snd (limit_take n (zlist (place t QUEUED q)))"
  shows "ids = filter (\<lambda>i. \<not> task_at t ACTIVE q i) popped \<and>
    (\<forall>st q' j. task_score (tiger_view p (view R s')) st q' j =
      (if q' \<noteq> q \<or> j \<notin> set popped then task_score t st q' j
       else case st of
           QUEUED \<Rightarrow> None
         | ACTIVE \<Rightarrow> Some (case task_score t ACTIVE q j of None \<Rightarrow> now | Some old \<Rightarrow> old)
         | SCHEDULED \<Rightarrow>
             if task_at t ACTIVE q j
             then Some (case task_score t SCHEDULED q j of None \<Rightarrow> later | Some old \<Rightarrow> min old later)
             else task_score t SCHEDULED q j
         | ERROR \<Rightarrow> task_score t ERROR q j))"
proof -
  have ms: "popped_tasks R p QUEUED q None n s = popped"
    by (simp add: tiger_redis.popped_tasks_eq [OF assms(1)] popped t del: tiger_view_simps)
  have "ids = new_members popped (place t ACTIVE q)"
    using tiger_redis.fst_take_tasks [OF assms(1,2), of q n now later s] assms(3)
    by (simp add: ms t del: tiger_view_simps)
  moreover have "tiger_view p (view R s') = take_in_store q popped now later t"
    using tiger_redis.store_take [OF assms(1,2), of q n now later s] assms(3)
    by (simp add: ms t del: tiger_view_simps)
  ultimately show ?thesis
    by (simp add: take_in_store_score task_at_def new_members_def zget_place cong: task_state.case_cong
        del: tiger_view_simps)
qed

text \<open>Queueing the due tasks of a queue takes the earliest of those whose time has come, as many as
  a batch has, out of the scheduled state, and puts each into the queued state, at the time of the
  call or where it is queued already. The queue is announced on the activity channel, if that is
  configured, exactly if a task became queued, and then the worker has done work.\<close>

theorem due_tasks_queued:
  assumes "tiger_redis R kind p" "REDIS_PREFIX C = p" "queue_due_tasks R C now q (W, s) = (W', s')"
    and t: "t = tiger_view p (view R s)"
    and due: "due = map snd (limit_take (SCHEDULED_TASK_BATCH_SIZE C) (filter (\<lambda>e. fst e \<le> now) (zlist (place t SCHEDULED q))))"
    and new: "new \<longleftrightarrow> (\<exists>i \<in> set due. \<not> task_at t QUEUED q i)"
  shows "(\<forall>st q' j. task_score (tiger_view p (view R s')) st q' j =
      (if q' \<noteq> q \<or> j \<notin> set due then task_score t st q' j
       else if st = SCHEDULED then None
       else if st = QUEUED then Some (case task_score t QUEUED q j of None \<Rightarrow> now | Some old \<Rightarrow> old)
       else task_score t st q' j)) \<and>
    sent (tiger_view p (view R s')) =
      sent t @ (if new \<and> PUBLISH_QUEUED_TASKS C then [(activity_channel p, q)] else []) \<and>
    W' = (if new then W\<lparr>did_work := True\<rparr> else W)"
proof -
  let ?pop = "zpoppush_exists_ignore_update_sets R (queue_key p SCHEDULED q) (queue_key p QUEUED q)
    (state_key p SCHEDULED) (state_key p QUEUED) (Some now) (SCHEDULED_TASK_BATCH_SIZE C) now q s"
  have ms: "popped_tasks R p SCHEDULED q (Some now) (SCHEDULED_TASK_BATCH_SIZE C) s = due"
    by (simp add: tiger_redis.popped_tasks_eq [OF assms(1)] due t del: tiger_view_simps)
  have "fst ?pop = new_members (popped_tasks R p SCHEDULED q (Some now) (SCHEDULED_TASK_BATCH_SIZE C) s)
      (place t QUEUED q)"
    unfolding zpoppush_exists_ignore_update_sets_def
    by (subst redis_server.fst_zpoppush_exists [OF tiger_redis.axioms(1) [OF assms(1)]])
      (simp_all add: tiger_redis.kind_queue [OF assms(1)] popped_tasks_def new_members_def t)
  then have moved: "fst ?pop \<noteq> [] \<longleftrightarrow> new"
    by (simp add: ms new new_members_def filter_empty_conv task_at_def zget_place)
  have store: "tiger_view p (view R (snd ?pop)) = due_in_store q due now t"
    by (simp only: tiger_redis.store_due [OF assms(1)] ms t)
  have sent: "sent (due_in_store q due now t) = sent t"
    by (simp add: due_in_store_def pop_in_store_def store_defs)
  have s': "s' = (if new \<and> PUBLISH_QUEUED_TASKS C then r_publish R (activity_channel p) q (snd ?pop) else snd ?pop)"
    and W': "W' = (if new then W\<lparr>did_work := True\<rparr> else W)"
    using assms(3) moved by (auto simp: queue_due_tasks_def assms(2) Let_def split: prod.splits if_splits)
  have "task_score (send c x u) = task_score u" "sent (send c x u) = sent u @ [(c, x)]" for c x u
    by (simp_all add: task_score_def [abs_def] send_def)
  then show ?thesis
    unfolding s' using W' store sent
    by (auto simp: tiger_redis.store_publish [OF assms(1)] due_in_store_score simp del: tiger_view_simps)
qed

text \<open>A queue with two queued tasks, of which one is active already, and a scheduled one.\<close>

definition ex_busy :: memdb where
  "ex_busy =
     (let M = mem_redis (tiger_kind ''t'') in
      snd (r_zadd M (queue_key ''t'' SCHEDULED ''q'') [(3, ''z''), (90, ''y'')]
        (snd (r_zadd M (queue_key ''t'' ACTIVE ''q'') [(5, ''y'')]
          (snd (r_zadd M (queue_key ''t'' QUEUED ''q'') [(7, ''x''), (8, ''y'')] mem_empty))))))"

lemma ex_busy_place:
  "place (ex_store ex_busy) st q =
    (if q \<noteq> ''q'' then zempty
     else case st of QUEUED \<Rightarrow> zins 8 ''y'' (zins 7 ''x'' zempty) | ACTIVE \<Rightarrow> zins 5 ''y'' zempty
       | SCHEDULED \<Rightarrow> zins 90 ''y'' (zins 3 ''z'' zempty) | ERROR \<Rightarrow> zempty)"
  by (cases st) (auto simp: ex_busy_def mem_update_defs Let_def)

lemma ex_busy_score: "task_score (ex_store ex_busy) st q i = zget (place (ex_store ex_busy) st q) i"
  by (simp add: task_score_def)

theorem take_tasks_conserve_witness:
  "\<exists>s'. take_tasks tmem ex_config ''q'' 2 9 10 ex_busy = ([''x''], s') \<and>
    task_score (ex_store s') ACTIVE ''q'' ''x'' = Some 9 \<and> task_score (ex_store s') ACTIVE ''q'' ''y'' = Some 5 \<and>
    task_score (ex_store s') SCHEDULED ''q'' ''y'' = Some 10"
proof -
  obtain ids s' where run: "take_tasks tmem ex_config ''q'' 2 9 10 ex_busy = (ids, s')" by fastforce
  from take_tasks_conserve [OF tiger_mem.tiger_redis_axioms ex_config_simps(1) run refl refl] run show ?thesis
    by (simp add: ex_busy_score ex_busy_place task_at_def zlist_eval limit_take_def less_char_def
        del: tiger_view_simps)
qed

theorem due_tasks_queued_witness:
  "\<exists>s'. queue_due_tasks tmem ex_config 9 ''q'' (ex_worker, ex_busy) = (ex_worker\<lparr>did_work := True\<rparr>, s') \<and>
    task_score (ex_store s') QUEUED ''q'' ''z'' = Some 9 \<and> task_score (ex_store s') SCHEDULED ''q'' ''y'' = Some 90"
proof -
  obtain W' s' where run: "queue_due_tasks tmem ex_config 9 ''q'' (ex_worker, ex_busy) = (W', s')" by fastforce
  have batch: "SCHEDULED_TASK_BATCH_SIZE ex_config = 1000" by (simp add: ex_config_def default_config_def)
  from due_tasks_queued [OF tiger_mem.tiger_redis_axioms ex_config_simps(1) run refl refl refl] run batch show ?thesis
    by (simp add: ex_busy_score ex_busy_place task_at_def zlist_eval limit_take_def less_char_def
        del: tiger_view_simps)
qed

subsection \<open>Expired tasks\<close>

lemma expired_task_requeued_lemma:
  assumes "tiger_redis R kind p" "REDIS_PREFIX C = p" "colon_free i" "q \<noteq> []"
    and "requeue_expired_task L P R C now q i s = (r, s')"
    and t: "t = tiger_view p (view R s)" and T: "T = stored_task q d (Some ACTIVE) (task_score t ACTIVE q i) []"
    and "\<And>x. task_data t i = Some x \<Longrightarrow> x \<noteq> [] \<and> loads_dict L x = Inr d" "task_id T = Inr i"
    and "task_score t ACTIVE q i \<noteq> Some 0"
  shows "if task_data t i = None then
      (if task_at t ACTIVE q i
       then r = Inr () \<and> tiger_view p (view R s') =
         move_in_store p i q ACTIVE None False now '''' (PUBLISH_QUEUED_TASKS C) t
       else r = Inl (TaskNotFound i) \<and> s' = s)
    else if \<not> task_at t ACTIVE q i then r = Inr () \<and> s' = s
    else r = Inr () \<and> tiger_view p (view R s') =
      (if should_retry_on (resolve_class P) (is_subclass P) T (exception_name JobTimeoutException)
       then move_in_store p i q ACTIVE (Some QUEUED) (is_unique T) now ''nx'' (PUBLISH_QUEUED_TASKS C) t
       else move_in_store p i q ACTIVE (Some ERROR) (is_unique T) now '''' (PUBLISH_QUEUED_TASKS C) t)"
proof -
  note server = tiger_redis.axioms(1) [OF assms(1)]
  let ?entry = "stored_task q [(''id'', JStr i)] (Some ACTIVE) None []"
  have entry: "the_queue ?entry = Inr q" "task_id ?entry = Inr i" "\<not> is_unique ?entry" "t_state ?entry = Some ACTIVE"
    using assms(4) by (simp_all add: stored_task_def the_queue_def task_id_def entry_string_def dict_get_def
        is_unique_def get_default_def)
  have T': "the_queue T = Inr q" using assms(4) by (simp add: T stored_task_def the_queue_def)
  have data: "r_get R (task_key p i) s = task_data t i"
    using assms(3) by (simp add: t tiger_redis.kind_task [OF assms(1)] redis_server.get_str [OF server])
  have score: "r_zscore R (queue_key p ACTIVE q) i s = task_score t ACTIVE q i"
    by (simp add: t task_score_def tiger_redis.kind_queue [OF assms(1)] redis_server.zscore [OF server])
  note removed = tiger_redis.move_cases [OF assms(1,2) entry(1,2) assms(3), where from_state = None and st = ACTIVE
      and now = now and to_state = None and w = None and s = s and mode = None, folded t]
  have same: "or_now (Some now) now = now" by simp
  have moved: "if task_at t ACTIVE q i
    then \<exists>s'. move R C now (Some ACTIVE) to_state (Some now) mode T s = (Inr (), T\<lparr>t_state := to_state\<rparr>, s') \<and>
      tiger_view p (view R s') = move_in_store p i q ACTIVE to_state (is_unique T) now
        (none_to_empty_str mode) (PUBLISH_QUEUED_TASKS C) t
    else move R C now (Some ACTIVE) to_state (Some now) mode T s = (Inl (TaskNotFound i), T, s)"
    if "known_mode (none_to_empty_str mode)" for to_state mode
    using tiger_redis.move_cases [OF assms(1,2) T' assms(9,3), where from_state = "Some ACTIVE" and st = ACTIVE
      and now = now and w = "Some now" and s = s and to_state = to_state, OF _ that]
    by (simp add: t same del: tiger_view_simps cong: if_cong)
  show ?thesis
  proof (cases "task_data t i")
    case None
    then show ?thesis
      using removed assms(5) entry
      by (auto simp: requeue_expired_task_def from_id_def assms(2) data simp del: tiger_view_simps split: if_splits)
  next
    case (Some x)
    with assms(8) have x: "x \<noteq> []" "loads_dict L x = Inr d" by simp_all
    show ?thesis
    proof (cases "task_score t ACTIVE q i")
      case None
      then show ?thesis
        using Some x assms(5) by (simp add: requeue_expired_task_def from_id_def assms(2) data score task_at_def)
    next
      case (Some sc)
      have "from_id L R C q ACTIVE i 0 s = Inr T"
        using x Some \<open>task_data t i = Some x\<close> assms(10)
        by (simp add: from_id_def assms(2) data score load_executions_def T)
      then show ?thesis
        using moved [where to_state = "Some QUEUED" and mode = "Some ''nx''"]
          moved [where to_state = "Some ERROR" and mode = None] assms(5) Some \<open>task_data t i = Some x\<close>
        by (auto simp: requeue_expired_task_def task_at_def simp del: tiger_view_simps split: if_splits)
    qed
  qed
qed

text \<open>C24: an expired task that is still active, and whose data can be read, is queued again (at its time
  in the queue, if it is there already) if its function may be retried on a timeout, and else is an
  error from now on. If its data is gone, the entry is removed, and the call raises \<^verbatim>\<open>TaskNotFound\<close> if
  another worker has removed it meanwhile. A task that is no longer active is left alone.\<close>

theorem expired_task_requeued:
  assumes "tiger_redis R kind p" "REDIS_PREFIX C = p" "colon_free i" "q \<noteq> []"
    and "requeue_expired_task L P R C now q i s = (r, s')"
    and t: "t = tiger_view p (view R s)" and T: "T = stored_task q d (Some ACTIVE) (task_score t ACTIVE q i) []"
    and "\<And>x. task_data t i = Some x \<Longrightarrow> x \<noteq> [] \<and> loads_dict L x = Inr d" "task_id T = Inr i"
    and "task_score t ACTIVE q i \<noteq> Some 0"
  shows "if task_data t i = None then
      (if task_at t ACTIVE q i
       then r = Inr () \<and> tiger_view p (view R s') =
         move_in_store p i q ACTIVE None False now '''' (PUBLISH_QUEUED_TASKS C) t
       else r = Inl (TaskNotFound i) \<and> s' = s)
    else if \<not> task_at t ACTIVE q i then r = Inr () \<and> s' = s
    else r = Inr () \<and> tiger_view p (view R s') =
      (if should_retry_on (resolve_class P) (is_subclass P) T (exception_name JobTimeoutException)
       then move_in_store p i q ACTIVE (Some QUEUED) (is_unique T) now ''nx'' (PUBLISH_QUEUED_TASKS C) t
       else move_in_store p i q ACTIVE (Some ERROR) (is_unique T) now '''' (PUBLISH_QUEUED_TASKS C) t)"
  by (rule expired_task_requeued_lemma [OF assms])

definition ex_expired_data :: dict where
  "ex_expired_data = [(''id'', JStr ''x''), (''func'', JStr ''m:f'')]"

definition ex_expired :: memdb where
  "ex_expired = r_set tmem (task_key ''t'' ''x'') (json_dumps num_lib (JObj ex_expired_data)) ex_running"

lemma ex_expired_store:
  "ex_store ex_expired = put_data ''x'' (json_dumps num_lib (JObj ex_expired_data)) (ex_store ex_running)"
  by (simp add: ex_expired_def mem.view_set tiger_mem.kind_task store_view)

theorem expired_task_requeued_witness:
  "\<exists>s'. requeue_expired_task num_lib ex_program tmem ex_config 99 ''q'' ''x'' ex_expired = (Inr (), s') \<and>
    task_score (ex_store s') ERROR ''q'' ''x'' = Some 99 \<and> \<not> task_at (ex_store s') ACTIVE ''q'' ''x''"
proof -
  let ?T = "stored_task ''q'' ex_expired_data (Some ACTIVE) (Some 5) []"
  obtain r s' where run: "requeue_expired_task num_lib ex_program tmem ex_config 99 ''q'' ''x'' ex_expired = (r, s')"
    by fastforce
  have "task_id ?T = Inr ''x''" "\<not> should_retry_on (resolve_class ex_program) (is_subclass ex_program) ?T n" for n
    by (simp_all add: stored_task_def task_id_def entry_string_def dict_get_def ex_expired_data_def
        should_retry_on_def retry_on_def get_default_def)
  moreover have "json_dumps num_lib v \<noteq> []" for v
    by (simp add: num_lib_def dec_of_nat_nonempty)
  ultimately show ?thesis
    using expired_task_requeued [OF tiger_mem.tiger_redis_axioms ex_config_simps(1) colon_free_x _ run refl refl,
        where d = ex_expired_data] run
    by (simp add: ex_expired_store loads_dict_dumps num_lib_ok move_in_store_score placed_score_def task_at_def
        del: tiger_view_simps)
qed

end
