(* ===== verification/Worker_Selection.thy ===== *)
theory Worker_Selection
  imports Worker_Queues
begin

text \<open>
  Which queues a worker looks at: the names that it asks the server for, the batch size of a queue,
  and the queues that it learns of while it waits for messages. How the server matches patterns is
  an interface, the locale \<open>glob_patterns\<close> with the documented rules that the worker relies on.
\<close>

subsection \<open>Patterns\<close>

text \<open>The characters with a meaning in patterns.\<close>

definition glob_special :: "char set" where
  "glob_special = set (CHR 0x5C # ''?*[]'')"

locale glob_patterns =
  fixes matches :: "string \<Rightarrow> string \<Rightarrow> bool"
  assumes match_star: "matches ''*'' x"
    and match_escaped: "matches (CHR 0x5C # c # pattern) x \<longleftrightarrow> (\<exists>y. x = c # y \<and> matches pattern y)"
    and match_char: "c \<notin> glob_special \<Longrightarrow>
      matches (c # pattern) x \<longleftrightarrow> (\<exists>y. x = c # y \<and> matches pattern y)"
begin

lemma matches_escaped_prefix: "matches (redis_glob_escape q @ ''*'') x \<longleftrightarrow> prefix q x"
proof (induction q arbitrary: x)
  case Nil
  show ?case using match_star by (simp add: redis_glob_escape_def)
next
  case (Cons c q)
  have "redis_glob_escape (c # q) @ ''*'' =
      (if c \<in> glob_special then [CHR 0x5C, c] else [c]) @ redis_glob_escape q @ ''*''"
    by (simp add: redis_glob_escape_def glob_special_def)
  then show ?case
    using Cons by (cases "c \<in> glob_special"; cases x) (auto simp: match_escaped match_char)
qed

end

text \<open>Matching without brackets.\<close>

fun glob_match :: "string \<Rightarrow> string \<Rightarrow> bool" where
  "glob_match [] x = (x = [])"
| "glob_match (c # pattern) x =
     (if c = CHR ''*'' then list_ex (\<lambda>y. glob_match pattern y) (suffixes x)
      else if c = CHR ''?'' then (case x of [] \<Rightarrow> False | _ # y \<Rightarrow> glob_match pattern y)
      else if c = CHR 0x5C then
        (case pattern of
           [] \<Rightarrow> False
         | d # pattern' \<Rightarrow> (case x of [] \<Rightarrow> False | e # y \<Rightarrow> e = d \<and> glob_match pattern' y))
      else (case x of [] \<Rightarrow> False | e # y \<Rightarrow> e = c \<and> glob_match pattern y))"

interpretation globs: glob_patterns glob_match
proof unfold_locales
  show "glob_match ''*'' x" for x
    by (simp add: list_ex_iff)
qed (auto simp: glob_special_def split: list.splits)

subsection \<open>The names a worker asks for\<close>

lemma dotted_parts_prefix: "x \<in> set (reversed_dotted_parts q) \<Longrightarrow> prefix x q"
  by (cases "q = []") (auto simp: reversed_dotted_parts_eq take_is_prefix, simp add: reversed_dotted_parts_def)

lemma match_parts_only: "match_parts parts only excl \<Longrightarrow> only = [] \<or> (\<exists>x \<in> set parts. x \<in> set only)"
  by (induction parts) (auto split: if_splits)

lemma included_prefix:
  "worker_includes W q \<Longrightarrow> only_queues W = [x] \<Longrightarrow> prefix x q"
  by (auto simp: worker_includes_def queue_included_def dest!: match_parts_only intro: dotted_parts_prefix)

text \<open>Asking the server only for the names that begin like the single configured queue, with the
  special characters of the pattern escaped, loses nothing: the worker finds exactly the members of
  the set that it includes.\<close>

theorem retrieve_queues_complete:
  assumes "glob_patterns matches" "redis_server R kind" "kind key = KSet"
  shows "set (filter_queues W (retrieve_queues matches R W key s)) =
      {q \<in> sets (view R s) key. worker_includes W q}"
proof -
  have "set (r_smembers R key s) = sets (view R s) key"
    by (rule redis_server.smembers_set [OF assms(2,3)])
  then show ?thesis
    using included_prefix [of W] glob_patterns.matches_escaped_prefix [OF assms(1)]
    by (auto simp: filter_queues_def retrieve_queues_def split: list.splits)
qed

theorem retrieve_queues_complete_witness:
  "set (filter_queues (ex_worker\<lparr>only_queues := [''q'']\<rparr>) (retrieve_queues glob_match tmem
      (ex_worker\<lparr>only_queues := [''q'']\<rparr>) (state_key ''t'' ERROR) ex_failed)) = {''q''}"
proof -
  let ?W = "ex_worker\<lparr>only_queues := [''q'']\<rparr>"
  have "worker_includes ?W ''q''"
    by (simp add: worker_includes_def queue_included_def reversed_dotted_parts_eq ex_worker_def)
  with retrieve_queues_complete [OF globs.glob_patterns_axioms mem.redis_server_axioms [of "tiger_kind ''t''"]
      tiger_kind_state [of "''t''" ERROR], where W = ?W and s = ex_failed]
  show ?thesis by (auto simp: ex_failed_db)
qed

subsection \<open>Batch sizes\<close>

lemma batch_size_of_append [simp]: "batch_size_of sizes (xs @ ys) n = batch_size_of sizes ys (batch_size_of sizes xs n)"
  by (induction xs arbitrary: n) simp_all

lemma batch_size_of_last:
  assumes "sorted_wrt (\<lambda>x y. length x < length y) parts"
  shows "if \<forall>x \<in> set parts. map_of sizes x = None then batch_size_of sizes parts n = n
    else \<exists>x \<in> set parts. map_of sizes x = Some (batch_size_of sizes parts n) \<and>
      (\<forall>y \<in> set parts. map_of sizes y \<noteq> None \<longrightarrow> length y \<le> length x)"
  using assms
proof (induction parts rule: rev_induct)
  case (snoc x xs)
  then show ?case
    by (cases "map_of sizes x") (auto simp: sorted_wrt_append less_imp_le split: if_splits)
qed simp

text \<open>The batch size of a queue is the one configured for the longest name that covers it, and one if
  none is.\<close>

theorem batch_size_longest:
  assumes "q \<noteq> []"
    and configured: "\<And>x. configured x \<longleftrightarrow> covers x q \<and> map_of (BATCH_QUEUES C) x \<noteq> None"
  shows "if Ex configured
    then \<exists>x. configured x \<and> (\<forall>y. configured y \<longrightarrow> length y \<le> length x) \<and>
      map_of (BATCH_QUEUES C) x = Some (get_queue_batch_size C q)
    else get_queue_batch_size C q = 1"
proof -
  have "set (dotted_parts q) = {x. covers x q}"
    using assms(1) by (auto simp: set_dotted_parts covers_def)
  then have parts: "configured x \<longleftrightarrow> x \<in> set (dotted_parts q) \<and> map_of (BATCH_QUEUES C) x \<noteq> None" for x
    by (simp add: configured)
  note last = batch_size_of_last [OF dotted_parts_sorted, of q "BATCH_QUEUES C" 1, folded get_queue_batch_size_def]
  show ?thesis
  proof (cases "Ex configured")
    case True
    then have "\<not> (\<forall>x \<in> set (dotted_parts q). map_of (BATCH_QUEUES C) x = None)"
      using parts by blast
    with last obtain x where "x \<in> set (dotted_parts q)" "map_of (BATCH_QUEUES C) x = Some (get_queue_batch_size C q)"
      "\<forall>y \<in> set (dotted_parts q). map_of (BATCH_QUEUES C) y \<noteq> None \<longrightarrow> length y \<le> length x"
      by (simp only: if_False) blast
    with True show ?thesis unfolding parts by auto
  next
    case False
    then have "\<forall>x \<in> set (dotted_parts q). map_of (BATCH_QUEUES C) x = None"
      using parts by blast
    with last False show ?thesis by (simp only: if_True if_False)
  qed
qed

theorem batch_size_longest_witness:
  "get_queue_batch_size (default_config\<lparr>BATCH_QUEUES := [(''a'', 5), (''a.b'', 7)]\<rparr>) ''a.b'' = 7 \<and>
   get_queue_batch_size default_config ''a.b'' = 1"
proof -
  have "covers ''a'' ''a.b''" "covers ''a.b'' ''a.b''" by (simp_all add: covers_example)
  moreover have "length ''a.b'' = 3" by simp
  ultimately show ?thesis
    using batch_size_longest [of "''a.b''" _ "default_config\<lparr>BATCH_QUEUES := [(''a'', 5), (''a.b'', 7)]\<rparr>", OF _ refl]
      batch_size_longest [of "''a.b''" _ default_config, OF _ refl]
    by (auto simp: default_config_def split: if_splits)
qed

subsection \<open>Waiting for messages\<close>

text \<open>
  The first message that names a queue which the worker includes and did not know when it began to
  wait, and what the wait knows after some messages: whether there was one, when the batch timeout that
  it started ends, and the queues.
\<close>

abbreviation first_new :: "worker \<Rightarrow> (queue_name \<times> time) list \<Rightarrow> (queue_name \<times> time) option" where
  "first_new W ms \<equiv> find (\<lambda>(q, now). worker_includes W q \<and> q \<notin> set (queue_set W)) ms"

definition after_messages ::
    "time \<Rightarrow> time \<Rightarrow> time \<Rightarrow> worker \<Rightarrow> (queue_name \<times> time) list \<Rightarrow> bool \<times> time \<times> worker \<Rightarrow> bool" where
  "after_messages start timeout batch W ms = (\<lambda>(found, batch_exit, W').
     (case first_new W ms of
        None \<Rightarrow> \<not> found \<and> batch_exit = start
      | Some (q, now) \<Rightarrow> found \<and> batch_exit = min (now + batch) (start + timeout)) \<and>
     W' = W\<lparr>queue_set := queue_set W'\<rparr> \<and> distinct (queue_set W') \<and>
     set (queue_set W') = set (queue_set W) \<union> {q \<in> fst ` set ms. worker_includes W q})"

lemma find_append: "find P (xs @ ys) = (case find P xs of None \<Rightarrow> find P ys | Some x \<Rightarrow> Some x)"
  by (induction xs) simp_all

lemma includes_queue_set [simp]: "worker_includes (W\<lparr>queue_set := qs\<rparr>) q = worker_includes W q"
  by (simp add: worker_includes_def)

lemma first_new_None_known:
  "first_new W ms = None \<Longrightarrow> q \<in> fst ` set ms \<Longrightarrow> worker_includes W q \<Longrightarrow> q \<in> set (queue_set W)"
  by (induction ms) (auto split: if_splits)

lemma after_message:
  assumes "after_messages start timeout batch W ms (found, b, W1)"
  shows "after_messages start timeout batch W (ms @ [(q, now)])
    (process_queue_message W1 q found b start timeout batch now)"
proof -
  obtain qs where W1: "W1 = W\<lparr>queue_set := qs\<rparr>" using assms by (auto simp: after_messages_def)
  have qs: "distinct qs" "set qs = set (queue_set W) \<union> {q \<in> fst ` set ms. worker_includes W q}"
    using assms unfolding W1 after_messages_def by simp_all
  show ?thesis
  proof (cases "first_new W ms")
    case None
    then have "set qs = set (queue_set W)" using qs(2) first_new_None_known [OF None] by auto
    then show ?thesis
      using assms None qs(1) unfolding W1
      by (auto simp: after_messages_def process_queue_message_def find_append Let_def)
  next
    case (Some m)
    then show ?thesis
      using assms qs unfolding W1
      by (cases m) (auto simp: after_messages_def process_queue_message_def find_append Let_def)
  qed
qed

lemma after_all_messages:
  "after_messages start timeout batch W ms state \<Longrightarrow>
    after_messages start timeout batch W (ms @ ms') (process_messages start timeout batch ms' state)"
proof (induction ms' arbitrary: ms state)
  case (Cons m ms')
  obtain q now where m: "m = (q, now)" by (cases m)
  obtain found b W1 where state: "state = (found, b, W1)" by (cases state)
  from Cons.IH [OF after_message [OF Cons.prems [unfolded state], of q now]] show ?case
    by (simp add: m state)
qed simp

text \<open>C36: when and with what the wait for messages ends. It ends with the first round at whose end the
  worker has done work before, or the batch timeout is over that the first message about a new queue
  has started (cut off at the end of the wait), or the wait has lasted longer than its timeout; without
  such a round it goes on. The worker then knows, each once, the queues it knew and all that were
  announced up to then and that it includes, and nothing else about it has changed.\<close>

theorem pubsub_returns:
  assumes "distinct (queue_set W)"
    and heard: "heard = (\<lambda>n. concat (map messages (take (Suc n) rounds)))"
    and ends: "ends = (\<lambda>n. did_work W \<or>
      (\<exists>q now. find (\<lambda>(q, now). worker_includes W q \<and> q \<notin> set (queue_set W)) (heard n) = Some (q, now) \<and>
        min (now + batch_timeout) (start + timeout) \<le> batch_time (rounds ! n)) \<or>
      timeout < timeout_time (rounds ! n) - start)"
  shows "case pubsub_for_queues start timeout batch_timeout rounds W of
      None \<Rightarrow> \<forall>n < length rounds. \<not> ends n
    | Some W' \<Rightarrow> \<exists>n < length rounds. ends n \<and> (\<forall>m < n. \<not> ends m) \<and>
        distinct (queue_set W') \<and>
        set (queue_set W') = set (queue_set W) \<union> {q \<in> fst ` set (heard n). worker_includes W q} \<and>
        W' = W\<lparr>queue_set := queue_set W'\<rparr>"
proof -
  define hears where "hears pre rs n = pre @ concat (map messages (take (Suc n) rs))"
    for pre :: "(queue_name \<times> time) list" and rs :: "pubsub_round list" and n
  define stops where "stops pre rs n \<longleftrightarrow> did_work W \<or>
      (\<exists>q now. first_new W (hears pre rs n) = Some (q, now) \<and>
        min (now + batch_timeout) (start + timeout) \<le> batch_time (rs ! n)) \<or>
      timeout < timeout_time (rs ! n) - start" for pre rs n
  have loop: "case pubsub_loop start timeout batch_timeout rs state of
      None \<Rightarrow> \<forall>n < length rs. \<not> stops pre rs n
    | Some W' \<Rightarrow> \<exists>n < length rs. stops pre rs n \<and> (\<forall>m < n. \<not> stops pre rs m) \<and>
        distinct (queue_set W') \<and>
        set (queue_set W') = set (queue_set W) \<union> {q \<in> fst ` set (hears pre rs n). worker_includes W q} \<and>
        W' = W\<lparr>queue_set := queue_set W'\<rparr>"
    if "after_messages start timeout batch_timeout W pre state" for rs pre state
    using that
  proof (induction rs arbitrary: pre state)
    case (Cons r rs)
    obtain found b W1 where ms: "process_messages start timeout batch_timeout (messages r) state = (found, b, W1)"
      by (rule prod_cases3)
    have after: "after_messages start timeout batch_timeout W (pre @ messages r) (found, b, W1)"
      using after_all_messages [OF Cons.prems, of "messages r"] by (simp only: ms)
    have later: "hears pre (r # rs) (Suc n) = hears (pre @ messages r) rs n"
      "stops pre (r # rs) (Suc n) = stops (pre @ messages r) rs n" for n
      by (simp_all add: hears_def stops_def)
    have now: "hears pre (r # rs) 0 = pre @ messages r" by (simp add: hears_def)
    have "W1 = W\<lparr>queue_set := queue_set W1\<rparr>" using after by (simp add: after_messages_def)
    then have "did_work W1 = did_work W" by (metis worker.select_convs(7) worker.surjective worker.update_convs(9))
    then have ended: "did_work W1 \<or> (b \<le> batch_time r \<and> found) \<or> timeout < timeout_time r - start \<longleftrightarrow> stops pre (r # rs) 0"
      using after by (auto simp: after_messages_def stops_def now split: option.splits)
    show ?case
    proof (cases "stops pre (r # rs) 0")
      case True
      with ended after show ?thesis
        by (auto simp: ms Let_def after_messages_def now intro!: exI [of _ 0])
    next
      case False
      with ended have "pubsub_loop start timeout batch_timeout (r # rs) state =
          pubsub_loop start timeout batch_timeout rs (found, b, W1)"
        by (auto simp: ms Let_def)
      moreover have "(\<forall>n < length (r # rs). \<not> stops pre (r # rs) n) \<longleftrightarrow> (\<forall>n < length rs. \<not> stops (pre @ messages r) rs n)"
        using False by (simp add: All_less_Suc2 later)
      moreover have "(\<exists>n < length rs. stops (pre @ messages r) rs n \<and> (\<forall>m < n. \<not> stops (pre @ messages r) rs m) \<and>
          X (hears (pre @ messages r) rs n)) \<Longrightarrow>
          (\<exists>n < length (r # rs). stops pre (r # rs) n \<and> (\<forall>m < n. \<not> stops pre (r # rs) m) \<and> X (hears pre (r # rs) n))" for X
        using False by (simp add: Ex_less_Suc2 All_less_Suc2 later)
      ultimately show ?thesis
        using Cons.IH [OF after] by (simp split: option.splits)
    qed
  qed simp
  have "after_messages start timeout batch_timeout W [] (False, start, W)"
    using assms(1) by (simp add: after_messages_def)
  moreover have "hears [] rounds = heard" "stops [] rounds = ends"
    unfolding hears_def heard stops_def ends by (simp_all add: fun_eq_iff)
  ultimately show ?thesis
    using loop [of "[]" "(False, start, W)" rounds] by (simp only: pubsub_for_queues_def)
qed

theorem pubsub_returns_witness:
  "\<exists>W'. pubsub_for_queues 0 10 2 [\<lparr>messages = [(''q'', 1)], batch_time = 2, timeout_time = 2\<rparr>,
      \<lparr>messages = [(''r'', 3)], batch_time = 3, timeout_time = 3\<rparr>,
      \<lparr>messages = [(''s'', 4)], batch_time = 4, timeout_time = 4\<rparr>] (ex_worker\<lparr>did_work := False\<rparr>) = Some W' \<and>
    set (queue_set W') = {''q'', ''r''}"
proof -
  let ?rounds = "[\<lparr>messages = [(''q'', 1)], batch_time = 2, timeout_time = 2\<rparr>,
      \<lparr>messages = [(''r'', 3)], batch_time = 3, timeout_time = 3\<rparr>,
      \<lparr>messages = [(''s'', 4)], batch_time = 4, timeout_time = 4\<rparr>]" and ?W = "ex_worker\<lparr>did_work := False\<rparr>"
  define heard where "heard = (\<lambda>n. concat (map messages (take (Suc n) ?rounds)))"
  define ends where "ends = (\<lambda>n. did_work ?W \<or> (\<exists>q now. first_new ?W (heard n) = Some (q, now) \<and>
      min (now + 2) (0 + 10) \<le> batch_time (?rounds ! n)) \<or> 10 < timeout_time (?rounds ! n) - 0)"
  have "match_parts parts [] []" for parts by (induction parts) simp_all
  then have all: "worker_includes ?W q" for q
    by (simp add: worker_includes_def queue_included_def ex_worker_def)
  have idle: "\<not> did_work ?W" "queue_set ?W = []" by (simp_all add: ex_worker_def)
  then have "distinct (queue_set ?W)" by simp
  note waited = pubsub_returns [OF this heard_def ends_def]
  have first: "\<not> ends 0" and second: "ends 1" by (simp_all add: ends_def heard_def all idle)
  show ?thesis
  proof (cases "pubsub_for_queues 0 10 2 ?rounds ?W")
    case None
    from waited have "\<forall>n < 3. \<not> ends n" unfolding None by simp
    with second show ?thesis by simp
  next
    case (Some W')
    from waited obtain n where "ends n" "\<forall>m < n. \<not> ends m"
      "set (queue_set W') = set (queue_set ?W) \<union> {q \<in> fst ` set (heard n). worker_includes ?W q}"
      unfolding Some by auto
    moreover from this first second have "n = 1" by (metis less_one linorder_neqE_nat)
    ultimately show ?thesis using Some by (auto simp: heard_def all idle)
  qed
qed

end
