(* ===== verification/Worker_Locks.thy ===== *)
theory Worker_Locks
  imports Worker_Selection
begin

text \<open>
  Locks of tasks and queues, and the heartbeats by which a worker keeps its tasks active: which locks
  the worker holds when it executes a group, what a refused queue lock means, and when a heartbeat
  keeps the index of queues.
\<close>

subsection \<open>Task locks\<close>

lemma lockv2_neq [simp]:
  "tiger_key p (''lockv2'' # parts) = tiger_key p [''lockv2'', i] \<longleftrightarrow> key_tail parts = CHR '':'' # i"
  by (simp add: tiger_key_eq)

lemma set_map_eqD: "map f xs = map g ys \<Longrightarrow> f ` set xs = g ` set ys"
  by (metis list.set_map)

lemma lock_key_inject: "tiger_key p [''lockv2'', i] = tiger_key p [''lockv2'', j] \<longleftrightarrow> i = j"
  by (simp add: tiger_key_eq)

text \<open>What the loop maintains: the locks belong to the identifiers seen, each once, and are held.\<close>

definition locks_held :: "'r redis \<Rightarrow> string \<Rightarrow> string list \<Rightarrow> held_lock list \<Rightarrow> 'r \<Rightarrow> bool" where
  "locks_held R p lock_ids locks s \<longleftrightarrow>
     map fst locks = map (\<lambda>i. tiger_key p [''lockv2'', i]) lock_ids \<and> distinct lock_ids \<and>
     (\<forall>(k, token) \<in> set locks. held (view R s) k = Some token)"

context tiger_world
begin

abbreviation "held_of s \<equiv> held (view R s)"

lemma held_zadd_w_mode:
  "map_sum (\<lambda>e. e) (r_sadd R (state_key p st) q') (zadd_w_mode R (queue_key p st q) w i mode s) = Inr s' \<Longrightarrow>
    held_of s' = held_of s"
  by (auto simp: zadd_w_mode_def redis_law key_law split: if_splits)

text \<open>A move that keeps the task somewhere deletes no key.\<close>

lemma held_move:
  assumes "move R C now from_state (Some st) w mode T s = (r, T', s')"
  shows "held_of s' = held_of s"
proof -
  have "held_of s' = held_of s" if "move_task R p i q from (Some st) u ts mode publish s = Inr s'" for i q "from" u ts publish s'
    using that
    by (auto simp: move_task_def move_task_script_def Let_def fail_if_not_in_zset_def redis_law key_law
        split: if_splits sum.splits dest!: held_zadd_w_mode)
  with assms show ?thesis
    by (auto simp: move_def split: sum.splits option.splits exn.splits if_splits)
qed

lemma held_acquire:
  "r_lock_acquire R (tiger_key p (''lockv2'' # parts)) t s = (x, s') \<Longrightarrow>
    held_of s' = (case x of None \<Rightarrow> held_of s
      | Some token \<Rightarrow> (held_of s)(tiger_key p (''lockv2'' # parts) \<mapsto> token))"
  using view_lock_acquire [OF kind_lock, of parts t s] by (auto split: option.splits)

lemma held_time: "read_time P s = (now, s') \<Longrightarrow> held_of s' = held_of s"
  using view_read_time [of s] by simp

lemma locks_held_add:
  assumes "locks_held R p lock_ids locks s" "i \<notin> set lock_ids"
    and "held_of s' = (held_of s)(tiger_key p [''lockv2'', i] \<mapsto> token)"
  shows "locks_held R p (lock_ids @ [i]) (locks @ [(tiger_key p [''lockv2'', i], token)]) s'"
proof -
  have "fst ` set locks = (\<lambda>i. tiger_key p [''lockv2'', i]) ` set lock_ids"
    using assms(1) unfolding locks_held_def by (elim conjE) (rule set_map_eqD)
  moreover have "tiger_key p [''lockv2'', i] \<notin> (\<lambda>i. tiger_key p [''lockv2'', i]) ` set lock_ids"
    using assms(2) by (simp only: image_iff lock_key_inject) blast
  ultimately have new: "tiger_key p [''lockv2'', i] \<notin> fst ` set locks" by simp
  have "held_of s' k = Some t" if "(k, t) \<in> set locks" for k t
  proof -
    from that new have "k \<noteq> tiger_key p [''lockv2'', i]" by (metis fst_conv image_eqI)
    moreover have "held_of s k = Some t" using assms(1) that by (auto simp: locks_held_def)
    ultimately show ?thesis by (simp only: assms(3) fun_upd_apply if_False)
  qed
  moreover have "held_of s' (tiger_key p [''lockv2'', i]) = Some token"
    by (simp only: assms(3) fun_upd_same)
  ultimately show ?thesis
    using assms(1,2) unfolding locks_held_def by auto
qed

lemma lock_tasks_inv:
  assumes "lock_tasks L P R C Ts lock_ids locks ready s = (Inr (locks', ready'), s')"
    and "locks_held R p lock_ids locks s"
    and "\<forall>T \<in> set ready. has_lock T \<longrightarrow> (\<exists>i \<in> set lock_ids. task_lock_id L T = Inr i)"
  shows "\<exists>lock_ids'. locks_held R p lock_ids' locks' s' \<and>
    (\<forall>T \<in> set ready'. has_lock T \<longrightarrow> (\<exists>i \<in> set lock_ids'. task_lock_id L T = Inr i))"
  using assms
proof (induction Ts arbitrary: lock_ids locks ready s)
  case Nil
  then show ?case by auto
next
  case (Cons T Ts)
  show ?case
  proof (cases "has_lock T")
    case False
    with Cons.prems show ?thesis by (intro Cons.IH [of lock_ids locks "ready @ [T]" s]) auto
  next
    case True
    with Cons.prems(1) obtain i where i: "task_lock_id L T = Inr i"
      by (auto simp: bind_state_Inr_iff)
    let ?k = "tiger_key p [''lockv2'', i]"
    note run = Cons.prems(1) [simplified True i Let_def prefix lock_tasks.simps not_True_eq_False if_False
        bind_state.simps]
    show ?thesis
    proof (cases "i \<in> set lock_ids")
      case True
      with Cons.prems i run show ?thesis by (intro Cons.IH [of lock_ids locks "ready @ [T]" s]) auto
    next
      case new: False
      obtain x s1 where acquired: "r_lock_acquire R ?k (ACTIVE_TASK_UPDATE_TIMEOUT C) s = (x, s1)" by fastforce
      show ?thesis
      proof (cases x)
        case (Some token)
        have "locks_held R p (lock_ids @ [i]) (locks @ [(?k, token)]) s1"
          using locks_held_add [OF Cons.prems(2) new] held_acquire [OF acquired] Some by simp
        with Some run new acquired i Cons.prems(3) show ?thesis
          by (intro Cons.IH [of "lock_ids @ [i]" "locks @ [(?k, token)]" "ready @ [T]" s1]) auto
      next
        case None
        with run new acquired obtain now s2 r T' s3 where
          "read_time P s1 = (now, s2)"
          "move R C now (Some ACTIVE) (Some SCHEDULED) (Some (now + LOCK_RETRY C)) (Some ''min'') T s2 = (r, T', s3)"
          "lock_tasks L P R C Ts lock_ids locks ready s3 = (Inr (locks', ready'), s')"
          by (auto split: prod.splits sum.splits)
        with Cons.prems None acquired show ?thesis
          by (intro Cons.IH [of lock_ids locks ready s3])
            (auto simp: locks_held_def dest!: held_time held_move held_acquire)
      qed
    qed
  qed
qed

end

text \<open>C21: a group of tasks is executed only under its locks: each lock that the worker passes on is held
  on the server under the worker's token, no lock twice, and every task that is ready and asks for
  a lock has its own lock among them.\<close>

theorem lock_tasks_held:
  assumes "tiger_world R kind p P C" "lock_tasks L P R C Ts [] [] [] s = (Inr (locks, ready), s')"
  shows "distinct (map fst locks) \<and> (\<forall>(k, token) \<in> set locks. held (view R s') k = Some token) \<and>
    (\<forall>T \<in> set ready. \<not> has_lock T \<or>
      (\<exists>i. task_lock_id L T = Inr i \<and> tiger_key p [''lockv2'', i] \<in> fst ` set locks))"
proof -
  have "locks_held R p [] [] s"
    by (simp add: locks_held_def)
  from tiger_world.lock_tasks_inv [OF assms this] obtain ids where ids: "locks_held R p ids locks s'"
    "\<forall>T \<in> set ready. has_lock T \<longrightarrow> (\<exists>i \<in> set ids. task_lock_id L T = Inr i)"
    by auto
  then have keys: "map fst locks = map (\<lambda>i. tiger_key p [''lockv2'', i]) ids" "distinct ids"
    and held: "\<forall>(k, token) \<in> set locks. held (view R s') k = Some token"
    by (simp_all add: locks_held_def)
  have "distinct (map fst locks)"
    unfolding keys(1) using keys(2) by (simp add: distinct_map inj_on_def lock_key_inject)
  moreover have eq: "fst ` set locks = (\<lambda>i. tiger_key p [''lockv2'', i]) ` set ids"
    using keys(1) by (rule set_map_eqD)
  have "\<exists>i. task_lock_id L T = Inr i \<and> tiger_key p [''lockv2'', i] \<in> fst ` set locks"
    if "T \<in> set ready" "has_lock T" for T
  proof -
    from ids(2) that obtain i where "i \<in> set ids" "task_lock_id L T = Inr i" by auto
    then show ?thesis unfolding eq by (intro exI [of _ i] conjI imageI)
  qed
  ultimately show ?thesis using held by auto
qed

definition ex_lock_task :: task where
  "ex_lock_task = stored_task ''q'' [(''id'', JStr ''x''), (''func'', JStr ''m:f''), (''lock'', JBool True)]
     (Some ACTIVE) (Some 5) []"

theorem lock_tasks_held_witness:
  "\<exists>k s'. lock_tasks num_lib ex_program tmem ex_config [ex_lock_task] [] [] [] mem_empty =
      (Inr ([(k, ''token'')], [ex_lock_task]), s') \<and> held (view tmem s') k = Some ''token''"
proof -
  have "has_lock ex_lock_task" "serialized_func ex_lock_task = Inr ''m:f''"
    by (simp_all add: ex_lock_task_def stored_task_def has_lock_def serialized_func_def entry_string_def
        get_default_def dict_get_def)
  then obtain k s' where run: "lock_tasks num_lib ex_program tmem ex_config [ex_lock_task] [] [] [] mem_empty =
      (Inr ([(k, ''token'')], [ex_lock_task]), s')"
    by (simp add: task_lock_id_def Let_def mem_redis_def mem_empty_def)
  from lock_tasks_held [OF ex_world run] run show ?thesis by auto
qed

subsection \<open>Queue locks\<close>

text \<open>C25: a queue with a limit on its workers is left alone by a worker whose lock is refused: no task is
  taken, no task, queue or message changes, and the caller is told so by a count of -1. The lock is
  refused exactly if there is a system lock or granting it would exceed the limit.\<close>

theorem locked_queue_untouched:
  assumes "tiger_world R kind p P C" "queue_max_workers W q = Some n" "n \<noteq> 0"
    and s1: "s1 = snd (read_time P s)" and now: "now = fst (read_time P s1)"
    and "\<not> granted (worker_id W) n (unexpired now (zsets (view R s) (tiger_key p [''qslock'', q])))"
  shows "\<exists>s'. process_from_queue L P R C E funcs utcnow W q s = (Inr ([], - 1), s') \<and>
    tiger_view p (view R s') = tiger_view p (view R s)"
proof -
  note server = tiger_redis.axioms(1) [OF tiger_world.axioms(1) [OF assms(1)]]
  let ?S = "queue_semaphore C W q n"
  obtain s2 where s2: "read_time P s1 = (now, s2)" by (simp add: now prod_eq_iff)
  have views: "view R s2 = view R s"
    using tiger_world.view_read_time [OF assms(1), of s] tiger_world.view_read_time [OF assms(1), of s1] s2
    by (simp add: s1)
  have S: "sem_name ?S = tiger_key p [''qslock'', q]" "sem_lock_id ?S = worker_id W" "sem_max_locks ?S = n"
    by (simp_all add: queue_semaphore_def tiger_world.prefix [OF assms(1)])
  have kind: "kind (sem_name ?S) = KZset"
    unfolding S by (rule tiger_redis.kind_qslock [OF tiger_world.axioms(1) [OF assms(1)]])
  have pos: "0 < sem_timeout ?S"
    by (simp add: queue_semaphore_def tiger_world.timeout_pos [OF assms(1)])
  obtain acquired locks s3 where run: "acquire R ?S now s2 = ((acquired, locks), s3)" by (metis prod.exhaust)
  from redis_server.acquire_outcome(1) [OF server kind pos run refl] assms(6) have "\<not> acquired"
    by (simp add: S views)
  moreover have "tiger_view p (view R s3) = tiger_view p (view R s)"
    using tiger_world.store_acquire [OF assms(1), of W q n now s2] by (simp add: run views del: tiger_view_simps)
  ultimately show ?thesis
    using assms(2,3) s2
    by (simp add: process_from_queue_def get_queue_lock_def Let_def run split_beta flip: s1)
qed

definition ex_limited :: worker where
  "ex_limited = ex_worker\<lparr>single_worker_queues := [''q'']\<rparr>"

definition ex_contended :: memdb where
  "ex_contended = snd (r_zadd tmem (tiger_key ''t'' [''qslock'', ''q'']) [(70, ''other'')] ex_requeued)"

theorem locked_queue_untouched_witness:
  "\<exists>s'. process_from_queue num_lib ex_program tmem ex_config
      (sync_executor num_lib ex_program tmem ex_config True) [] 0 ex_limited ''q'' ex_contended =
      (Inr ([], - 1), s') \<and> ex_store s' = ex_store ex_contended"
proof -
  have max: "queue_max_workers ex_limited ''q'' = Some 1"
    by (simp add: queue_max_workers_def ex_limited_def ex_worker_def dotted_parts_eq dot_positions_def)
  have locks: "zsets (ex_db ex_contended) (tiger_key ''t'' [''qslock'', ''q'']) = zins 70 ''other'' zempty"
    by (simp add: ex_contended_def ex_requeued_def ex_failed_def mem_update_defs Let_def)
  have clock: "read_time ex_program s = (m_clock s, s)" for s by (simp add: ex_program_def)
  have "m_clock ex_contended = 0"
    by (simp add: ex_contended_def ex_requeued_def ex_failed_def mem_update_defs Let_def)
  moreover have "worker_id ex_limited = ''w''" by (simp add: ex_limited_def ex_worker_def)
  ultimately have "\<not> granted (worker_id ex_limited) 1 (unexpired (fst (read_time ex_program
      (snd (read_time ex_program ex_contended)))) (zsets (ex_db ex_contended) (tiger_key ''t'' [''qslock'', ''q''])))"
    by (simp add: clock locks granted_def unexpired_zins n_locks_zins SYSTEM_LOCK_ID_def)
  from locked_queue_untouched [OF ex_world max _ refl refl this] show ?thesis by simp
qed

subsection \<open>Heartbeats\<close>

context tiger_world
begin

lemma store_reacquire_locks: "lock_keys p locks \<Longrightarrow> store_of (reacquire_locks R locks s) = store_of s"
proof (induction locks arbitrary: s)
  case (Cons l locks)
  then obtain parts token where "l = (tiger_key p (''lockv2'' # parts), token)"
    by (auto simp: lock_keys_def)
  with Cons show ?case by (simp add: reacquire_locks_def lock_keys_def del: tiger_view_simps)
qed (simp add: reacquire_locks_def)

lemma store_heartbeat:
  assumes "ids \<noteq> []" "lock_keys p locks" "queue_lock = None \<or> (\<exists>n. queue_lock = Some (queue_semaphore C W q' n))"
  shows "store_of (heartbeat P R C q ids locks queue_lock s) =
    put_tasks ACTIVE q (zins_all (map (Pair (fst (read_time P s))) ids) (place (store_of s) ACTIVE q)) (store_of s)"
proof -
  obtain now s1 where s1: "read_time P s = (now, s1)" by fastforce
  have beat: "store_of (worker_heartbeat R C q ids now s1) =
      put_tasks ACTIVE q (zins_all (map (Pair now) ids) (place (store_of s) ACTIVE q)) (store_of s)"
    using assms(1) view_read_time [of s] by (simp add: worker_heartbeat_def redis_law key_law store_view s1)
  define s2 where "s2 = reacquire_locks R locks (worker_heartbeat R C q ids now s1)"
  have "store_of s2 = store_of (worker_heartbeat R C q ids now s1)"
    by (simp only: s2_def store_reacquire_locks [OF assms(2)])
  moreover have "store_of (heartbeat P R C q ids locks queue_lock s) = store_of s2"
    using assms(3)
    by (auto simp: heartbeat_def s1 Let_def renew_def store_acquire split_beta
        simp del: tiger_view_simps simp flip: s2_def)
  ultimately show ?thesis by (simp add: beat s1 del: tiger_view_simps)
qed

end

lemma zget_zins_all_Pair: "zget (zins_all (map (Pair sc) ms) z) m = (if m \<in> set ms then Some sc else zget z m)"
  using zget_zins_all_const [of sc ms z m] by simp

text \<open>C34: a heartbeat makes every task that it names active as of now and changes nothing else. It never
  lists the queue: if the queue's active tasks are all gone by then, because another worker took them
  for expired, the heartbeat leaves an entry in a queue that the active state does not list, and the
  index is no longer exact; otherwise it stays exact.\<close>

theorem heartbeat_index:
  assumes "tiger_world R kind p P C" "ids \<noteq> []" "lock_keys p locks"
    and "queue_lock = None \<or> (\<exists>n. queue_lock = Some (queue_semaphore C W q' n))"
    and t: "t = tiger_view p (view R s)" and t': "t' = tiger_view p (view R (heartbeat P R C q ids locks queue_lock s))"
  shows "(\<forall>st q' j. task_score t' st q' j =
      (if st = ACTIVE \<and> q' = q \<and> j \<in> set ids then Some (fst (read_time P s)) else task_score t st q' j)) \<and>
    listed t' = listed t \<and> (indexed t \<longrightarrow> indexed t' = (place t ACTIVE q \<noteq> zempty))"
proof -
  have eq: "t' = put_tasks ACTIVE q (zins_all (map (Pair (fst (read_time P s))) ids) (place t ACTIVE q)) t"
    by (simp only: t t' tiger_world.store_heartbeat [OF assms(1-4)])
  have "zins_all (map (Pair (fst (read_time P s))) ids) (place t ACTIVE q) \<noteq> zempty"
    using assms(2) by simp
  then have "indexed t \<Longrightarrow> indexed t' = (place t ACTIVE q \<noteq> zempty)"
    by (auto simp: eq indexed_def)
  then show ?thesis
    by (simp add: eq zget_zins_all_Pair zget_place)
qed

theorem heartbeat_index_witness:
  "indexed (ex_store ex_running) \<and> indexed (ex_store (heartbeat ex_program tmem ex_config ''q'' [''x''] [] None ex_running)) \<and>
   indexed (ex_store ex_requeued) \<and> \<not> indexed (ex_store (heartbeat ex_program tmem ex_config ''q'' [''x''] [] None ex_requeued))"
proof -
  have keys: "lock_keys ''t'' []" by (simp add: lock_keys_def)
  have "indexed (ex_store ex_running)" by (simp add: indexed_def ex_running_store del: tiger_view_simps)
  moreover have "place (ex_store ex_running) ACTIVE ''q'' \<noteq> zempty"
    by (simp add: ex_running_store del: tiger_view_simps)
  moreover have "place (ex_store ex_requeued) ACTIVE ''q'' = zempty"
    by (simp add: ex_requeued_db)
  ultimately show ?thesis
    using heartbeat_index [OF ex_world _ keys, where ids = "[''x'']" and queue_lock = None and W = ex_worker
        and q' = "''q''" and q = "''q''" and s = ex_running, OF _ _ refl refl]
      heartbeat_index [OF ex_world _ keys, where ids = "[''x'']" and queue_lock = None and W = ex_worker
        and q' = "''q''" and q = "''q''" and s = ex_requeued, OF _ _ refl refl] ex_requeued_indexed
    by simp
qed

end
