(* ===== verification/Worker_Executions.thy ===== *)
theory Worker_Executions
  imports Worker_Locks
begin

text \<open>
  How the execution of a group of tasks ends: what is recorded, when the parent of a forked child
  stops waiting, and when a periodic task is queued again.
\<close>

subsection \<open>The record of a failure\<close>

lemma zip_map_of:
  "map_result task_id Ts = Inr ids \<Longrightarrow> distinct ids \<Longrightarrow> T \<in> set Ts \<Longrightarrow> task_id T = Inr i \<Longrightarrow>
    map_of (zip ids (map max_stored_executions Ts)) i = Some (max_stored_executions T)"
proof (induction Ts arbitrary: ids)
  case (Cons T' Ts)
  then obtain i' ids' where ids: "task_id T' = Inr i'" "map_result task_id Ts = Inr ids'" "ids = i' # ids'"
    by (auto simp: bind_result_Inr_iff)
  show ?case
  proof (cases "T = T'")
    case False
    with Cons.prems have T: "T \<in> set Ts" by simp
    then have "i \<in> set ids'"
      using ids(2) Cons.prems(4) by (induction Ts arbitrary: ids') (auto simp: bind_result_Inr_iff)
    with Cons.prems(2) ids have "i \<noteq> i'" by auto
    with Cons.IH [OF ids(2) _ T Cons.prems(4)] Cons.prems(2) ids(3) show ?thesis by simp
  qed (use Cons.prems ids in simp)
qed simp

lemma zip_map_of_None: "i \<notin> set ids \<Longrightarrow> map_of (zip ids xs) i = None"
  by (auto simp: map_of_eq_None_iff dest: set_zip_leftD)

lemma ids_of_tasks: "map_result task_id Ts = Inr ids \<Longrightarrow> i \<in> set ids \<Longrightarrow> \<exists>T \<in> set Ts. task_id T = Inr i"
  by (induction Ts arbitrary: ids) (auto simp: bind_result_Inr_iff)

lemma recorded:
  assumes "tiger_redis R kind p" "REDIS_PREFIX C = p" "map_result task_id Ts = Inr ids" "distinct ids"
    and "list_all colon_free ids" and t: "t = tiger_view p (view R s)"
  obtains s' t' where "store_task_execution L R C Ts execution s = (Inr (), s')" "t' = tiger_view p (view R s')"
    "place t' = place t" "listed t' = listed t" "task_data t' = task_data t"
    "\<And>T i. T \<in> set Ts \<Longrightarrow> task_id T = Inr i \<Longrightarrow>
      execs_count t' i = Some (incr_string (execs_count t i)) \<and>
      execs t' i = newest (max_stored_executions T) (execs t i @ [json_dumps L (JObj execution)])"
    "\<And>i. i \<notin> set ids \<Longrightarrow> execs t' i = execs t i \<and> execs_count t' i = execs_count t i"
proof -
  let ?x = "json_dumps L (JObj execution)" and ?ims = "zip ids (map max_stored_executions Ts)"
  obtain s' where run: "store_task_execution L R C Ts execution s = (Inr (), s')"
    and store: "tiger_view p (view R s') = fold (\<lambda>(i, m). record_in_store ?x m i) ?ims t"
    using tiger_redis.store_executions_eq [OF assms(1,3,5), of ?x s]
    by (auto simp: store_task_execution_def assms(2) t simp del: tiger_view_simps)
  have len: "length ids = length Ts" using assms(3)
    by (induction Ts arbitrary: ids) (auto simp: bind_result_Inr_iff)
  then have dist: "distinct (map fst ?ims)" using assms(4) by simp
  note fields = record_fold [OF dist, of ?x t, folded store]
  show ?thesis
  proof (rule that [OF run refl])
    show "execs_count (tiger_view p (view R s')) i = Some (incr_string (execs_count t i)) \<and>
        execs (tiger_view p (view R s')) i = newest (max_stored_executions T) (execs t i @ [?x])"
      if "T \<in> set Ts" "task_id T = Inr i" for T i
      using fields zip_map_of [OF assms(3,4) that] by (simp del: tiger_view_simps)
    show "execs (tiger_view p (view R s')) i = execs t i \<and>
        execs_count (tiger_view p (view R s')) i = execs_count t i" if "i \<notin> set ids" for i
      using fields zip_map_of_None [OF that, of "map max_stored_executions Ts"] by (simp del: tiger_view_simps)
  qed (use fields in \<open>simp_all del: tiger_view_simps\<close>)
qed

lemma newest_None: "newest None xs = xs"
  by (simp add: newest_def)

lemma newest_kept:
  assumes "0 < n"
  shows "length (newest (Some n) (xs @ [x])) \<le> nat n \<and> last (newest (Some n) (xs @ [x])) = x \<and>
    suffix (newest (Some n) (xs @ [x])) (xs @ [x])"
proof -
  have "newest (Some n) (xs @ [x]) = drop (Suc (length xs) - nat n) (xs @ [x])"
    using newest_positive [OF assms, of "xs @ [x]"] by simp
  moreover have "Suc (length xs) - nat n \<le> length xs" using assms by linarith
  ultimately show ?thesis using assms by (simp add: suffix_drop)
qed

text \<open>C30: recording a failed execution appends it to the executions of every task of the group and
  counts it there; of the executions as many of the newest are kept as the task stores at most, if
  it has a positive limit. No other task's record changes, and no task moves.\<close>

theorem execution_recorded:
  assumes "tiger_redis R kind p" "REDIS_PREFIX C = p" "map_result task_id Ts = Inr ids" "distinct ids"
    and "list_all colon_free ids" and t: "t = tiger_view p (view R s)"
  shows "\<exists>s' t'. store_task_execution L R C Ts execution s = (Inr (), s') \<and> t' = tiger_view p (view R s') \<and>
    place t' = place t \<and> listed t' = listed t \<and> task_data t' = task_data t \<and>
    (\<forall>i. i \<in> set ids \<or> execs t' i = execs t i \<and> execs_count t' i = execs_count t i) \<and>
    (\<forall>T \<in> set Ts. \<forall>i n. task_id T = Inr i \<longrightarrow>
      execs_count t' i = Some (dec_of_nat (Suc (case execs_count t i of None \<Rightarrow> 0 | Some c \<Rightarrow> nat_of_dec c))) \<and>
      (max_stored_executions T = None \<longrightarrow> execs t' i = execs t i @ [json_dumps L (JObj execution)]) \<and>
      (max_stored_executions T = Some n \<and> 0 < n \<longrightarrow> length (execs t' i) \<le> nat n \<and>
        last (execs t' i) = json_dumps L (JObj execution) \<and>
        suffix (execs t' i) (execs t i @ [json_dumps L (JObj execution)])))"
proof -
  obtain s' t' where recorded: "store_task_execution L R C Ts execution s = (Inr (), s')"
    "t' = tiger_view p (view R s')" "place t' = place t" "listed t' = listed t" "task_data t' = task_data t"
    and task: "\<And>T i. T \<in> set Ts \<Longrightarrow> task_id T = Inr i \<Longrightarrow>
      execs_count t' i = Some (incr_string (execs_count t i)) \<and>
      execs t' i = newest (max_stored_executions T) (execs t i @ [json_dumps L (JObj execution)])"
    and other: "\<And>i. i \<notin> set ids \<Longrightarrow> execs t' i = execs t i \<and> execs_count t' i = execs_count t i"
    using recorded [OF assms, where L = L and execution = execution] by metis
  have "\<forall>i. i \<in> set ids \<or> execs t' i = execs t i \<and> execs_count t' i = execs_count t i"
    using other by blast
  moreover have "\<forall>T \<in> set Ts. \<forall>i n. task_id T = Inr i \<longrightarrow>
      execs_count t' i = Some (dec_of_nat (Suc (case execs_count t i of None \<Rightarrow> 0 | Some c \<Rightarrow> nat_of_dec c))) \<and>
      (max_stored_executions T = None \<longrightarrow> execs t' i = execs t i @ [json_dumps L (JObj execution)]) \<and>
      (max_stored_executions T = Some n \<and> 0 < n \<longrightarrow> length (execs t' i) \<le> nat n \<and>
        last (execs t' i) = json_dumps L (JObj execution) \<and>
        suffix (execs t' i) (execs t i @ [json_dumps L (JObj execution)]))"
    using task newest_kept [of _ "execs t _" "json_dumps L (JObj execution)"]
    by (auto simp: incr_string_def newest_None simp del: suffix_snoc)
  ultimately show ?thesis using recorded by blast
qed

definition ex_bounded_task :: task where
  "ex_bounded_task = stored_task ''q'' [(''id'', JStr ''x''), (''func'', JStr ''m:f''),
     (''max_stored_executions'', JNum 1)] (Some ACTIVE) (Some 5) []"

lemma ex_bounded_task_simps [simp]:
  "task_id ex_bounded_task = Inr ''x''" "max_stored_executions ex_bounded_task = Some 1"
  "serialized_func ex_bounded_task = Inr ''m:f''" "t_func ex_bounded_task = None"
  "serialized_runner_class ex_bounded_task = None" "task_args ex_bounded_task = []" "task_kwargs ex_bounded_task = []"
  by (simp_all add: ex_bounded_task_def stored_task_def task_id_def serialized_func_def entry_string_def dict_get_def
      max_stored_executions_def get_default_def serialized_runner_class_def task_args_def task_kwargs_def)

theorem execution_recorded_witness:
  "\<exists>s'. store_task_execution num_lib tmem ex_config [ex_bounded_task] ex_failure ex_running = (Inr (), s') \<and>
    length (execs (ex_store s') ''x'') \<le> 1 \<and> execs_count (ex_store s') ''x'' = Some (dec_of_nat 3)"
proof -
  from execution_recorded [OF tiger_mem.tiger_redis_axioms ex_config_simps(1), where Ts = "[ex_bounded_task]"
      and ids = "[''x'']" and s = ex_running and L = num_lib and execution = ex_failure, OF _ _ _ refl]
  obtain s' where "store_task_execution num_lib tmem ex_config [ex_bounded_task] ex_failure ex_running = (Inr (), s')"
    "execs_count (ex_store s') ''x'' = Some (dec_of_nat (Suc 2))" "length (execs (ex_store s') ''x'') \<le> 1"
    by (auto simp: ex_running_store simp del: tiger_view_simps)
  then show ?thesis by (simp add: numeral_3_eq_3 numeral_2_eq_2 del: tiger_view_simps)
qed

lemma execute_tasks_lemma:
  assumes "tiger_world R kind p P C" "same_func Ts = Inr ()" "map_result task_id Ts = Inr ids"
    and "list_all colon_free ids" "distinct ids"
    and "run_tasks P C Ts (snd (read_time P s)) = (result, s1)"
    and "execute_tasks L P R C tracebacks Ts s = (r, s')"
  shows "case result of
      Inr _ \<Rightarrow> r = Inr True \<and> s' = s1
    | Inl e \<Rightarrow>
        (case failure_entries e of
           Inl e' \<Rightarrow> r = Inl e' \<and> s' = s1
         | Inr entries \<Rightarrow> r = Inr False \<and> place (tiger_view p (view R s')) = place (tiger_view p (view R s1)) \<and>
             (\<forall>T \<in> set Ts. \<forall>i. task_id T = Inr i \<longrightarrow>
               execs_count (tiger_view p (view R s')) i =
                 Some (incr_string (execs_count (tiger_view p (view R s1)) i)) \<and>
               execs (tiger_view p (view R s')) i = newest (max_stored_executions T)
                 (execs (tiger_view p (view R s1)) i @ [json_dumps L (JObj (failure_record P tracebacks
                   (fst (read_time P s)) entries (fst (read_time P s1)) e))])))"
proof -
  obtain now s0 where s0: "read_time P s = (now, s0)" by fastforce
  obtain now' s2 where s2: "read_time P s1 = (now', s2)" by fastforce
  have same: "view R s2 = view R s1"
    using tiger_world.view_read_time [OF assms(1), of s1] s2 by simp
  show ?thesis
  proof (cases "\<exists>e entries. result = Inl e \<and> failure_entries e = Inr entries")
    case True
    then obtain e entries where e: "result = Inl e" "failure_entries e = Inr entries" by blast
    obtain s4 where stored: "store_task_execution L R C Ts (failure_record P tracebacks now entries now' e) s2 = (Inr (), s4)"
      "place (tiger_view p (view R s4)) = place (tiger_view p (view R s2))"
      "\<And>T i. T \<in> set Ts \<Longrightarrow> task_id T = Inr i \<Longrightarrow>
        execs_count (tiger_view p (view R s4)) i = Some (incr_string (execs_count (tiger_view p (view R s2)) i)) \<and>
        execs (tiger_view p (view R s4)) i = newest (max_stored_executions T) (execs (tiger_view p (view R s2)) i @
          [json_dumps L (JObj (failure_record P tracebacks now entries now' e))])"
      by (rule recorded [OF tiger_world.axioms(1) [OF assms(1)] tiger_world.prefix [OF assms(1)] assms(3,5,4) refl,
            where s = s2 and L = L and execution = "failure_record P tracebacks now entries now' e"]) blast
    have "r = Inr False" "s' = s4"
      using assms(2,6,7) e s0 s2 stored(1) by (simp_all add: execute_tasks_def)
    with stored(2,3) e s0 s2 same show ?thesis by simp
  next
    case False
    then show ?thesis
      using assms(2,6,7) s0 by (cases result; cases "failure_entries (projl result)") (auto simp: execute_tasks_def)
  qed
qed


text \<open>An application whose function raises what it is told to.\<close>

definition ex_raising :: "exn \<Rightarrow> memdb program" where
  "ex_raising e = ex_program\<lparr>call_func := (\<lambda>_ _ _ _ s. (Inl e, s))\<rparr>"

lemma ex_raising_world: "tiger_world tmem (tiger_kind ''t'') ''t'' (ex_raising e) ex_config"
  by unfold_locales (simp_all add: ex_raising_def ex_program_def ex_config_def default_config_def)

lemma ex_raising_run:
  "run_tasks (ex_raising e) ex_config [ex_bounded_task] (snd (read_time (ex_raising e) s)) = (Inl e, s)"
proof -
  have f: "func_of (ex_raising e) ex_bounded_task = Inr ex_func"
    using str_rsplit_append [of "CHR '':''" "''f''" "''m''"]
    by (simp add: func_of_def import_attribute_def ex_raising_def ex_program_def)
  have "\<not> is_batch ex_func" by (simp add: is_batch_def ex_func_def plain_func_def the_bool_def)
  moreover have "get_hard_timeouts ex_config ex_func [ex_bounded_task] = [300]"
    by (simp add: get_hard_timeouts_def is_batch_def ex_func_def plain_func_def the_bool_def hard_timeout_def
        ex_bounded_task_def stored_task_def get_default_def dict_get_def ex_config_def default_config_def)
  moreover have "get_runner_class (ex_raising e) [ex_bounded_task] = Inr (default_runner (ex_raising e))"
    by (simp add: get_runner_class_def)
  ultimately show ?thesis
    using f by (simp add: run_tasks_def default_runner_def default_single_def ignore_value_def)
      (simp add: ex_raising_def ex_program_def)
qed


subsection \<open>Waiting for a forked child\<close>

lemma wait_for_child_None:
  "wait_for_child L P R C q Ts ids locks queue_lock started deadline rounds s = None \<longleftrightarrow>
    (\<forall>r \<in> set rounds. poll_before r = None \<and> poll_after r = None \<and> round_time r \<le> deadline)"
  by (induction rounds arbitrary: s) (auto simp: Let_def split: option.splits sum.splits prod.splits)

text \<open>C31: the parent of a forked child waits exactly until a round of its loop finds that the child has
  exited or that the deadline has passed, which is the time at which it started plus the sum of the
  tasks' hard timeouts and the time that heartbeats may take; it never waits for a child longer.\<close>

theorem fork_execute_returns:
  assumes "Ts \<noteq> []" "func_of P (hd Ts) = Inr func" "map_result task_id Ts = Inr ids"
    and deadline: "deadline = fst (read_time P s) + sum_list (get_hard_timeouts C func Ts) + ACTIVE_TASK_UPDATE_TIMEOUT C"
  shows "fork_execute L P R C q Ts locks queue_lock rounds s \<noteq> None \<longleftrightarrow>
    (\<exists>r \<in> set rounds. poll_before r \<noteq> None \<or> poll_after r \<noteq> None \<or> deadline < round_time r)"
  using assms
  by (auto simp: fork_execute_def Let_def wait_for_child_None split_beta not_le simp del: not_None_eq)

theorem fork_execute_returns_witness:
  "fork_execute num_lib (ex_raising KeyError) tmem ex_config ''q'' [ex_bounded_task] [] None
     [\<lparr>poll_before = None, meanwhile = (\<lambda>s. s), poll_after = None, round_time = 361, kill_status = -9\<rparr>] ex_running \<noteq> None"
proof -
  have "func_of (ex_raising KeyError) ex_bounded_task = Inr ex_func"
    using str_rsplit_append [of "CHR '':''" "''f''" "''m''"]
    by (simp add: func_of_def import_attribute_def ex_raising_def ex_program_def)
  moreover have "fst (read_time (ex_raising KeyError) ex_running) + sum_list (get_hard_timeouts ex_config ex_func [ex_bounded_task])
      + ACTIVE_TASK_UPDATE_TIMEOUT ex_config = 360"
    by (simp add: get_hard_timeouts_def is_batch_def ex_func_def plain_func_def the_bool_def hard_timeout_def
        ex_bounded_task_def stored_task_def get_default_def dict_get_def ex_config_def default_config_def
        ex_raising_def ex_program_def)
  ultimately show ?thesis
    using fork_execute_returns [where Ts = "[ex_bounded_task]" and ids = "[''x'']" and s = ex_running, OF _ _ _ refl]
    by simp
qed

subsection \<open>Periodic tasks\<close>

lemma data_limit_renewed [simp]: "data_max_queue_size (set_entry ''id'' v T) = data_max_queue_size T"
  by (simp add: data_max_queue_size_def)

text \<open>A periodic task is queued for its next period under the identifier computed from its function
  and arguments, so a second worker that does so as well adds nothing; it is scheduled for the next
  time that its schedule gives, or queued now if that time is not in the future.\<close>

theorem next_period_queued:
  assumes "tiger_redis R kind p" "REDIS_PREFIX C = p" "\<not> ALWAYS_EAGER C" "pylib_ok L"
    and "the_queue T = Inr q" "serialized_func T = Inr name" "data_max_queue_size T = None"
    and "func_of P T = Inr func" "task_schedule func = Some schedule" "schedule utcnow = Inr (Some next_time)"
    and i: "i = gen_unique_id L name (JList (task_args T)) (JObj (task_kwargs T))"
    and state: "(ts, state) = (if next_time \<noteq> 0 \<and> now < timestamp_of next_time
      then (timestamp_of next_time, SCHEDULED) else (now, QUEUED))"
    and "queue_for_next_period L P R C utcnow now T s = (r, s')"
  shows "r = Inr (Some next_time) \<and>
    (\<forall>st q' j. task_score (tiger_view p (view R s')) st q' j =
      (if st = state \<and> q' = q \<and> j = i \<and> task_score (tiger_view p (view R s)) state q i = None then Some ts
       else task_score (tiger_view p (view R s)) st q' j))"
proof -
  define T' where "T' = set_entry ''id'' (JStr i) (T\<lparr>t_func := Some func, t_queue := Some q\<rparr>)"
  have q: "q \<noteq> []" using assms(5) by (auto simp: the_queue_def split: option.splits if_splits)
  have entries: "serialized_func (T\<lparr>t_func := Some func, t_queue := Some q\<rparr>) = Inr name"
    "task_args (T\<lparr>t_func := Some func, t_queue := Some q\<rparr>) = task_args T"
    "task_kwargs (T\<lparr>t_func := Some func, t_queue := Some q\<rparr>) = task_kwargs T"
    "data_max_queue_size (T\<lparr>t_func := Some func, t_queue := Some q\<rparr>) = None"
    using assms(6,7) by (simp_all add: serialized_func_def task_args_def task_kwargs_def data_max_queue_size_def)
  have T': "renewed_clone L P T = Inr T'"
    by (simp add: renewed_clone_def clone_def assms(5,8) entries i T'_def)
  have fields: "the_queue T' = Inr q" "task_id T' = Inr i" "data_max_queue_size T' = None"
    using q entries by (simp_all add: T'_def the_queue_def task_id_def entry_string_def)
  have colon: "colon_free i" using assms(4) by (simp add: i)
  have time: "queue_time (get_timestamp utcnow (WhenAt next_time)) now = (ts, state)"
    using state by (auto simp: queue_time_def timestamp_of_eq split: if_splits)
  obtain r' T'' where run: "delay L P R C utcnow now (WhenAt next_time) None T' s = (r', T'', s')"
    and r: "r = map_sum id (\<lambda>_. Some next_time) r'"
    using assms(8-10,13) T' by (auto simp: queue_for_next_period_def split: prod.splits)
  have "\<not> is_full (size_limit None T') n" for n by (simp add: is_full_def size_limit_def fields)
  with run have "r' = Inr ()" "\<exists>x. s' = enqueue R C state q i x ts s"
    unfolding delay_eq [OF assms(3) fields(1,2) time] by auto
  then show ?thesis
    using tiger_redis.store_enqueue [OF assms(1,2) colon] r
    by (auto simp: enqueue_in_store_score simp del: tiger_view_simps)
qed

definition ex_periodic :: task_func where
  "ex_periodic = ex_func\<lparr>task_schedule := Some (\<lambda>now. Inr (Some (now + 1000000)))\<rparr>"

definition ex_periodic_program :: "memdb program" where
  "ex_periodic_program = ex_program\<lparr>resolve_func := (\<lambda>_ _. Some ex_periodic)\<rparr>"

theorem next_period_queued_witness:
  "\<exists>i s'. queue_for_next_period num_lib ex_periodic_program tmem ex_config 5000000 5 ex_failed_task mem_empty =
      (Inr (Some 6000000), s') \<and> task_score (ex_store s') SCHEDULED ''q'' i = Some 6"
proof -
  have f: "func_of ex_periodic_program ex_failed_task = Inr ex_periodic"
    using str_rsplit_append [of "CHR '':''" "''f''" "''m''"]
    by (simp add: func_of_def import_attribute_def ex_periodic_program_def ex_failed_task_def stored_task_def
        serialized_func_def entry_string_def dict_get_def)
  have limit: "data_max_queue_size ex_failed_task = None"
    by (simp add: ex_failed_task_def stored_task_def data_max_queue_size_def get_default_def dict_get_def)
  have schedule: "task_schedule ex_periodic = Some (\<lambda>now. Inr (Some (now + 1000000)))"
    by (simp add: ex_periodic_def)
  obtain r s' where run: "queue_for_next_period num_lib ex_periodic_program tmem ex_config 5000000 5 ex_failed_task
      mem_empty = (r, s')"
    by fastforce
  from next_period_queued [OF tiger_mem.tiger_redis_axioms ex_config_simps(1,2) num_lib_ok ex_failed_task_simps(1,3)
      limit f schedule _ refl _ run, of 6000000 6 SCHEDULED] run
  show ?thesis by (auto simp: timestamp_of_eq task_score_def simp del: tiger_view_simps)
qed

end
