(* ===== verification/Stats.thy ===== *)
theory Stats
  imports Prelude
begin

text \<open>
  The statistics thread (\<^verbatim>\<open>tasktiger/stats.py\<close>): the time in which the worker was busy since the last
  report. Its three methods run under a lock, so each is one step; the monotonic clock is an argument.
\<close>

subsection \<open>The thread's state\<close>

record stats_thread =
  task_running :: bool
  time_start :: time
  time_busy :: time
  task_start_time :: "time option"

definition new_stats :: "time \<Rightarrow> stats_thread" where
  "new_stats now = \<lparr>task_running = False, time_start = now, time_busy = 0, task_start_time = None\<rparr>"

definition report_task_start :: "time \<Rightarrow> stats_thread \<Rightarrow> stats_thread" where
  "report_task_start now S = S\<lparr>task_start_time := Some now, task_running := True\<rparr>"

definition report_task_end :: "time \<Rightarrow> stats_thread \<Rightarrow> stats_thread result" where
  "report_task_end now S =
     (case task_start_time S of
        None \<Rightarrow> Inl AssertionError
      | Some started \<Rightarrow>
          Inr (S\<lparr>time_busy := time_busy S + (now - started), task_running := False, task_start_time := None\<rparr>))"

text \<open>The report, if any time has passed: the time in total, the time busy and the utilization in percent.\<close>

definition compute_stats :: "time \<Rightarrow> stats_thread \<Rightarrow> ((time \<times> time \<times> rat) option \<times> stats_thread) result" where
  "compute_stats now S =
     (let time_total = now - time_start S;
          S1 = S\<lparr>time_start := now, time_busy := 0\<rparr>;
          report = (\<lambda>busy. if time_total = 0 then None else Some (time_total, busy, 100 / time_total * busy))
      in if task_running S then
           (case task_start_time S of
              None \<Rightarrow> Inl AssertionError
            | Some started \<Rightarrow> Inr (report (time_busy S + (now - started)), S1\<lparr>task_start_time := Some now\<rparr>))
         else Inr (report (time_busy S), S1\<lparr>task_start_time := None\<rparr>))"

subsection \<open>What the worker and the thread do with it\<close>

text \<open>
  The worker reports the start of a group and then its end; the thread reports in between, at any
  time. The state carries what the clock showed last.
\<close>

inductive stats_step :: "time \<times> stats_thread \<Rightarrow> time \<times> stats_thread \<Rightarrow> bool" where
  step_start: "now \<le> now' \<Longrightarrow> \<not> task_running S \<Longrightarrow> stats_step (now, S) (now', report_task_start now' S)"
| step_end: "now \<le> now' \<Longrightarrow> task_running S \<Longrightarrow> report_task_end now' S = Inr S' \<Longrightarrow>
    stats_step (now, S) (now', S')"
| step_report: "now \<le> now' \<Longrightarrow> compute_stats now' S = Inr (r, S') \<Longrightarrow> stats_step (now, S) (now', S')"

inductive_cases stats_stepE: "stats_step x y"

text \<open>The time busy so far, with the task that is running, is no longer than the time that has passed.\<close>

definition stats_ok :: "time \<times> stats_thread \<Rightarrow> bool" where
  "stats_ok = (\<lambda>(now, S).
     0 \<le> time_busy S \<and> time_start S + time_busy S \<le> (case task_start_time S of None \<Rightarrow> now | Some t \<Rightarrow> t) \<and>
     (case task_start_time S of None \<Rightarrow> True | Some t \<Rightarrow> t \<le> now) \<and>
     (task_running S \<longleftrightarrow> task_start_time S \<noteq> None))"

interpretation stats_runs: inductive_invariant "\<lambda>(now, S). S = new_stats now" stats_step stats_ok
proof unfold_locales
  show "stats_ok x" if "(\<lambda>(now, S). S = new_stats now) x" for x
    using that by (auto simp: stats_ok_def new_stats_def)
  show "stats_ok y" if "stats_step x y" "stats_ok x" for x y
    using that
    by cases (auto simp: stats_ok_def report_task_start_def report_task_end_def compute_stats_def Let_def
        split: option.splits if_splits)
qed



end
