(* ===== verification/Tiger_Properties.thy ===== *)
theory Tiger_Properties
  imports Task_Tiger Worker_Executions Stats
begin

text \<open>
  The properties of the operations on whole queues: the statistics, the purge of failed tasks, page
  by page, and the migration of the execution counters.
\<close>

subsection \<open>Statistics\<close>

lemma assign_cards_eq:
  "assign_cards pairs (map f pairs) stats =
    Inr (\<lambda>q st. if (st, q) \<in> set pairs then Some (f (st, q)) else stats q st)"
  by (induction pairs arbitrary: stats) (auto simp: add_stat_def fun_eq_iff)

text \<open>The statistics give, for every state that lists a queue, the number of the queue's tasks in that
  state, and nothing else; the flat list of sizes is never exhausted. With an exact index these are
  the non-empty queues, each with a positive number.\<close>

theorem queue_stats_sizes:
  assumes "tiger_redis R kind p" "REDIS_PREFIX C = p" and t: "t = tiger_view p (view R s)"
  shows "\<exists>stats. get_queue_stats R C s = Inr stats \<and>
    (\<forall>q st. stats q st = (if q \<in> listed t st then Some (length (zlist (place t st q))) else None)) \<and>
    (indexed t \<longrightarrow> (\<forall>q st. stats q st = Some n \<longrightarrow> 0 < n))"
proof -
  note server = tiger_redis.axioms(1) [OF assms(1)]
  let ?states = "[QUEUED, ACTIVE, SCHEDULED, ERROR]"
  define pairs where "pairs = concat (map (\<lambda>(state, result). map (Pair state) result)
    (zip ?states (map (\<lambda>state. r_smembers R (state_key p state) s) ?states)))"
  have members: "set (r_smembers R (state_key p st) s) = listed t st" for st
    by (simp add: t redis_server.smembers_set [OF server] tiger_redis.kind_state [OF assms(1)])
  have pairs: "(st, q) \<in> set pairs \<longleftrightarrow> q \<in> listed t st" for st q
    by (cases st) (auto simp: pairs_def members simp del: tiger_view_simps)
  have "get_queue_stats R C s = assign_cards pairs
      (map (\<lambda>(st, q). r_zcard R (queue_key p st q) s) pairs) (\<lambda>_ _. None)"
    by (simp add: get_queue_stats_def assms(2) Let_def pairs_def)
  also have "\<dots> = Inr (\<lambda>q st. if q \<in> listed t st then Some (length (zlist (place t st q))) else None)"
    by (simp add: assign_cards_eq pairs t redis_server.zcard [OF server] tiger_redis.kind_queue [OF assms(1)]
        cong: if_cong)
  finally show ?thesis by (auto simp: indexed_def)
qed

theorem queue_stats_sizes_witness:
  "\<exists>stats. get_queue_stats tmem ex_config ex_requeued = Inr stats \<and>
    stats ''q'' QUEUED = Some 1 \<and> stats ''q'' ACTIVE = None"
  using queue_stats_sizes [OF tiger_mem.tiger_redis_axioms ex_config_simps(1) refl, of ex_requeued 0]
  by (auto simp: ex_requeued_db zlist_eval)

subsection \<open>Counters\<close>

text \<open>The migration brings the counter of every task whose executions the scan finds up to the number
  of executions that are stored, never lowers a counter, and changes nothing else.\<close>

theorem migrated_counts:
  assumes "tiger_redis R kind p" "list_all colon_free ids"
    and t: "t = tiger_view p (view R s)"
    and t': "t' = tiger_view p (view R (migrate_executions_count R (map (executions_key p) ids) s))"
    and count: "\<And>u i. count u i = (case execs_count u i of None \<Rightarrow> 0 | Some x \<Rightarrow> nat_of_dec x)"
  shows "\<exists>counters. t' = t\<lparr>execs_count := counters\<rparr> \<and>
    (\<forall>i. count t' i = (if i \<in> set ids then max (count t i) (length (execs t i)) else count t i))"
  using assms(2) unfolding t t' migrate_executions_count_def
proof (induction ids arbitrary: s)
  case Nil
  show ?case by (auto simp: count intro!: exI [of _ "execs_count (tiger_view p (view R s))"])
next
  case (Cons i ids)
  note server = tiger_redis.axioms(1) [OF assms(1)]
  let ?k = "executions_key p i" and ?u = "tiger_view p (view R s)"
  have i: "colon_free i" using Cons.prems by simp
  have key: "?k @ ''_count'' = count_key p i" by (simp add: tiger_key_tail)
  define s1 where "s1 = migrate_task_script R ?k (count_key p i) s"
  have step: "tiger_view p (view R s1) =
      (if count ?u i < length (execs ?u i)
       then ?u\<lparr>execs_count := (execs_count ?u)(i \<mapsto> dec_of_nat (length (execs ?u i)))\<rparr> else ?u)"
    using i by (simp add: s1_def migrate_task_script_def Let_def count redis_server.llen [OF server]
        redis_server.get_str [OF server] redis_server.view_set [OF server] store_view
        tiger_redis.kind_executions [OF assms(1)] tiger_redis.kind_count [OF assms(1)])
  from Cons.IH [of s1] Cons.prems obtain counters where
    rest: "tiger_view p (view R (fold (\<lambda>k. migrate_task_script R k (k @ ''_count'')) (map (executions_key p) ids) s1)) =
        (tiger_view p (view R s1))\<lparr>execs_count := counters\<rparr>"
      "\<forall>j. count ((tiger_view p (view R s1))\<lparr>execs_count := counters\<rparr>) j =
        (if j \<in> set ids then max (count (tiger_view p (view R s1)) j) (length (execs (tiger_view p (view R s1)) j))
         else count (tiger_view p (view R s1)) j)"
    by auto
  show ?case
    unfolding list.map fold_simps key s1_def [symmetric] rest(1)
    using rest(2) unfolding step by (auto simp: count max_def)
qed

theorem migrated_counts_witness:
  "\<exists>s'. s' = migrate_executions_count tmem [executions_key ''t'' ''x'']
      (r_rpush tmem (executions_key ''t'' ''x'') ''e'' mem_empty) \<and>
    nat_of_dec (the (execs_count (ex_store s') ''x'')) = 1"
proof -
  let ?s = "r_rpush tmem (executions_key ''t'' ''x'') ''e'' mem_empty"
  let ?count = "\<lambda>u i. case execs_count u i of None \<Rightarrow> 0 | Some x \<Rightarrow> nat_of_dec x"
  have "execs (ex_store ?s) ''x'' = [''e'']" "execs_count (ex_store ?s) ''x'' = None"
    by (simp_all add: mem_update_defs)
  with migrated_counts [OF tiger_mem.tiger_redis_axioms _ refl refl, where ids = "[''x'']" and s = ?s and count = ?count]
  have "?count (ex_store (migrate_executions_count tmem [executions_key ''t'' ''x''] ?s)) ''x'' = 1"
    by (auto simp del: tiger_view_simps)
  then show ?thesis by (auto simp del: tiger_view_simps split: option.splits)
qed

subsection \<open>Purging one page\<close>

text \<open>A queue whose failed tasks can be deleted: the data of each names it, or is gone.\<close>

definition deletable :: "pylib \<Rightarrow> queue_name \<Rightarrow> store \<Rightarrow> bool" where
  "deletable L q t \<longleftrightarrow> q \<noteq> [] \<and>
     (\<forall>i. task_at t ERROR q i \<longrightarrow> colon_free i \<and>
       (\<forall>x. task_data t i = Some x \<longrightarrow> (\<exists>d. loads_dict L x = Inr d \<and> entry_string ''id'' d = Inr i)))"

definition without :: "queue_name \<Rightarrow> task_id list \<Rightarrow> store \<Rightarrow> store \<Rightarrow> bool" where
  "without q ids t t' \<longleftrightarrow>
     (\<forall>st q' j. task_score t' st q' j = (if st = ERROR \<and> q' = q \<and> j \<in> set ids then None else task_score t st q' j)) \<and>
     (\<forall>j. task_data t' j = task_data t j \<or> task_data t' j = None)"

lemma without_Nil: "without q [] t t"
  by (simp add: without_def)

lemma without_Cons:
  "without q [i] t u \<Longrightarrow> without q ids u v \<Longrightarrow> without q (i # ids) t v"
  by (auto simp: without_def) (metis option.distinct(1))

lemma deletable_without: "deletable L q' t \<Longrightarrow> without q ids t t' \<Longrightarrow> deletable L q' t'"
  by (auto simp: deletable_def without_def task_at_def split: if_splits) (metis option.distinct(1))+

lemma zmembers_without: "without q ids t t' \<Longrightarrow>
    place t' st q' = (if st = ERROR \<and> q' = q then zremove_all ids (place t ERROR q) else place t st q')"
  by (rule zset_eqI) (auto simp: without_def zget_place)

lemma length_zremove_all: "length (zlist (zremove_all ids z)) \<le> length (zlist z)"
  by (simp add: zremove_all_def zfilter.rep_eq)

definition page_of :: "'a list \<Rightarrow> int \<Rightarrow> int \<Rightarrow> 'a list" where
  "page_of zs skip plim = drop (length zs - nat skip - nat plim) (take (length zs - nat skip) zs)"

lemma first_not_dropped: "distinct xs \<Longrightarrow> 0 < k \<Longrightarrow> xs \<noteq> [] \<Longrightarrow> xs ! 0 \<notin> set (drop k xs)"
  by (cases xs; cases k) (auto dest: in_set_dropD)

lemma set_page_of: "set (page_of zs skip plim) \<subseteq> set zs"
  unfolding page_of_def by (meson order_trans set_drop_subset set_take_subset)

lemma distinct_page_of: "distinct (map f zs) \<Longrightarrow> distinct (map f (page_of zs skip plim))"
  by (simp add: page_of_def drop_map take_map flip: drop_map take_map)

context tiger_world
begin

lemma delete_one:
  assumes "the_queue T = Inr q" "task_id T = Inr i" "colon_free i" "task_at (store_of s) ERROR q i"
  shows "\<exists>T' s'. delete R C now T s = (Inr (), T', s') \<and> without q [i] (store_of s) (store_of s')"
  using move_cases [OF prefix assms(1-3), where from_state = "Some ERROR" and st = ERROR and now = now
      and to_state = None and w = None and s = s and mode = None] assms(4)
  by (auto simp: delete_def without_def move_in_store_score move_in_store_data simp del: tiger_view_simps)

lemma purge_tasks_all:
  assumes "list_all2 (\<lambda>T i. the_queue T = Inr q \<and> task_id T = Inr i) Ts ids" "distinct ids"
    and "\<forall>i \<in> set ids. colon_free i \<and> task_at (store_of s) ERROR q i"
  shows "\<exists>s'. purge_tasks P R C None None Ts n s = (Inr (n + int (length Ts), False), s') \<and>
    without q ids (store_of s) (store_of s')"
  using assms
proof (induction Ts ids arbitrary: n s rule: list_all2_induct)
  case Nil
  show ?case by (simp add: without_Nil)
next
  case (Cons T Ts i ids)
  obtain now s1 where s1: "read_time P s = (now, s1)" by fastforce
  then have same: "store_of s1 = store_of s" using view_read_time [of s] by simp
  with Cons.hyps Cons.prems obtain T' s2 where s2: "delete R C now T s1 = (Inr (), T', s2)"
    "without q [i] (store_of s) (store_of s2)"
    using delete_one [of T q i s1 now] by (auto simp del: tiger_view_simps)
  moreover from s2(2) Cons.prems have "\<forall>j \<in> set ids. colon_free j \<and> task_at (store_of s2) ERROR q j"
    by (auto simp: without_def task_at_def)
  ultimately show ?case
    using Cons.IH [of s2 "n + 1"] Cons.prems(1) without_Cons [OF s2(2)] by (auto simp: s1 add.assoc)
qed

text \<open>The tasks of a page can be loaded, whether or not their data is there.\<close>

lemma page_tasks:
  assumes "deletable L q (store_of s)" "set page \<subseteq> set (zlist (place (store_of s) ERROR q))"
  shows "\<exists>Ts. map_result (\<lambda>(ts, i). map_sum id (\<lambda>d. stored_task q d (Some ERROR) (Some ts) [])
        (stored_data L (r_get R (task_key p i) s) i)) page = Inr Ts \<and>
      list_all2 (\<lambda>T i. the_queue T = Inr q \<and> task_id T = Inr i) Ts (map snd page)"
  using assms(2)
proof (induction page)
  case (Cons e page)
  obtain ts i where e: "e = (ts, i)" by (cases e)
  with Cons.prems have "task_at (store_of s) ERROR q i"
    by (simp add: task_at_def task_score_def zget_Some_iff del: tiger_view_simps) (auto simp flip: zget_Some_iff)
  with assms(1) have i: "colon_free i" "q \<noteq> []"
    "\<And>x. task_data (store_of s) i = Some x \<Longrightarrow> \<exists>d. loads_dict L x = Inr d \<and> entry_string ''id'' d = Inr i"
    by (auto simp: deletable_def simp del: tiger_view_simps)
  moreover have "r_get R (task_key p i) s = task_data (store_of s) i"
    using i(1) by (simp add: get_str kind_task)
  ultimately obtain d where "stored_data L (r_get R (task_key p i) s) i = Inr d" "entry_string ''id'' d = Inr i"
    by (cases "task_data (store_of s) i") (auto simp: stored_data_def entry_string_def dict_get_def)
  with Cons i(2) show ?case by (auto simp: e the_queue_def stored_task_def task_id_def)
qed simp

lemma purge_page:
  assumes "deletable L q (store_of s)" "0 < plim" "0 \<le> skip"
  defines "zs \<equiv> zlist (place (store_of s) ERROR q)"
  shows "\<exists>Ts s'. tasks_from_queue L R C q ERROR skip plim 0 True s = Inr (length zs, Ts) \<and>
    purge_tasks P R C None None Ts n s = (Inr (n + int (length (page_of zs skip plim)), False), s') \<and>
    without q (map snd (page_of zs skip plim)) (store_of s) (store_of s')"
proof -
  let ?page = "page_of zs skip plim"
  have range: "r_zrange R (queue_key p ERROR q) (- plim - skip) (- 1 - skip) s = ?page"
    "r_zcard R (queue_key p ERROR q) s = length zs"
    by (simp_all add: zrange zcard kind_queue slice_page [OF assms(2,3)] zs_def page_of_def)
  obtain Ts where Ts: "map_result (\<lambda>(ts, i). map_sum id (\<lambda>d. stored_task q d (Some ERROR) (Some ts) [])
        (stored_data L (r_get R (task_key p i) s) i)) ?page = Inr Ts"
      "list_all2 (\<lambda>T i. the_queue T = Inr q \<and> task_id T = Inr i) Ts (map snd ?page)"
    using page_tasks [OF assms(1), of ?page] set_page_of [of zs skip plim] unfolding zs_def by blast
  have loaded: "tasks_from_queue L R C q ERROR skip plim 0 True s = Inr (length zs, Ts)"
    by (simp add: tasks_from_queue_def Let_def load_tasks_page range Ts(1))
  have "task_at (store_of s) ERROR q i" if "i \<in> set (map snd ?page)" for i
    using that set_page_of [of zs skip plim]
    by (force simp: task_at_def task_score_def zs_def simp del: tiger_view_simps simp flip: zget_Some_iff)
  moreover from this assms(1) have "colon_free i" if "i \<in> set (map snd ?page)" for i
    using that by (simp add: deletable_def del: tiger_view_simps set_map)
  moreover have "distinct (map snd ?page)"
    by (rule distinct_page_of) (simp only: zs_def zlist_distinct)
  ultimately obtain s' where "purge_tasks P R C None None Ts n s = (Inr (n + int (length Ts), False), s')"
    "without q (map snd ?page) (store_of s) (store_of s')"
    using purge_tasks_all [OF Ts(2)] by blast
  moreover have "length Ts = length ?page" using list_all2_lengthD [OF Ts(2)] by simp
  ultimately show ?thesis using loaded by auto
qed

lemma purge_queue_all:
  assumes "deletable L q (store_of s)" "0 < plim" "int (length (zlist (place (store_of s) ERROR q))) \<le> plim"
  shows "\<exists>s'. purge_pages L P R C None None plim q (Suc (Suc fuel)) 0 None n s =
      Some (Inr (n + int (length (zlist (place (store_of s) ERROR q))), False), s') \<and>
    without q (zmembers (place (store_of s) ERROR q)) (store_of s) (store_of s')"
proof -
  let ?zs = "zlist (place (store_of s) ERROR q)"
  have page: "page_of ?zs 0 plim = ?zs"
    using assms(2,3) by (simp add: page_of_def) 
  show ?thesis
    using purge_page [OF assms(1,2), of 0 n, unfolded page] assms(3)
    by (auto simp: zmembers_def simp del: tiger_view_simps)
qed

text \<open>All queues, each with at most one page.\<close>

lemma purge_queues_all:
  assumes "distinct queues" "2 \<le> fuel"
    and "\<forall>q \<in> set queues. queue_included only excl q \<longrightarrow>
      deletable L q (store_of s) \<and> length (zlist (place (store_of s) ERROR q)) \<le> 5000"
  shows "\<exists>s'. purge_queues L P R C only excl None None fuel queues n s =
      Some (Inr (n + int (\<Sum>q\<leftarrow>filter (queue_included only excl) queues. length (zlist (place (store_of s) ERROR q)))), s') \<and>
    (\<forall>st q. place (store_of s') st q =
      (if st = ERROR \<and> q \<in> set queues \<and> queue_included only excl q then zempty else place (store_of s) st q))"
  using assms
proof (induction queues arbitrary: n s)
  case (Cons q queues)
  show ?case
  proof (cases "queue_included only excl q")
    case False
    with Cons.IH [of s n] Cons.prems show ?thesis by (auto simp del: tiger_view_simps)
  next
    case True
    let ?zs = "zlist (place (store_of s) ERROR q)"
    obtain f where fuel: "fuel = Suc (Suc f)" using that [of "fuel - 2"] Cons.prems(2) by simp
    from True Cons.prems(3) have "deletable L q (store_of s)" "int (length ?zs) \<le> 5000"
      by (simp_all del: tiger_view_simps)
    from purge_queue_all [OF this(1) _ this(2), of f n] obtain s1 where
      s1: "purge_pages L P R C None None 5000 q fuel 0 None n s = Some (Inr (n + int (length ?zs), False), s1)"
      "without q (zmembers (place (store_of s) ERROR q)) (store_of s) (store_of s1)"
      unfolding fuel by auto
    have "zremove_all (zmembers (place (store_of s) ERROR q)) (place (store_of s) ERROR q) = zempty"
      by (simp add: zset_eq_zempty_iff zget_None_iff del: tiger_view_simps)
    with zmembers_without [OF s1(2)] have places: "place (store_of s1) st q' =
        (if st = ERROR \<and> q' = q then zempty else place (store_of s) st q')" for st q'
      by simp
    have "\<forall>q \<in> set queues. queue_included only excl q \<longrightarrow>
        deletable L q (store_of s1) \<and> length (zlist (place (store_of s1) ERROR q)) \<le> 5000"
      using Cons.prems(1,3) deletable_without [OF _ s1(2)] by (auto simp: places simp del: tiger_view_simps)
    from Cons.IH [OF _ Cons.prems(2) this, of "n + int (length ?zs)"] Cons.prems(1) obtain s' where s':
      "purge_queues L P R C only excl None None fuel queues (n + int (length ?zs)) s1 =
        Some (Inr (n + int (length ?zs) + int (\<Sum>q\<leftarrow>filter (queue_included only excl) queues.
          length (zlist (place (store_of s1) ERROR q)))), s')"
      "\<forall>st q'. place (store_of s') st q' = (if st = ERROR \<and> q' \<in> set queues \<and> queue_included only excl q'
        then zempty else place (store_of s1) st q')"
      by auto
    have "(\<Sum>q\<leftarrow>filter (queue_included only excl) queues. length (zlist (place (store_of s1) ERROR q))) =
        (\<Sum>q\<leftarrow>filter (queue_included only excl) queues. length (zlist (place (store_of s) ERROR q)))"
      using Cons.prems(1) by (intro arg_cong [where f = sum_list] map_cong refl) (auto simp: places simp del: tiger_view_simps)
    with s' s1(1) True show ?thesis by (auto simp: places simp del: tiger_view_simps)
  qed
qed simp

text \<open>An entry that is not on the page keeps the queue from becoming empty.\<close>

lemma page_leaves:
  assumes "without q (map snd (page_of zs skip plim)) t t'" "zs = zlist (place t ERROR q)"
    and "e \<in> set zs" "e \<notin> set (page_of zs skip plim)"
  shows "place t' ERROR q \<noteq> zempty"
proof -
  have "snd e \<notin> set (map snd (page_of zs skip plim))"
  proof
    assume "snd e \<in> set (map snd (page_of zs skip plim))"
    then obtain e' where e': "e' \<in> set (page_of zs skip plim)" "snd e' = snd e" by auto
    then have "e' \<in> set zs" using set_page_of [of zs skip plim] by blast
    moreover have "inj_on snd (set zs)"
      using zlist_distinct [of "place t ERROR q"] by (simp only: distinct_map assms(2))
    ultimately have "e' = e" using e'(2) assms(3) by (auto dest: inj_onD)
    with e'(1) assms(4) show False by simp
  qed
  then have "task_score t' ERROR q (snd e) = task_score t ERROR q (snd e)"
    using assms(1) by (simp add: without_def)
  moreover have "task_score t ERROR q (snd e) = Some (fst e)"
    using assms(2,3) by (simp add: task_score_def zget_Some_iff)
  ultimately show ?thesis by (auto simp: task_score_def)
qed

text \<open>Once entries are skipped, a queue that is not empty does not become so.\<close>

lemma pages_leave:
  assumes "deletable L q (store_of s)" "0 < plim" "0 < skip" "place (store_of s) ERROR q \<noteq> zempty"
    and "purge_pages L P R C None None plim q fuel skip m n s = Some (r, s')"
  shows "place (store_of s') ERROR q \<noteq> zempty"
  using assms
proof (induction fuel arbitrary: skip m n s)
  case (Suc fuel)
  let ?zs = "zlist (place (store_of s) ERROR q)"
  obtain Ts s1 where step: "tasks_from_queue L R C q ERROR skip plim 0 True s = Inr (length ?zs, Ts)"
    "purge_tasks P R C None None Ts n s = (Inr (n + int (length (page_of ?zs skip plim)), False), s1)"
    "without q (map snd (page_of ?zs skip plim)) (store_of s) (store_of s1)"
    using purge_page [OF Suc.prems(1,2)] Suc.prems(3) by (meson less_imp_le)
  have "?zs \<noteq> []" using Suc.prems(4) by simp
  moreover have "last ?zs \<notin> set (take (length ?zs - nat skip) ?zs)"
  proof -
    have "distinct ?zs" using zlist_distinct [of "place (store_of s) ERROR q"] by (simp add: distinct_map del: tiger_view_simps)
    moreover have "last ?zs = ?zs ! (length ?zs - 1)" using \<open>?zs \<noteq> []\<close> by (rule last_conv_nth)
    ultimately show ?thesis
      using Suc.prems(3) \<open>?zs \<noteq> []\<close> by (auto simp: in_set_conv_nth nth_eq_iff_index_eq)
  qed
  moreover have "set (page_of ?zs skip plim) \<subseteq> set (take (length ?zs - nat skip) ?zs)"
    by (simp add: page_of_def set_drop_subset)
  ultimately have last: "last ?zs \<in> set ?zs" "last ?zs \<notin> set (page_of ?zs skip plim)"
    using last_in_set by blast+
  then have left: "place (store_of s1) ERROR q \<noteq> zempty"
    using page_leaves [OF step(3) refl] by blast
  show ?case
  proof (cases "\<exists>k \<in> set_option m. k \<le> skip")
    case True
    with Suc.prems show ?thesis by (auto split: option.splits)
  next
    case False
    with Suc.prems(5) step have "purge_pages L P R C None None plim q fuel (skip + plim) (Some (int (length ?zs)))
        (n + int (length (page_of ?zs skip plim))) s1 = Some (r, s')"
      by (simp del: tiger_view_simps)
    moreover have "0 < skip + plim" using Suc.prems(2,3) by simp
    ultimately show ?thesis
      using Suc.IH [OF deletable_without [OF Suc.prems(1) step(3)] Suc.prems(2) _ left] by blast
  qed
qed simp

text \<open>The loop ends: what it skips grows with every page and the queue does not.\<close>

lemma pages_return:
  assumes "deletable L q (store_of s)" "0 < plim" "0 \<le> skip"
    and "int (length (zlist (place (store_of s) ERROR q))) \<le> total'" "total' - skip < int fuel" "0 < fuel"
  shows "\<exists>n' s'. purge_pages L P R C None None plim q fuel skip (Some total') n s = Some (Inr (n', False), s')"
  using assms
proof (induction fuel arbitrary: skip total' n s)
  case (Suc fuel)
  let ?zs = "zlist (place (store_of s) ERROR q)"
  show ?case
  proof (cases "total' \<le> skip")
    case False
    obtain Ts s1 where step: "tasks_from_queue L R C q ERROR skip plim 0 True s = Inr (length ?zs, Ts)"
      "purge_tasks P R C None None Ts n s = (Inr (n + int (length (page_of ?zs skip plim)), False), s1)"
      "without q (map snd (page_of ?zs skip plim)) (store_of s) (store_of s1)"
      using purge_page [OF Suc.prems(1-3)] by blast
    have "length (zlist (place (store_of s1) ERROR q)) \<le> length ?zs"
      unfolding zmembers_without [OF step(3)] by (simp add: length_zremove_all del: tiger_view_simps)
    moreover have "0 < fuel" using False Suc.prems(5) by (cases fuel) auto
    ultimately show ?thesis
      using Suc.IH [OF deletable_without [OF Suc.prems(1) step(3)] Suc.prems(2), of "skip + plim" "int (length ?zs)"]
        step False Suc.prems(2-5)
      by (simp del: tiger_view_simps)
  qed simp
qed simp

lemma purge_pages_return:
  assumes "deletable L q (store_of s)" "0 < plim" "length (zlist (place (store_of s) ERROR q)) + 2 \<le> fuel"
  shows "\<exists>n' s'. purge_pages L P R C None None plim q fuel 0 None n s = Some (Inr (n', False), s')"
proof -
  let ?zs = "zlist (place (store_of s) ERROR q)"
  obtain f where fuel: "fuel = Suc f" using assms(3) by (cases fuel) auto
  obtain Ts s1 where step: "tasks_from_queue L R C q ERROR 0 plim 0 True s = Inr (length ?zs, Ts)"
    "purge_tasks P R C None None Ts n s = (Inr (n + int (length (page_of ?zs 0 plim)), False), s1)"
    "without q (map snd (page_of ?zs 0 plim)) (store_of s) (store_of s1)"
    using purge_page [OF assms(1,2) order.refl, of n] by blast
  have "length (zlist (place (store_of s1) ERROR q)) \<le> length ?zs"
    unfolding zmembers_without [OF step(3)] by (simp add: length_zremove_all del: tiger_view_simps)
  then show ?thesis
    using pages_return [OF deletable_without [OF assms(1) step(3)] assms(2), of plim "int (length ?zs)" f]
      step assms(2,3)
    by (simp add: fuel del: tiger_view_simps)
qed

lemma purge_queue_leaves:
  assumes "deletable L q (store_of s)" "0 < plim" "plim < int (length (zlist (place (store_of s) ERROR q)))"
    and "purge_pages L P R C None None plim q fuel 0 None n s = Some (r, s')"
  shows "place (store_of s') ERROR q \<noteq> zempty"
proof -
  let ?zs = "zlist (place (store_of s) ERROR q)"
  obtain f where fuel: "fuel = Suc f" using assms(4) by (cases fuel) auto
  obtain Ts s1 where step: "tasks_from_queue L R C q ERROR 0 plim 0 True s = Inr (length ?zs, Ts)"
    "purge_tasks P R C None None Ts n s = (Inr (n + int (length (page_of ?zs 0 plim)), False), s1)"
    "without q (map snd (page_of ?zs 0 plim)) (store_of s) (store_of s1)"
    using purge_page [OF assms(1,2) order.refl, of n] by blast
  have "distinct ?zs" using zlist_distinct [of "place (store_of s) ERROR q"]
    by (simp add: distinct_map del: tiger_view_simps)
  moreover have "0 < length ?zs - nat plim" "?zs \<noteq> []"
    using assms(2,3) by (linarith, use assms(2,3) in \<open>force simp del: tiger_view_simps\<close>)
  ultimately have "?zs ! 0 \<notin> set (page_of ?zs 0 plim)"
    unfolding page_of_def by (simp only: nat_0 diff_zero take_all order.refl first_not_dropped not_False_eq_True)
  moreover have "?zs ! 0 \<in> set ?zs" using assms(2,3) by (intro nth_mem) linarith
  ultimately have "place (store_of s1) ERROR q \<noteq> zempty"
    using page_leaves [OF step(3) refl] by blast
  moreover from assms(4) step have "purge_pages L P R C None None plim q f plim (Some (int (length ?zs)))
      (n + int (length (page_of ?zs 0 plim))) s1 = Some (r, s')"
    by (simp add: fuel del: tiger_view_simps)
  ultimately show ?thesis
    using pages_leave [OF deletable_without [OF assms(1) step(3)] assms(2,2)] by blast
qed

end

text \<open>C33: purging a queue page by page returns, with two more rounds than the queue has failed tasks. But
  the loop counts on the entries to stay while it deletes them, so it empties the queue exactly if
  these fit on one page: of a queue with more of them, some are left.\<close>

theorem purge_pages_empty_iff:
  assumes "tiger_world R kind p P C" "0 < task_limit" "deletable L q (tiger_view p (view R s))"
    and "zs = zlist (place (tiger_view p (view R s)) ERROR q)" "length zs + 2 \<le> fuel"
  shows "\<exists>n' s'. purge_pages L P R C None None task_limit q fuel 0 None n s = Some (Inr (n', False), s') \<and>
    (place (tiger_view p (view R s')) ERROR q = zempty \<longleftrightarrow> int (length zs) \<le> task_limit)"
proof (cases "int (length zs) \<le> task_limit")
  case True
  obtain f where fuel: "fuel = Suc (Suc f)" using that [of "fuel - 2"] assms(5) by simp
  from tiger_world.purge_queue_all [OF assms(1,3,2) True [unfolded assms(4)], of f n] obtain n' s' where
    run: "purge_pages L P R C None None task_limit q fuel 0 None n s = Some (Inr (n', False), s')"
    "without q (zmembers (place (tiger_view p (view R s)) ERROR q)) (tiger_view p (view R s)) (tiger_view p (view R s'))"
    unfolding fuel by blast
  from zmembers_without [OF run(2), of ERROR q] have "place (tiger_view p (view R s')) ERROR q = zempty"
    by (simp add: zset_eq_zempty_iff zget_None_iff del: tiger_view_simps)
  with run(1) True show ?thesis by blast
next
  case False
  from tiger_world.purge_pages_return [OF assms(1,3,2), of fuel n] assms(4,5) obtain n' s' where
    run: "purge_pages L P R C None None task_limit q fuel 0 None n s = Some (Inr (n', False), s')"
    by blast
  from tiger_world.purge_queue_leaves [OF assms(1,3,2) _ run] False assms(4) run show ?thesis
    by (meson not_le)
qed

text \<open>Two failed tasks, whose data is gone, and a page that holds one.\<close>

definition ex_errors :: memdb where
  "ex_errors = snd (r_zadd tmem (queue_key ''t'' ERROR ''q'') [(6, ''y'')]
     (snd (r_zadd tmem (queue_key ''t'' ERROR ''q'') [(5, ''x'')] mem_empty)))"

lemma ex_errors_db:
  "zsets (ex_db ex_errors) (queue_key ''t'' st q) =
    (if st = ERROR \<and> q = ''q'' then zins 6 ''y'' (zins 5 ''x'' zempty) else zempty)"
  "strs (ex_db ex_errors) k = None"
  by (auto simp: ex_errors_def mem_update_defs Let_def)

lemma ex_errors_deletable: "deletable num_lib ''q'' (ex_store ex_errors)"
  by (auto simp: deletable_def task_at_def task_score_def ex_errors_db colon_free_def split: if_splits)

theorem purge_pages_empty_iff_witness:
  "\<exists>n' s'. purge_pages num_lib ex_program tmem ex_config None None 1 ''q'' 4 0 None 0 ex_errors = Some (Inr (n', False), s') \<and>
    place (ex_store s') ERROR ''q'' \<noteq> zempty"
  using purge_pages_empty_iff [OF ex_world _ ex_errors_deletable refl, of 1 4 0]
  by (auto simp: ex_errors_db zlist_eval)

text \<open>C32: without limits, a purge of queues that hold no more than a page of failed tasks each empties
  those it selects and no other, in no other state, and returns how many tasks it deleted.\<close>

theorem purge_errored_complete:
  assumes "tiger_world R kind p P C" "2 \<le> fuel" and t: "t = tiger_view p (view R s)"
    and selected: "\<And>q. selected q \<longleftrightarrow> q \<in> listed t ERROR \<and>
      queue_included (queues_or queues (ONLY_QUEUES C)) (queues_or exclude (EXCLUDE_QUEUES C)) q"
    and "\<And>q. selected q \<Longrightarrow> deletable L q t \<and> length (zlist (place t ERROR q)) \<le> 5000"
  shows "\<exists>s'. purge_errored_tasks L P R C fuel queues exclude None None s =
      Some (Inr (\<Sum>q | selected q. int (length (zlist (place t ERROR q)))), s') \<and>
    (\<forall>st q. place (tiger_view p (view R s')) st q = (if st = ERROR \<and> selected q then zempty else place t st q))"
proof -
  note tiger = tiger_world.axioms(1) [OF assms(1)]
  note server = tiger_redis.axioms(1) [OF tiger]
  let ?included = "queue_included (queues_or queues (ONLY_QUEUES C)) (queues_or exclude (EXCLUDE_QUEUES C))"
  let ?queues = "r_smembers R (state_key p ERROR) s"
  have listed: "set ?queues = listed t ERROR" "distinct ?queues"
    by (simp_all add: t redis_server.smembers_set [OF server] redis_server.smembers_distinct [OF server]
        tiger_redis.kind_state [OF tiger])
  have "\<forall>q \<in> set ?queues. ?included q \<longrightarrow> deletable L q t \<and> length (zlist (place t ERROR q)) \<le> 5000"
    using assms(4,5) listed(1) by simp
  from tiger_world.purge_queues_all [OF assms(1) listed(2) assms(2) this [unfolded t], of 0]
  obtain s' where s': "purge_queues L P R C (queues_or queues (ONLY_QUEUES C)) (queues_or exclude (EXCLUDE_QUEUES C))
      None None fuel ?queues 0 s = Some (Inr (int (\<Sum>q\<leftarrow>filter ?included ?queues. length (zlist (place t ERROR q)))), s')"
    "\<forall>st q. place (tiger_view p (view R s')) st q =
      (if st = ERROR \<and> q \<in> set ?queues \<and> ?included q then zempty else place t st q)"
    unfolding t by (simp only: add_0) blast
  have "int (\<Sum>q\<leftarrow>filter ?included ?queues. length (zlist (place t ERROR q))) =
      (\<Sum>q | selected q. int (length (zlist (place t ERROR q))))"
    using listed by (simp add: sum_list_distinct_conv_sum_set selected conj_commute)
  with s' show ?thesis
    by (simp add: purge_errored_tasks_def tiger_world.prefix [OF assms(1)] selected listed(1) del: tiger_view_simps)
qed

definition ex_listed_errors :: memdb where
  "ex_listed_errors = r_sadd tmem (state_key ''t'' ERROR) ''q'' ex_errors"

lemma ex_listed_errors_db:
  "zsets (ex_db ex_listed_errors) (queue_key ''t'' st q) =
    (if st = ERROR \<and> q = ''q'' then zins 6 ''y'' (zins 5 ''x'' zempty) else zempty)"
  "sets (ex_db ex_listed_errors) (state_key ''t'' st) = (if st = ERROR then {''q''} else {})"
  "strs (ex_db ex_listed_errors) k = None"
  by (auto simp: ex_listed_errors_def ex_errors_def mem_update_defs Let_def)

lemma ex_listed_errors_deletable: "deletable num_lib ''q'' (ex_store ex_listed_errors)"
  by (auto simp: deletable_def task_at_def task_score_def ex_listed_errors_db colon_free_def split: if_splits)

lemma match_no_parts: "match_parts parts [] []"
  by (induction parts) simp_all

theorem purge_errored_complete_witness:
  "\<exists>s'. purge_errored_tasks num_lib ex_program tmem ex_config 2 None None None None ex_listed_errors = Some (Inr 2, s') \<and>
    place (ex_store s') ERROR ''q'' = zempty"
proof -
  have included: "queue_included (queues_or None (ONLY_QUEUES ex_config)) (queues_or None (EXCLUDE_QUEUES ex_config)) q" for q
    by (simp add: queues_or_def ex_config_def default_config_def the_list_def queue_included_def match_no_parts)
  have listed: "listed (ex_store ex_listed_errors) ERROR = {''q''}"
    by (simp add: ex_listed_errors_db)
  from purge_errored_complete [OF ex_world order.refl refl, where selected = "\<lambda>q. q = ''q''" and s = ex_listed_errors
      and L = num_lib and queues = None and exclude = None] ex_listed_errors_deletable
  show ?thesis by (simp add: included listed) (auto simp: ex_listed_errors_db zlist_eval)
qed

end
