(* ===== verification/Timeouts.thy ===== *)
theory Timeouts
  imports Worker_Executions
begin

text \<open>
  Time limits of tasks: \<^verbatim>\<open>tasktiger/timeouts.py\<close>, and with it the \<^verbatim>\<open>with\<close> statement in which
  \<^verbatim>\<open>DefaultRunner\<close> calls a task's function. The process has a timer and a handler for its signal. The
  code that runs under a limit is a list of steps, each with the time that it takes and its effect on
  the server, and an outcome. A step that is not over when the timer expires has no effect. The
  operating system also chooses whether the signal comes while the block is left.
\<close>

subsection \<open>The alarm of the process\<close>

datatype sig_handler = SIG_DFL | Handle_death_penalty

record alarm =
  sigalrm :: sig_handler
  itimer :: "rat option"

text \<open>
  \<^verbatim>\<open>signal.setitimer\<close>: zero switches the timer off and a negative time is an error of the system call.
  \<^verbatim>\<open>signal.alarm(0)\<close> switches it off. An expiry runs the handler, or ends the process: \<open>None\<close>.
\<close>

definition setitimer :: "rat \<Rightarrow> alarm \<Rightarrow> unit result \<times> alarm" where
  "setitimer seconds pr =
     (if seconds < 0 then (Inl (UserException ''signal:itimer_error'' True), pr)
      else (Inr (), pr\<lparr>itimer := if seconds = 0 then None else Some seconds\<rparr>))"

definition alarm_expires :: "alarm \<Rightarrow> unit result option \<times> alarm" where
  "alarm_expires pr =
     (case sigalrm pr of SIG_DFL \<Rightarrow> None | Handle_death_penalty \<Rightarrow> Some (Inl JobTimeoutException),
      pr\<lparr>itimer := None\<rparr>)"

definition setup_death_penalty :: "rat \<Rightarrow> alarm \<Rightarrow> unit result \<times> alarm" where
  "setup_death_penalty timeout pr = setitimer timeout (pr\<lparr>sigalrm := Handle_death_penalty\<rparr>)"

text \<open>
  \<open>rings\<close>: the timer expires before both calls are done. The handler then raises in between, and no
  further call is made.
\<close>

definition cancel_death_penalty :: "bool \<Rightarrow> alarm \<Rightarrow> unit result option \<times> alarm" where
  "cancel_death_penalty rings pr =
     (if rings \<and> itimer pr \<noteq> None then alarm_expires pr
      else (Some (Inr ()), pr\<lparr>itimer := None, sigalrm := SIG_DFL\<rparr>))"

definition exit_death_penalty :: "bool \<Rightarrow> alarm \<Rightarrow> unit result option \<times> alarm" where
  "exit_death_penalty rings pr =
     (case cancel_death_penalty rings pr of
        (Some (Inl e), pr') \<Rightarrow> (Some (if e = JobTimeoutException then Inr () else Inl e), pr')
      | (r, pr') \<Rightarrow> (r, pr'))"

subsection \<open>Code under a limit\<close>

record ('a, 'r) activity =
  steps :: "(rat \<times> ('r \<Rightarrow> 'r)) list"
  outcome :: "'r \<Rightarrow> 'a result"

definition effects :: "(rat \<times> ('r \<Rightarrow> 'r)) list \<Rightarrow> 'r \<Rightarrow> 'r" where
  "effects xs s = fold snd xs s"

definition time_of :: "(rat \<times> ('r \<Rightarrow> 'r)) list \<Rightarrow> rat" where
  "time_of xs = sum_list (map fst xs)"

fun run_steps :: "(rat \<times> ('r \<Rightarrow> 'r)) list \<Rightarrow> alarm \<Rightarrow> 'r \<Rightarrow> unit result option \<times> alarm \<times> 'r" where
  "run_steps [] pr s = (Some (Inr ()), pr, s)"
| "run_steps ((takes, f) # xs) pr s =
     (case itimer pr of
        None \<Rightarrow> run_steps xs pr (f s)
      | Some left \<Rightarrow>
          if takes < left then run_steps xs (pr\<lparr>itimer := Some (left - takes)\<rparr>) (f s)
          else (case alarm_expires pr of (r, pr') \<Rightarrow> (r, pr', s)))"

text \<open>
  The block \<^verbatim>\<open>with UnixSignalDeathPenalty(timeout): body\<close>. If entering it raises, it is neither run
  nor left; leaving it does not suppress the exception of the body.
\<close>

definition with_death_penalty ::
    "rat \<Rightarrow> bool \<Rightarrow> ('a, 'r) activity \<Rightarrow> alarm \<Rightarrow> 'r \<Rightarrow> 'a result option \<times> alarm \<times> 'r" where
  "with_death_penalty timeout rings body pr s =
     (case setup_death_penalty timeout pr of
        (Inl e, pr1) \<Rightarrow> (Some (Inl e), pr1, s)
      | (Inr _, pr1) \<Rightarrow>
          (case run_steps (steps body) pr1 s of
             (None, pr2, s') \<Rightarrow> (None, pr2, s')
           | (Some r, pr2, s') \<Rightarrow>
               (case exit_death_penalty rings pr2 of
                  (None, pr3) \<Rightarrow> (None, pr3, s')
                | (Some (Inl e), pr3) \<Rightarrow> (Some (Inl e), pr3, s')
                | (Some (Inr _), pr3) \<Rightarrow> (Some (bind_result r (\<lambda>_. outcome body s')), pr3, s'))))"

subsection \<open>What a limit does\<close>

text \<open>The first \<open>n\<close> steps are those that are over before \<open>limit\<close>.\<close>

definition over_before :: "rat \<Rightarrow> (rat \<times> ('r \<Rightarrow> 'r)) list \<Rightarrow> nat \<Rightarrow> bool" where
  "over_before limit xs n \<longleftrightarrow> n \<le> length xs \<and> (\<forall>m \<le> n. time_of (take m xs) < limit) \<and>
     (n < length xs \<longrightarrow> limit \<le> time_of (take (Suc n) xs))"

lemma over_before_Cons:
  assumes "over_before (limit - fst x) xs n" "0 < limit"
  shows "over_before limit (x # xs) (Suc n)"
proof -
  have "time_of (take m (x # xs)) < limit" if "m \<le> Suc n" for m
  proof (cases m)
    case (Suc k)
    with that assms(1) have "time_of (take k xs) < limit - fst x" by (simp add: over_before_def)
    with Suc show ?thesis by (simp add: time_of_def)
  qed (use assms(2) in \<open>simp add: time_of_def\<close>)
  then show ?thesis using assms(1) by (auto simp: over_before_def time_of_def)
qed

lemma run_steps_limit:
  assumes "sigalrm pr = Handle_death_penalty" "itimer pr = Some limit" "0 < limit"
  obtains n where "over_before limit xs n"
    "run_steps xs pr s =
      (if n = length xs then (Some (Inr ()), pr\<lparr>itimer := Some (limit - time_of xs)\<rparr>, effects xs s)
       else (Some (Inl JobTimeoutException), pr\<lparr>itimer := None\<rparr>, effects (take n xs) s))"
  using assms
proof (induction xs arbitrary: pr limit s thesis)
  case Nil
  then show ?case by (simp add: over_before_def time_of_def effects_def)
next
  case (Cons x xs)
  obtain takes f where x: "x = (takes, f)" by (cases x)
  show ?case
  proof (cases "takes < limit")
    case True
    let ?pr = "pr\<lparr>itimer := Some (limit - takes)\<rparr>"
    obtain n where "over_before (limit - takes) xs n" "run_steps xs ?pr (f s) =
      (if n = length xs then (Some (Inr ()), ?pr\<lparr>itimer := Some (limit - takes - time_of xs)\<rparr>, effects xs (f s))
       else (Some (Inl JobTimeoutException), ?pr\<lparr>itimer := None\<rparr>, effects (take n xs) (f s)))"
      by (rule Cons.IH [of "limit - takes" ?pr "f s"]) (use Cons.prems True in simp_all)
    then show ?thesis
      using Cons.prems(3,4) True x over_before_Cons [of limit x xs n]
      by (intro Cons.prems(1) [of "Suc n"])
        (auto simp: time_of_def effects_def diff_diff_eq intro: arg_cong [where f = "\<lambda>t. pr\<lparr>itimer := Some t\<rparr>"])
  next
    case False
    then show ?thesis
      using Cons.prems x
      by (intro Cons.prems(1) [of 0]) (simp_all add: over_before_def time_of_def effects_def alarm_expires_def)
  qed
qed

lemma exit_after_limit: "exit_death_penalty rings (pr\<lparr>itimer := None\<rparr>) = (Some (Inr ()), pr\<lparr>itimer := None, sigalrm := SIG_DFL\<rparr>)"
  by (simp add: exit_death_penalty_def cancel_death_penalty_def)

lemma exit_in_time:
  assumes "sigalrm pr = Handle_death_penalty" "itimer pr = Some left"
  shows "exit_death_penalty rings pr =
    (Some (Inr ()), if rings then pr\<lparr>itimer := None\<rparr> else pr\<lparr>itimer := None, sigalrm := SIG_DFL\<rparr>)"
  using assms by (simp add: exit_death_penalty_def cancel_death_penalty_def alarm_expires_def)

lemma time_limit_lemma:
  assumes "0 < limit" and run: "with_death_penalty limit rings body pr s = (r, pr', s')"
  shows "\<exists>n. over_before limit (steps body) n \<and> s' = effects (take n (steps body)) s \<and> itimer pr' = None \<and>
    (if n = length (steps body)
     then r = Some (outcome body s') \<and> sigalrm pr' = (if rings then Handle_death_penalty else SIG_DFL)
     else r = Some (Inl JobTimeoutException) \<and> sigalrm pr' = SIG_DFL)"
proof -
  let ?pr = "pr\<lparr>sigalrm := Handle_death_penalty, itimer := Some limit\<rparr>"
  obtain n where n: "over_before limit (steps body) n"
    and steps: "run_steps (steps body) ?pr s =
      (if n = length (steps body) then (Some (Inr ()), ?pr\<lparr>itimer := Some (limit - time_of (steps body))\<rparr>, effects (steps body) s)
       else (Some (Inl JobTimeoutException), ?pr\<lparr>itimer := None\<rparr>, effects (take n (steps body)) s))"
    by (rule run_steps_limit [of ?pr limit "steps body" s]) (use assms(1) in simp_all)
  have "setup_death_penalty limit pr = (Inr (), ?pr)"
    using assms(1) by (simp add: setup_death_penalty_def setitimer_def)
  then show ?thesis
    using run n steps exit_in_time [of "?pr\<lparr>itimer := Some (limit - time_of (steps body))\<rparr>"]
      exit_after_limit [of rings ?pr]
    by (intro exI [of _ n]) (auto simp: with_death_penalty_def split: if_splits)
qed

text \<open>C28: a function that runs under a limit is interrupted by \<^verbatim>\<open>JobTimeoutException\<close> exactly if it does not
  end before the limit; then exactly the steps that were over by then have had their effect. Otherwise
  its own outcome is passed on, even if the timer expires while the block is left. The signal never
  ends the process, no timer is left behind, and the default handler is back unless the timer expired
  while the block was left.\<close>

theorem time_limit:
  assumes "0 < limit" and run: "with_death_penalty limit rings body pr s = (r, pr', s')"
  shows "\<exists>n. over_before limit (steps body) n \<and> s' = effects (take n (steps body)) s \<and> itimer pr' = None \<and>
    (if n = length (steps body)
     then r = Some (outcome body s') \<and> sigalrm pr' = (if rings then Handle_death_penalty else SIG_DFL)
     else r = Some (Inl JobTimeoutException) \<and> sigalrm pr' = SIG_DFL)"
  by (rule time_limit_lemma [OF assms])

text \<open>A function that writes a key after two seconds and another one after three more.\<close>

definition ex_activity :: "(json, memdb) activity" where
  "ex_activity =
     \<lparr>steps = [(2, r_set tmem ''one'' ''1''), (3, r_set tmem ''two'' ''2'')], outcome = (\<lambda>s. Inr JNull)\<rparr>"

definition ex_alarm :: alarm where
  "ex_alarm = \<lparr>sigalrm = SIG_DFL, itimer = None\<rparr>"

lemma ex_activity_over:
  shows "over_before 4 (steps ex_activity) n \<Longrightarrow> n = 1" and "over_before 6 (steps ex_activity) n \<Longrightarrow> n = 2"
proof -
  have n: "n = 0 \<or> n = 1 \<or> n = 2" if "over_before limit (steps ex_activity) n" for limit
    using that by (auto simp: over_before_def ex_activity_def)
  have two: "over_before limit (steps ex_activity) 2 \<Longrightarrow> 5 < limit" "over_before limit (steps ex_activity) 0 \<Longrightarrow> limit \<le> 2"
    "over_before limit (steps ex_activity) 1 \<Longrightarrow> limit \<le> 5" for limit
    by (auto simp: over_before_def ex_activity_def time_of_def dest!: spec [of _ 2])
  show "over_before 4 (steps ex_activity) n \<Longrightarrow> n = 1" using n [of 4] two [of 4] by auto
  show "over_before 6 (steps ex_activity) n \<Longrightarrow> n = 2" using n [of 6] two [of 6] by auto
qed

theorem time_limit_witness:
  "fst (with_death_penalty 4 True ex_activity ex_alarm mem_empty) = Some (Inl JobTimeoutException) \<and>
   snd (snd (with_death_penalty 4 True ex_activity ex_alarm mem_empty)) = r_set tmem ''one'' ''1'' mem_empty \<and>
   fst (with_death_penalty 6 True ex_activity ex_alarm mem_empty) = Some (Inr JNull)"
proof -
  obtain r pr' s' where run: "with_death_penalty 4 True ex_activity ex_alarm mem_empty = (r, pr', s')"
    by (cases "with_death_penalty 4 True ex_activity ex_alarm mem_empty")
  from time_limit [OF _ run] obtain n where n: "over_before 4 (steps ex_activity) n"
      "s' = effects (take n (steps ex_activity)) mem_empty"
      "n \<noteq> length (steps ex_activity) \<longrightarrow> r = Some (Inl JobTimeoutException)"
    by (auto split: if_splits)
  from ex_activity_over(1) [OF n(1)] have "n = 1" .
  with n(2,3) run have first: "fst (with_death_penalty 4 True ex_activity ex_alarm mem_empty) = Some (Inl JobTimeoutException) \<and>
      snd (snd (with_death_penalty 4 True ex_activity ex_alarm mem_empty)) = r_set tmem ''one'' ''1'' mem_empty"
    by (simp add: ex_activity_def effects_def)
  obtain r pr' s' where run: "with_death_penalty 6 True ex_activity ex_alarm mem_empty = (r, pr', s')"
    by (cases "with_death_penalty 6 True ex_activity ex_alarm mem_empty")
  from time_limit [OF _ run] obtain n where n: "over_before 6 (steps ex_activity) n"
      "n = length (steps ex_activity) \<longrightarrow> r = Some (outcome ex_activity s')"
    by (auto split: if_splits)
  from ex_activity_over(2) [OF n(1)] have "n = 2" .
  with n(2) run first show ?thesis by (simp add: ex_activity_def)
qed

subsection \<open>Tasks under a limit\<close>

text \<open>
  An application whose functions are activities. Which state the alarm of the process is in when a
  task starts does not matter, since entering the block sets both parts of it.
\<close>

definition timed_program ::
    "(task_func \<Rightarrow> json list \<Rightarrow> dict \<Rightarrow> (json, 'r) activity) \<Rightarrow> bool \<Rightarrow> alarm \<Rightarrow> 'r program \<Rightarrow> 'r program" where
  "timed_program body rings pr P = P\<lparr>call_func := (\<lambda>limit func args kwargs s.
     case limit of
       None \<Rightarrow> (outcome (body func args kwargs) (effects (steps (body func args kwargs)) s),
                effects (steps (body func args kwargs)) s)
     | Some timeout \<Rightarrow>
         (case with_death_penalty timeout rings (body func args kwargs) pr s of
            (r, pr', s') \<Rightarrow> (case r of None \<Rightarrow> Inl SystemExit | Some result \<Rightarrow> result, s')))\<rparr>"

text \<open>C27: a task whose function does not end before its hard timeout fails with
  \<^verbatim>\<open>JobTimeoutException\<close>: the executor reports a failure, counts it for the task and records it under
  the name of this exception, by which the worker knows later that the task timed out. The tasks are
  otherwise where the function had left them at that time. A function that ends in time and returns
  makes the execution a success.\<close>

theorem overtime_recorded:
  assumes "tiger_world R kind p P C" and P': "P' = timed_program body rings pr P"
    and "task_id T = Inr i" "colon_free i" "serialized_func T = Inr name"
    and "func_of P' T = Inr func" "\<not> is_batch func" "get_runner_class P' [T] = Inr (default_runner P')"
    and "get_hard_timeouts C func [T] = [limit]" "0 < limit"
    and B: "B = body func (task_args T) (task_kwargs T)"
    and s0: "s0 = snd (read_time P s)" and "execute_tasks L P' R C tracebacks [T] s = (r, s')"
  shows "\<exists>n s1. over_before limit (steps B) n \<and> s1 = effects (take n (steps B)) s0 \<and>
    (n < length (steps B) \<longrightarrow> r = Inr False \<and> place (tiger_view p (view R s')) = place (tiger_view p (view R s1)) \<and>
      execs_count (tiger_view p (view R s')) i = Some (incr_string (execs_count (tiger_view p (view R s1)) i)) \<and>
      execs (tiger_view p (view R s')) i = newest (max_stored_executions T) (execs (tiger_view p (view R s1)) i @
        [json_dumps L (JObj ([(''time_started'', JNum (fst (read_time P s))),
          (''exception_name'', JStr ''tasktiger.exceptions:JobTimeoutException''),
          (''time_failed'', JNum (fst (read_time P s1)))] @
          (if tracebacks then [(''traceback'', JStr (format_exception P JobTimeoutException))] else []) @
          [(''success'', JBool False), (''host'', JStr (hostname P))]))])) \<and>
    (n = length (steps B) \<and> (\<exists>v. outcome B s1 = Inr v) \<longrightarrow> r = Inr True \<and> s' = s1)"
proof -
  let ?T = "[T]" and ?s1 = "snd (read_time P' s)"
  have world: "tiger_world R kind p P' C"
    using assms(1) unfolding P' timed_program_def tiger_world_def tiger_world_axioms_def by simp
  have single: "same_func ?T = Inr ()" "map_result task_id ?T = Inr [i]" "list_all colon_free [i]" "distinct [i]"
    using assms(3,4,5) by (simp_all add: same_func_def)
  have s1: "?s1 = s0" unfolding P' s0 timed_program_def by simp
  obtain r1 pr' s2 where limited: "with_death_penalty limit rings B pr s0 = (r1, pr', s2)"
    by (cases "with_death_penalty limit rings B pr s0")
  obtain n where n: "over_before limit (steps B) n" "s2 = effects (take n (steps B)) s0"
    "r1 = Some (if n = length (steps B) then outcome B s2 else Inl JobTimeoutException)"
    using time_limit_lemma [OF assms(10) limited] by (auto split: if_splits)
  have "call_func P' (Some limit) func (task_args T) (task_kwargs T) s0 = (the r1, s2)"
    using limited n(3) by (simp add: P' timed_program_def B)
  then have run: "run_tasks P' C ?T ?s1 = (map_sum id (\<lambda>_. ()) (the r1), s2)"
    using assms(6,7,8,9) unfolding s1
    by (cases "the r1") (simp_all add: run_tasks_def default_runner_def default_single_def ignore_value_def)
  have entries: "failure_entries JobTimeoutException =
      Inr [(''exception_name'', JStr ''tasktiger.exceptions:JobTimeoutException'')]"
    by (simp add: serialized_class_def)
  have parts: "read_time P' = read_time P" "hostname P' = hostname P" "format_exception P' = format_exception P"
    unfolding P' timed_program_def by simp_all
  note execute_tasks_lemma [OF world single run assms(13)]
  with n show ?thesis
    using assms(3) by (intro exI [of _ n] exI [of _ s2])
      (auto simp: over_before_def entries parts failure_record_def entry_def when_true_def simp del: failure_entries.simps)
qed

text \<open>The function of the example under the default time limit of five minutes, and a slower one.\<close>

definition ex_slow :: "rat \<Rightarrow> memdb program" where
  "ex_slow takes = timed_program (\<lambda>_ _ _. \<lparr>steps = [(takes, \<lambda>s. s)], outcome = (\<lambda>s. Inr JNull)\<rparr>) False ex_alarm ex_program"

theorem overtime_recorded_witness:
  "fst (execute_tasks num_lib (ex_slow 301) tmem ex_config True [ex_bounded_task] ex_running) = Inr False \<and>
   fst (execute_tasks num_lib (ex_slow 299) tmem ex_config True [ex_bounded_task] ex_running) = Inr True"
proof -
  have f: "func_of (ex_slow t) ex_bounded_task = Inr ex_func" for t
    using str_rsplit_append [of "CHR '':''" "''f''" "''m''"]
    by (simp add: func_of_def import_attribute_def ex_slow_def timed_program_def ex_program_def)
  have batch: "\<not> is_batch ex_func" by (simp add: is_batch_def ex_func_def plain_func_def the_bool_def)
  have runner: "get_runner_class (ex_slow t) [ex_bounded_task] = Inr (default_runner (ex_slow t))" for t
    by (simp add: get_runner_class_def)
  have limit: "get_hard_timeouts ex_config ex_func [ex_bounded_task] = [300]"
    by (simp add: get_hard_timeouts_def is_batch_def ex_func_def plain_func_def the_bool_def hard_timeout_def
        ex_bounded_task_def stored_task_def get_default_def dict_get_def ex_config_def default_config_def)
  note overtime = overtime_recorded [OF ex_world ex_slow_def ex_bounded_task_simps(1) colon_free_x
      ex_bounded_task_simps(3) f batch runner limit _ refl refl]
  have over: "over_before 300 [(t, f)] n \<Longrightarrow> (if t < 300 then n = 1 else n = 0)" for t n and f :: "memdb \<Rightarrow> memdb"
    by (cases n) (auto simp: over_before_def time_of_def)
  obtain r s' where slow: "execute_tasks num_lib (ex_slow 301) tmem ex_config True [ex_bounded_task] ex_running = (r, s')"
    by fastforce
  obtain r' s'' where fast: "execute_tasks num_lib (ex_slow 299) tmem ex_config True [ex_bounded_task] ex_running = (r', s'')"
    by fastforce
  from overtime [OF _ slow] over [of 301] have "r = Inr False" by fastforce
  moreover from overtime [OF _ fast] over [of 299] have "r' = Inr True" by fastforce
  ultimately show ?thesis using slow fast by simp
qed

end
