(* ===== verification/Forked_Child.thy ===== *)
theory Forked_Child
  imports Worker_Executions
begin

text \<open>
  The child of \<^verbatim>\<open>ForkExecutor\<close> (\<^verbatim>\<open>executor.py\<close>): it executes the tasks like \<^verbatim>\<open>SyncExecutor\<close> and exits with
  a status that tells its parent whether they succeeded. An exception that \<^verbatim>\<open>execute_tasks\<close> lets through
  does not come to that exit: it unwinds the worker's own call stack in the child, whose main loop
  swallows \<^verbatim>\<open>KeyboardInterrupt\<close>, and ends the interpreter.
\<close>

subsection \<open>The exit status\<close>

text \<open>
  What the application's code passes to \<^verbatim>\<open>sys.exit\<close>: nothing or \<^verbatim>\<open>None\<close>, an integer, or any other object.
  The interpreter turns it into an exit code, -1 for an integer that does not fit into a C \<^verbatim>\<open>long\<close>, of
  which the operating system keeps the lowest eight bits.
\<close>

datatype exit_arg = Exit_none | Exit_int int | Exit_object

fun exit_byte :: "exit_arg \<Rightarrow> int" where
  "exit_byte Exit_none = 0"
| "exit_byte (Exit_int n) = (if - (2 ^ 63) \<le> n \<and> n < 2 ^ 63 then n mod 256 else 255)"
| "exit_byte Exit_object = 1"

text \<open>The status as \<^verbatim>\<open>os.waitpid\<close> returns it for a child that exits: the byte above the lowest one.\<close>

fun child_status :: "exit_arg \<Rightarrow> bool result \<Rightarrow> int" where
  "child_status exit_code (Inr success) = (if success then 0 else 256)"
| "child_status exit_code (Inl SystemExit) = 256 * exit_byte exit_code"
| "child_status exit_code (Inl e) = (if e = KeyboardInterrupt then 0 else 256)"

text \<open>The round of the parent's loop in which a child runs that finds the server in state \<open>s0\<close>.\<close>

definition child_round ::
    "pylib \<Rightarrow> 'r program \<Rightarrow> 'r redis \<Rightarrow> config \<Rightarrow> bool \<Rightarrow> exit_arg \<Rightarrow> task list \<Rightarrow> time \<Rightarrow> 'r \<Rightarrow> 'r wait_round" where
  "child_round L P R C tracebacks exit_code Ts now s0 =
     \<lparr>poll_before = None, meanwhile = (\<lambda>s. snd (execute_tasks L P R C tracebacks Ts s)),
      poll_after = Some (child_status exit_code (fst (execute_tasks L P R C tracebacks Ts s0))),
      round_time = now, kill_status = 9\<rparr>"

subsection \<open>The two executors\<close>

lemma heartbeats_wait:
  assumes "\<forall>rd \<in> set idle. poll_before rd = None \<and> poll_after rd = None \<and> round_time rd \<le> deadline"
  shows "wait_for_child L P R C q Ts ids locks queue_lock started deadline (idle @ rounds) s =
    wait_for_child L P R C q Ts ids locks queue_lock started deadline rounds
      (fold (\<lambda>rd s. heartbeat P R C q ids locks queue_lock (meanwhile rd s)) idle s)"
  using assms by (induction idle arbitrary: s) (auto simp: Let_def not_less)

text \<open>C29: a forked child does what the synchronous executor does. If the parent has waited for some rounds
  with a heartbeat each, the executors agree on the result and on the server, as far as the exceptions
  of the tasks are handled. Any other exception stops the worker with the synchronous executor, while
  the parent of a forked child takes it for a failure without a record, and for a success if the child
  ends with status zero: by \<^verbatim>\<open>KeyboardInterrupt\<close>, by \<^verbatim>\<open>sys.exit()\<close>, and by \<^verbatim>\<open>sys.exit(n)\<close> for every multiple
  of 256 that a C \<^verbatim>\<open>long\<close> holds.\<close>

theorem fork_like_sync:
  assumes "Ts \<noteq> []" "func_of P (hd Ts) = Inr func" "map_result task_id Ts = Inr ids" "serialized_func (hd Ts) = Inr name"
    and deadline: "deadline = fst (read_time P s) + sum_list (get_hard_timeouts C func Ts) + ACTIVE_TASK_UPDATE_TIMEOUT C"
    and idle: "\<forall>rd \<in> set idle. poll_before rd = None \<and> poll_after rd = None \<and> round_time rd \<le> deadline"
    and s0: "s0 = fold (\<lambda>rd s. heartbeat P R C q (remdups ids) locks queue_lock (meanwhile rd s)) idle (snd (read_time P s))"
    and sync: "sync_execute L P R C tracebacks Ts s0 = (r, s')"
  shows "fork_execute L P R C q Ts locks queue_lock (idle @ child_round L P R C tracebacks exit_code Ts now s0 # rounds) s =
    Some (case r of
        Inr success \<Rightarrow> Inr success
      | Inl SystemExit \<Rightarrow> Inr (exit_code = Exit_none \<or>
          (\<exists>n. exit_code = Exit_int n \<and> 256 dvd n \<and> - (2 ^ 63) \<le> n \<and> n < 2 ^ 63))
      | Inl e \<Rightarrow> Inr (e = KeyboardInterrupt), s')"
proof -
  obtain started s1 where s1: "read_time P s = (started, s1)" by fastforce
  have run: "execute_tasks L P R C tracebacks Ts s0 = (r, s')"
    using sync assms(1,3,4) by (simp add: sync_execute_def)
  have "exit_byte exit_code = 0 \<longleftrightarrow> exit_code = Exit_none \<or>
      (\<exists>n. exit_code = Exit_int n \<and> 256 dvd n \<and> - (2 ^ 63) \<le> n \<and> n < 2 ^ 63)"
    by (cases exit_code) auto
  then have "(child_status exit_code r = 0) = (case r of
      Inr success \<Rightarrow> success
    | Inl SystemExit \<Rightarrow> exit_code = Exit_none \<or>
        (\<exists>n. exit_code = Exit_int n \<and> 256 dvd n \<and> - (2 ^ 63) \<le> n \<and> n < 2 ^ 63)
    | Inl e \<Rightarrow> e = KeyboardInterrupt)"
    by (cases "(exit_code, r)" rule: child_status.cases) simp_all
  moreover have "fork_execute L P R C q Ts locks queue_lock
      (idle @ child_round L P R C tracebacks exit_code Ts now s0 # rounds) s =
      wait_for_child L P R C q Ts (remdups ids) locks queue_lock started deadline
        (idle @ child_round L P R C tracebacks exit_code Ts now s0 # rounds) s1"
    using assms(1-3) s1 by (simp add: fork_execute_def Let_def deadline)
  moreover have "\<dots> = Some (Inr (child_status exit_code r = 0), s')"
    using s0 s1 run by (simp add: heartbeats_wait [OF idle] child_round_def)
  ultimately show ?thesis by (cases "(exit_code, r)" rule: child_status.cases) auto
qed

text \<open>Tasks that call \<^verbatim>\<open>sys.exit(256)\<close> and \<^verbatim>\<open>sys.exit(3)\<close> in a forked child.\<close>

theorem fork_like_sync_witness:
  "fork_execute num_lib (ex_raising SystemExit) tmem ex_config ''q'' [ex_bounded_task] [] None
    [child_round num_lib (ex_raising SystemExit) tmem ex_config True (Exit_int 256) [ex_bounded_task] 9 ex_running]
      ex_running = Some (Inr True, ex_running) \<and>
   fork_execute num_lib (ex_raising SystemExit) tmem ex_config ''q'' [ex_bounded_task] [] None
    [child_round num_lib (ex_raising SystemExit) tmem ex_config True (Exit_int 3) [ex_bounded_task] 9 ex_running]
      ex_running = Some (Inr False, ex_running)"
proof -
  let ?P = "ex_raising SystemExit"
  have f: "func_of ?P (hd [ex_bounded_task]) = Inr ex_func"
    using str_rsplit_append [of "CHR '':''" "''f''" "''m''"]
    by (simp add: func_of_def import_attribute_def ex_raising_def ex_program_def)
  have clock: "snd (read_time ?P s) = s" for s by (simp add: ex_raising_def ex_program_def)
  obtain r s' where run: "execute_tasks num_lib ?P tmem ex_config True [ex_bounded_task] ex_running = (r, s')"
    by fastforce
  have "same_func [ex_bounded_task] = Inr ()" by (simp add: same_func_def)
  from execute_tasks_lemma [OF ex_raising_world this _ _ _ ex_raising_run run, of "[''x'']"]
  have "r = Inl SystemExit" "s' = ex_running" by simp_all
  with run have sync: "sync_execute num_lib ?P tmem ex_config True [ex_bounded_task] ex_running = (Inl SystemExit, ex_running)"
    by (simp add: sync_execute_def)
  from fork_like_sync [OF _ f _ _ refl _ _ sync, of "[''x'']" "''m:f''" "[]" ex_running "''q''" "[]" None _ 9 "[]"]
  have "fork_execute num_lib ?P tmem ex_config ''q'' [ex_bounded_task] [] None
      [child_round num_lib ?P tmem ex_config True (Exit_int n) [ex_bounded_task] 9 ex_running] ex_running =
    Some (Inr (256 dvd n \<and> - (2 ^ 63) \<le> n \<and> n < 2 ^ 63), ex_running)" for n
    by (simp add: clock)
  then show ?thesis by simp
qed

end
