(* ===== verification/Process.thy ===== *)
theory Process
  imports Forked_Child Stats
begin

text \<open>
  What the worker's process does around the tasks: the handlers of signals that ask it to stop
  (\<^verbatim>\<open>worker.py\<close>), the context managers around the execution and the heartbeat thread of the synchronous
  executor (\<^verbatim>\<open>executor.py\<close>), and the loop of the statistics thread (\<^verbatim>\<open>stats.py\<close>).
\<close>

subsection \<open>Signals that stop the worker\<close>

datatype stop_signal = SIGINT | SIGTERM

text \<open>
  What a signal does: what the system does by default, which ends the process, what Python does with
  \<^verbatim>\<open>SIGINT\<close> at first, which is to raise an exception, or the worker's request.
\<close>

datatype disposition = SIG_DFL | Default_int_handler | Request_stop

datatype delivery = Goes_on worker | Raises exn | Killed

definition python_handlers :: "stop_signal \<Rightarrow> disposition" where
  "python_handlers = (\<lambda>_. SIG_DFL)(SIGINT := Default_int_handler)"

definition install_signal_handlers :: "(stop_signal \<Rightarrow> disposition) \<Rightarrow> stop_signal \<Rightarrow> disposition" where
  "install_signal_handlers h = h(SIGINT := Request_stop, SIGTERM := Request_stop)"

definition uninstall_signal_handlers :: "(stop_signal \<Rightarrow> disposition) \<Rightarrow> stop_signal \<Rightarrow> disposition" where
  "uninstall_signal_handlers h = h(SIGINT := SIG_DFL, SIGTERM := SIG_DFL)"

definition request_stop :: "worker \<Rightarrow> worker" where
  "request_stop W = W\<lparr>stop_requested := True\<rparr>"

definition deliver :: "(stop_signal \<Rightarrow> disposition) \<Rightarrow> stop_signal \<Rightarrow> worker \<Rightarrow> delivery" where
  "deliver h sig W =
     (case h sig of
        SIG_DFL \<Rightarrow> Killed
      | Default_int_handler \<Rightarrow> Raises (UserException ''builtins:KeyboardInterrupt'' False)
      | Request_stop \<Rightarrow> Goes_on (request_stop W))"

text \<open>The handlers after \<open>n\<close> rounds of the main loop, each of which installs and uninstalls them.\<close>

fun handlers_after :: "nat \<Rightarrow> stop_signal \<Rightarrow> disposition" where
  "handlers_after 0 = python_handlers"
| "handlers_after (Suc n) = uninstall_signal_handlers (install_signal_handlers (handlers_after n))"

text \<open>While the worker processes its queues, a signal only asks it to stop. Between two rounds, while it
  waits, the signal ends the process at once, except for \<^verbatim>\<open>SIGINT\<close> before the first round: what is
  uninstalled is not what was there before.\<close>

theorem signals_stop:
  "deliver (install_signal_handlers (handlers_after n)) sig W = Goes_on (W\<lparr>stop_requested := True\<rparr>)"
  "deliver (handlers_after n) sig W =
    (if n = 0 \<and> sig = SIGINT then Raises (UserException ''builtins:KeyboardInterrupt'' False) else Killed)"
proof -
  have "handlers_after n sig = (if n = 0 \<and> sig = SIGINT then Default_int_handler else SIG_DFL)"
    by (cases n; cases sig) (simp_all add: python_handlers_def uninstall_signal_handlers_def)
  then show "deliver (handlers_after n) sig W =
    (if n = 0 \<and> sig = SIGINT then Raises (UserException ''builtins:KeyboardInterrupt'' False) else Killed)"
    by (simp add: deliver_def)
  show "deliver (install_signal_handlers (handlers_after n)) sig W = Goes_on (W\<lparr>stop_requested := True\<rparr>)"
    by (cases sig) (simp_all add: deliver_def install_signal_handlers_def request_stop_def)
qed

subsection \<open>Context managers around an execution\<close>

text \<open>The exit of a manager is told the exception, if there is one, and may suppress it.\<close>

record 'r context_manager =
  cm_enter :: "'r \<Rightarrow> unit result \<times> 'r"
  cm_exit :: "exn option \<Rightarrow> 'r \<Rightarrow> bool result \<times> 'r"

fun enter_contexts :: "'r context_manager list \<Rightarrow> 'r \<Rightarrow> unit result \<times> 'r" where
  "enter_contexts [] s = (Inr (), s)"
| "enter_contexts (m # ms) s = bind_state (cm_enter m s) (\<lambda>_ s'. enter_contexts ms s')"

text \<open>\<^verbatim>\<open>ExitStack.__exit__\<close>, on the managers with the last one first.\<close>

fun unwind_contexts :: "'r context_manager list \<Rightarrow> exn option \<Rightarrow> 'r \<Rightarrow> exn option \<times> 'r" where
  "unwind_contexts [] e s = (e, s)"
| "unwind_contexts (m # ms) e s =
     (case cm_exit m e s of
        (Inl e', s') \<Rightarrow> unwind_contexts ms (Some e') s'
      | (Inr suppress, s') \<Rightarrow> unwind_contexts ms (if suppress then None else e) s')"

text \<open>
  The block under \<^verbatim>\<open>WorkerContextManagerStack\<close>. The managers are entered by its constructor, before the
  block begins.
\<close>

definition with_contexts ::
    "'r context_manager list \<Rightarrow> ('r \<Rightarrow> unit result \<times> 'r) \<Rightarrow> 'r \<Rightarrow> unit result \<times> 'r" where
  "with_contexts ms body s =
     (case enter_contexts ms s of
        (Inl e, s1) \<Rightarrow> (Inl e, s1)
      | (Inr _, s1) \<Rightarrow>
          (let (r, s2) = body s1;
               (e, s3) = unwind_contexts (rev ms) (case r of Inl e \<Rightarrow> Some e | Inr _ \<Rightarrow> None) s2
           in (case e of None \<Rightarrow> Inr () | Some e \<Rightarrow> Inl e, s3)))"

lemma with_contexts_none: "with_contexts [] body s = body s"
  by (auto simp: with_contexts_def split: sum.splits prod.splits)

text \<open>
  A manager that records its calls in a log, is entered unless told not to, and suppresses nothing.
\<close>

definition logging_manager :: "(string \<Rightarrow> 'r \<Rightarrow> 'r) \<Rightarrow> string \<Rightarrow> exn option \<Rightarrow> 'r context_manager" where
  "logging_manager jot name fails =
     \<lparr>cm_enter = (\<lambda>s. case fails of None \<Rightarrow> (Inr (), jot (''enter '' @ name) s) | Some e \<Rightarrow> (Inl e, s)),
      cm_exit = (\<lambda>_ s. (Inr False, jot (''exit '' @ name) s))\<rparr>"

text \<open>What the log shows: the managers are left in the reverse order, whatever the block does; but if one
  cannot be entered, those before it are not left.\<close>

theorem contexts_left:
  fixes jot :: "string \<Rightarrow> 'r \<Rightarrow> 'r"
  defines "enters \<equiv> fold (\<lambda>x. jot (''enter '' @ x))" and "exits \<equiv> fold (\<lambda>x. jot (''exit '' @ x))"
  shows "with_contexts (map (\<lambda>x. logging_manager jot x None) names) body s =
      (case body (enters names s) of (r, s') \<Rightarrow> (r, exits (rev names) s'))"
    and "with_contexts (map (\<lambda>x. logging_manager jot x None) names @ logging_manager jot x (Some e) # ms) body s =
      (Inl e, enters names s)"
proof -
  have enter: "enter_contexts (map (\<lambda>x. logging_manager jot x None) names @ ms) s = enter_contexts ms (enters names s)" for ms
    unfolding enters_def by (induction names arbitrary: s) (simp_all add: logging_manager_def)
  have unwind: "unwind_contexts (map (\<lambda>x. logging_manager jot x None) names) e s = (e, exits names s)" for e names s
    unfolding exits_def by (induction names arbitrary: s) (simp_all add: logging_manager_def)
  show "with_contexts (map (\<lambda>x. logging_manager jot x None) names) body s =
      (case body (enters names s) of (r, s') \<Rightarrow> (r, exits (rev names) s'))"
    using enter [of "[]"] unwind [of "rev names"]
    by (auto simp: with_contexts_def rev_map split: prod.split sum.split)
  show "with_contexts (map (\<lambda>x. logging_manager jot x None) names @ logging_manager jot x (Some e) # ms) body s =
      (Inl e, enters names s)"
    by (simp add: with_contexts_def enter) (simp add: logging_manager_def)
qed

subsection \<open>The heartbeat thread\<close>

text \<open>
  \<^verbatim>\<open>SyncExecutor._periodic_heartbeat\<close>: each time the timer elapses a heartbeat is sent, until the main
  thread has set the event. A round is what happened to the server in the meantime, or \<open>None\<close> when the
  event is set; the thread has not ended when the rounds end first.
\<close>

fun periodic_heartbeat ::
    "'r program \<Rightarrow> 'r redis \<Rightarrow> config \<Rightarrow> queue_name \<Rightarrow> task_id list \<Rightarrow> held_lock list \<Rightarrow> semaphore option
      \<Rightarrow> ('r \<Rightarrow> 'r) option list \<Rightarrow> 'r \<Rightarrow> 'r option" where
  "periodic_heartbeat P R C queue ids locks queue_lock [] s = None"
| "periodic_heartbeat P R C queue ids locks queue_lock (None # rounds) s = Some s"
| "periodic_heartbeat P R C queue ids locks queue_lock (Some meantime # rounds) s =
     periodic_heartbeat P R C queue ids locks queue_lock rounds (heartbeat P R C queue ids locks queue_lock (meantime s))"

text \<open>The thread does to the server what the parent of a forked child does that waits as long.\<close>

theorem heartbeats_agree:
  assumes "\<forall>rd \<in> set idle. poll_before rd = None \<and> poll_after rd = None \<and> round_time rd \<le> deadline"
    and "poll_before final = Some code"
  shows "wait_for_child L P R C q Ts ids locks queue_lock started deadline (idle @ final # rounds) s =
    map_option (\<lambda>s'. (Inr (code = 0), s'))
      (periodic_heartbeat P R C q ids locks queue_lock (map (Some \<circ> meanwhile) idle @ None # rounds') s)"
proof -
  have "periodic_heartbeat P R C q ids locks queue_lock (map (Some \<circ> meanwhile) idle @ None # rounds') s =
      Some (fold (\<lambda>rd s. heartbeat P R C q ids locks queue_lock (meanwhile rd s)) idle s)"
    by (induction idle arbitrary: s) simp_all
  then show ?thesis using assms(2) by (simp add: heartbeats_wait [OF assms(1)])
qed

subsection \<open>The loop of the statistics thread\<close>

text \<open>
  \<^verbatim>\<open>StatsThread.run\<close>: a report each time the interval has passed, until the thread is stopped. A round is
  what the worker reported in the meantime and the time, or \<open>None\<close> when the event is set.
\<close>

fun stats_run ::
    "((stats_thread \<Rightarrow> stats_thread) \<times> time) option list \<Rightarrow> stats_thread
      \<Rightarrow> ((time \<times> time \<times> rat) option list \<times> stats_thread) result option" where
  "stats_run [] S = None"
| "stats_run (None # rounds) S = Some (Inr ([], S))"
| "stats_run (Some (meantime, now) # rounds) S =
     (case compute_stats now (meantime S) of
        Inl e \<Rightarrow> Some (Inl e)
      | Inr (report, S') \<Rightarrow> map_option (map_sum id (apfst ((#) report))) (stats_run rounds S'))"

text \<open>The thread reports as often as the interval passes before it is stopped, and its own assertion holds
  as long as the worker's reports keep it consistent.\<close>

theorem stats_run_reports:
  assumes "\<forall>rd \<in> set ticks. \<forall>S. (task_running S \<longleftrightarrow> task_start_time S \<noteq> None) \<longrightarrow>
      (task_running (fst rd S) \<longleftrightarrow> task_start_time (fst rd S) \<noteq> None)"
    and "task_running S \<longleftrightarrow> task_start_time S \<noteq> None"
  shows "\<exists>reports S'. stats_run (map Some ticks @ None # rounds) S = Some (Inr (reports, S')) \<and>
    length reports = length ticks"
  using assms
proof (induction ticks arbitrary: S)
  case (Cons tick ticks)
  obtain f now where tick: "tick = (f, now)" by (cases tick)
  with Cons.prems have ok: "task_running (f S) \<longleftrightarrow> task_start_time (f S) \<noteq> None" by fastforce
  obtain report S1 where one: "compute_stats now (f S) = Inr (report, S1)"
    "task_running S1 \<longleftrightarrow> task_start_time S1 \<noteq> None"
    using ok by (auto simp: compute_stats_def Let_def split: option.splits)
  obtain reports S' where "stats_run (map Some ticks @ None # rounds) S1 = Some (Inr (reports, S'))"
    "length reports = length ticks"
    using Cons.IH [of S1] Cons.prems(1) one(2) by auto
  with one(1) show ?case by (auto simp: tick)
qed simp

end
