(* ===== verification/Task_Lifecycle.thy ===== *)
theory Task_Lifecycle
  imports Worker_Queues Worker_Locks
begin

text \<open>
  The components together: a task that is queued by a client is taken, executed and removed by a
  worker, after which the server is as before.
\<close>

subsection \<open>One task through the worker\<close>

context tiger_world
begin

lemma finish_success:
  assumes "the_queue T = Inr q" "task_id T = Inr i" "serialized_func T = Inr name" "colon_free i"
    and "task_at (store_of s) ACTIVE q i"
  shows "\<exists>s' ts. finish_task_processing L P R C exit_on_timeout T True s = (Inr (), s') \<and>
    store_of s' = move_in_store p i q ACTIVE None (is_unique T) ts '''' (PUBLISH_QUEUED_TASKS C) (store_of s)"
proof -
  obtain now s1 where s1: "read_time P s = (now, s1)" by fastforce
  then have store: "store_of s1 = store_of s" using view_read_time [of s] by simp
  from move_cases [OF prefix assms(1,2,4), where from_state = "Some ACTIVE" and st = ACTIVE and now = now
      and to_state = None and w = None and s = s1 and mode = None] assms(5)
  show ?thesis
    unfolding store by (auto simp: finish_task_processing_def assms(2,3) s1 simp del: tiger_view_simps)
qed

lemma prepare_aperiodic:
  "serialized_func T = Inr name \<Longrightarrow> name \<notin> fst ` set funcs \<Longrightarrow>
    prepare_execution L P R C funcs utcnow [T] s = (Inr (), s)"
  by (simp add: prepare_execution_def same_func_def)

lemma process_one:
  assumes "q \<noteq> []" "colon_free i" "task_data (store_of s) i = Some x" "x \<noteq> []" "loads_dict L x = Inr d"
    and T: "T = stored_task q d (Some ACTIVE) (Some now) []"
    and "task_id T = Inr i" "serialized_func T = Inr name" "\<not> has_lock T" "name \<notin> fst ` set funcs"
    and "executor_execute E q [T] [] queue_lock s = (Inr True, s1)" "task_at (store_of s1) ACTIVE q i"
  shows "\<exists>s' ts. process_queue_tasks L P R C E funcs utcnow q queue_lock [i] now s = (Inr 1, s') \<and>
    store_of s' = move_in_store p i q ACTIVE None (is_unique T) ts '''' (PUBLISH_QUEUED_TASKS C) (store_of s1)"
proof -
  have queue: "the_queue T = Inr q" using assms(1) by (simp add: T the_queue_def stored_task_def)
  have data: "r_get R (task_key p i) s = Some x"
    using assms(2,3) by (simp add: get_str kind_task)
  have parsed: "parse_tasks L R C q now [(i, Some x)] s = (Inr [T], s)"
    using assms(4,5,7) by (simp add: T)
  obtain s' ts where "finish_task_processing L P R C (exit_worker_on_job_timeout E) T True s1 = (Inr (), s')"
    "store_of s' = move_in_store p i q ACTIVE None (is_unique T) ts '''' (PUBLISH_QUEUED_TASKS C) (store_of s1)"
    using finish_success [OF queue assms(7,8,2,12)] by blast
  moreover have "execute_task_group L P R C E funcs utcnow q [T] queue_lock s = (Inr (True, [T]), s1)"
    by (simp add: execute_task_group_def assms(9,11) prepare_aperiodic [OF assms(8,10)] release_locks_def)
  ultimately show ?thesis
    by (auto simp: process_queue_tasks_def data parsed assms(8) simp del: tiger_view_simps parse_tasks.simps)
qed

lemma process_next:
  assumes "q \<noteq> []" "colon_free i" "task_data (store_of s) i = Some x" "x \<noteq> []" "loads_dict L x = Inr d"
    and T: "\<And>now. T now = stored_task q d (Some ACTIVE) (Some now) []"
    and "\<And>now. task_id (T now) = Inr i" "\<And>now. serialized_func (T now) = Inr name"
    and "\<And>now. \<not> has_lock (T now)" "name \<notin> fst ` set funcs"
    and "\<And>now s. \<exists>s'. executor_execute E q [T now] [] None s = (Inr True, s') \<and> store_of s' = store_of s"
    and "queue_max_workers W q = None" "\<not> task_at (store_of s) ACTIVE q i"
    and "map snd (limit_take (get_queue_batch_size C q) (zlist (place (store_of s) QUEUED q))) = [i]"
  shows "\<exists>s' now later ts. process_from_queue L P R C E funcs utcnow W q s = (Inr ([i], 1), s') \<and>
    store_of s' = move_in_store p i q ACTIVE None (is_unique (T now)) ts '''' (PUBLISH_QUEUED_TASKS C)
      (take_in_store q [i] now later (store_of s))"
proof -
  obtain now s1 where s1: "read_time P s = (now, s1)" by fastforce
  obtain now' s2 where s2: "read_time P s1 = (now', s2)" by fastforce
  have store: "store_of s2 = store_of s"
    using view_read_time [of s] view_read_time [of s1] s1 s2 by simp
  define later where "later = now' + LOCK_RETRY C"
  have popped: "popped_tasks R p QUEUED q None (get_queue_batch_size C q) s2 = [i]"
    using assms(14) by (simp add: popped_tasks_eq store del: tiger_view_simps)
  obtain ids s3 where s3: "take_tasks R C q (get_queue_batch_size C q) now later s2 = (ids, s3)" by fastforce
  have ids: "ids = [i]"
    using fst_take_tasks [OF prefix, of q "get_queue_batch_size C q" now later s2] assms(13)
    by (simp add: s3 popped new_members_def task_at_def task_score_def store del: tiger_view_simps)
  have taken: "store_of s3 = take_in_store q [i] now later (store_of s)"
    using store_take [OF prefix, of q "get_queue_batch_size C q" now later s2]
    by (simp add: s3 popped store del: tiger_view_simps)
  obtain s4 where s4: "executor_execute E q [T now] [] None s3 = (Inr True, s4)" "store_of s4 = store_of s3"
    using assms(11) by blast
  have data: "task_data (store_of s3) i = Some x"
    by (simp add: taken take_in_store_def pop_in_store_def Let_def assms(3) store_defs del: tiger_view_simps)
  have "task_at (store_of s4) ACTIVE q i"
    by (simp add: s4(2) taken task_at_def take_in_store_score del: tiger_view_simps)
  from process_one [OF assms(1,2) data assms(4,5) T assms(7,8,9,10) s4(1) this, of utcnow]
  obtain s5 ts where "process_queue_tasks L P R C E funcs utcnow q None [i] now s3 = (Inr 1, s5)"
    "store_of s5 = move_in_store p i q ACTIVE None (is_unique (T now)) ts '''' (PUBLISH_QUEUED_TASKS C) (store_of s4)"
    by blast
  then have "process_from_queue L P R C E funcs utcnow W q s = (Inr ([i], 1), s5)"
    by (simp add: process_from_queue_def s1 s2 Let_def get_queue_lock_def assms(12) s3 [unfolded later_def] ids)
  with \<open>store_of s5 = _\<close> show ?thesis by (auto simp: s4(2) taken simp del: tiger_view_simps)
qed

end

lemma task_data_take: "task_data (take_in_store q ms now later t) = task_data t"
  by (simp add: take_in_store_def pop_in_store_def Let_def)

lemma stored_fields:
  "task_id (stored_task q d st ts xs) = entry_string ''id'' d"
  "serialized_func (stored_task q d st ts xs) = entry_string ''func'' d"
  "has_lock (stored_task q d st ts xs) \<longleftrightarrow> truthy (get_default d ''lock'' (JBool False))"
  "is_unique (stored_task q d st ts xs) \<longleftrightarrow> truthy (get_default d ''unique'' (JBool False))"
  "t_data (stored_task q d st ts xs) = d"
  by (simp_all add: stored_task_def task_id_def serialized_func_def has_lock_def is_unique_def)

lemma queued_task_done_lemma:
  assumes "tiger_world R kind p P C" "q \<noteq> []" "colon_free i" and t: "t = tiger_view p (view R s)"
    and "task_data t i = Some x" "x \<noteq> []" "loads_dict L x = Inr d" and T: "T = stored_task q d None None []"
    and "task_id T = Inr i" "serialized_func T = Inr name" "\<not> has_lock T" "name \<notin> fst ` set funcs"
    and succeeds: "\<And>now s. \<exists>s'. executor_execute E q [stored_task q d (Some ACTIVE) (Some now) []] [] None s =
      (Inr True, s') \<and> tiger_view p (view R s') = tiger_view p (view R s)"
    and "queue_max_workers W q = None" "\<not> task_at t ACTIVE q i"
    and "map snd (limit_take (get_queue_batch_size C q) (zlist (place t QUEUED q))) = [i]"
  shows "\<exists>s' t'. process_from_queue L P R C E funcs utcnow W q s = (Inr ([i], 1), s') \<and> t' = tiger_view p (view R s') \<and>
    (\<forall>st q' j. task_score t' st q' j = (if st = QUEUED \<and> q' = q \<and> j = i then None else task_score t st q' j)) \<and>
    task_data t' = (if is_unique T \<and> (task_at t SCHEDULED q i \<or> task_at t ERROR q i) then task_data t
      else (task_data t)(i := None)) \<and>
    (indexed t \<longrightarrow> indexed t')"
proof -
  note fields = assms(9-11) [unfolded T]
  obtain s' now later ts where run: "process_from_queue L P R C E funcs utcnow W q s = (Inr ([i], 1), s')"
    "tiger_view p (view R s') = move_in_store p i q ACTIVE None (is_unique T) ts '''' (PUBLISH_QUEUED_TASKS C)
      (take_in_store q [i] now later t)"
    using tiger_world.process_next [OF assms(1-3) assms(5) [unfolded t] assms(6,7) refl _ _ _ assms(12) succeeds assms(14)
        assms(15,16) [unfolded t], of utcnow] fields
    unfolding stored_fields t T by blast
  let ?u = "take_in_store q [i] now later t"
  have popped: "place t QUEUED q \<noteq> zempty" using assms(16) by (auto simp: zempty.rep_eq limit_take_def split: if_splits)
  have u: "task_at ?u ACTIVE q i" "\<not> task_at ?u QUEUED q i"
    "task_at ?u SCHEDULED q i = task_at t SCHEDULED q i" "task_at ?u ERROR q i = task_at t ERROR q i"
    using assms(15) by (simp_all add: task_at_def take_in_store_score)
  have scores: "task_score (tiger_view p (view R s')) st q' j =
      (if st = QUEUED \<and> q' = q \<and> j = i then None else task_score t st q' j)" for st q' j
    using assms(15) unfolding run(2) move_in_store_score take_in_store_score
    by (auto simp: task_at_def split: task_state.split)
  have elsewhere: "(\<exists>st. st \<noteq> ACTIVE \<and> task_at ?u st q i) \<longleftrightarrow> task_at t SCHEDULED q i \<or> task_at t ERROR q i"
    using u by (metis task_state.distinct task_state.exhaust)
  have "indexed t \<Longrightarrow> indexed (tiger_view p (view R s'))"
    unfolding run(2) by (rule indexed_move_in_store [OF indexed_take_in_store u(1)]) (use popped in simp_all)
  moreover have "task_data (tiger_view p (view R s')) = (if is_unique T \<and> (task_at t SCHEDULED q i \<or> task_at t ERROR q i)
      then task_data t else (task_data t)(i := None))"
    unfolding run(2) move_in_store_data elsewhere task_data_take by simp
  ultimately show ?thesis using run(1) scores by blast
qed

text \<open>C12: the first task of a queue that needs no lock, is not periodic and whose execution succeeds is
  done after one call of the worker: it has left the queue and is active no longer, its data is gone
  (unless it is unique and still scheduled or an error there), no other task, queue or state has
  changed, and the index is as exact as before.\<close>

theorem queued_task_done:
  assumes "tiger_world R kind p P C" "q \<noteq> []" "colon_free i" and t: "t = tiger_view p (view R s)"
    and "task_data t i = Some x" "x \<noteq> []" "loads_dict L x = Inr d" and T: "T = stored_task q d None None []"
    and "task_id T = Inr i" "serialized_func T = Inr name" "\<not> has_lock T" "name \<notin> fst ` set funcs"
    and succeeds: "\<And>now s. \<exists>s'. executor_execute E q [stored_task q d (Some ACTIVE) (Some now) []] [] None s =
      (Inr True, s') \<and> tiger_view p (view R s') = tiger_view p (view R s)"
    and "queue_max_workers W q = None" "\<not> task_at t ACTIVE q i"
    and "map snd (limit_take (get_queue_batch_size C q) (zlist (place t QUEUED q))) = [i]"
  shows "\<exists>s' t'. process_from_queue L P R C E funcs utcnow W q s = (Inr ([i], 1), s') \<and> t' = tiger_view p (view R s') \<and>
    (\<forall>st q' j. task_score t' st q' j = (if st = QUEUED \<and> q' = q \<and> j = i then None else task_score t st q' j)) \<and>
    task_data t' = (if is_unique T \<and> (task_at t SCHEDULED q i \<or> task_at t ERROR q i) then task_data t
      else (task_data t)(i := None)) \<and>
    (indexed t \<longrightarrow> indexed t')"
  by (rule queued_task_done_lemma [OF assms])

text \<open>C10: a task that is queued for now in a queue in which nothing else waits is executed and done by the
  next call of the worker for that queue, after which all queues and states hold exactly the tasks
  that they held before it was queued.\<close>

theorem delayed_task_done:
  assumes "tiger_world R kind p P C" "\<not> ALWAYS_EAGER C" "pylib_ok L"
    and "the_queue T = Inr q" "task_id T = Inr i" "colon_free i" "serialized_func T = Inr name"
    and "\<not> has_lock T" "name \<notin> fst ` set funcs"
    and "delay L P R C utcnow now WhenNone max_arg T s = (Inr (), T', s1)"
    and t: "t = tiger_view p (view R s)" and "place t QUEUED q = zempty" "\<not> task_at t ACTIVE q i"
    and succeeds: "\<And>now s. \<exists>s'. executor_execute E q [stored_task q (t_data T') (Some ACTIVE) (Some now) []] [] None s =
      (Inr True, s') \<and> tiger_view p (view R s') = tiger_view p (view R s)"
    and "queue_max_workers W q = None" "0 < get_queue_batch_size C q"
  shows "\<exists>s2 t2. process_from_queue L P R C E funcs utcnow' W q s1 = (Inr ([i], 1), s2) \<and> t2 = tiger_view p (view R s2) \<and>
    place t2 = place t \<and>
    task_data t2 i = (if is_unique T \<and> (task_at t SCHEDULED q i \<or> task_at t ERROR q i)
      then Some (json_dumps L (JObj (t_data T'))) else None)"
proof -
  let ?x = "json_dumps L (JObj (t_data T'))" and ?u = "tiger_view p (view R s1)"
    and ?T = "stored_task q (t_data T') None None []"
  have q: "q \<noteq> []" using assms(4) by (auto simp: the_queue_def split: option.splits if_splits)
  have "queue_time (get_timestamp utcnow WhenNone) now = (now, QUEUED)"
    by (simp add: queue_time_def)
  from assms(10) [unfolded delay_eq [OF assms(2,4,5) this]]
  have T': "T' = (stamped now now T)\<lparr>t_state := Some QUEUED, t_ts := Some now\<rparr>" by (simp split: if_splits)
  have fields: "task_id ?T = Inr i" "serialized_func ?T = Inr name" "\<not> has_lock ?T" "is_unique ?T = is_unique T"
    using assms(5,7,8) unfolding stored_fields T'
    by (simp_all add: stamped_def task_id_def serialized_func_def entry_string_def has_lock_def is_unique_def)
  have stored: "?u = enqueue_in_store p QUEUED q i ?x now (PUBLISH_QUEUED_TASKS C) t"
    unfolding t by (rule delay_stored [OF tiger_world.axioms(1) [OF assms(1)] tiger_world.prefix [OF assms(1)]
          assms(2,4,5,6,10)]) (simp_all add: T')
  have places: "task_score ?u st q' j = (if st = QUEUED \<and> q' = q \<and> j = i then Some now else task_score t st q' j)" for st q' j
    unfolding stored enqueue_in_store_score using assms(12) by (auto simp: task_score_def)
  have "zlist (place ?u QUEUED q) = [(now, i)]"
    using assms(12) unfolding stored by (simp add: enqueue_in_store_def Let_def zins_new_def zins.rep_eq zempty.rep_eq)
  then have first: "map snd (limit_take (get_queue_batch_size C q) (zlist (place ?u QUEUED q))) = [i]"
    using assms(16) by (simp only: limit_take_def) simp
  have inactive: "\<not> task_at ?u ACTIVE q i"
    using assms(13) unfolding task_at_def places by simp
  have data: "task_data ?u i = Some ?x" by (simp only: stored enqueue_in_store_data fun_upd_same)
  obtain s2 t2 where finished: "process_from_queue L P R C E funcs utcnow' W q s1 = (Inr ([i], 1), s2)" "t2 = tiger_view p (view R s2)"
    "\<forall>st q' j. task_score t2 st q' j = (if st = QUEUED \<and> q' = q \<and> j = i then None else task_score ?u st q' j)"
    "task_data t2 = (if is_unique ?T \<and> (task_at ?u SCHEDULED q i \<or> task_at ?u ERROR q i) then task_data ?u
      else (task_data ?u)(i := None))"
    using queued_task_done_lemma [OF assms(1) q assms(6) refl data json_dumps_nonempty [OF assms(3)]
        loads_dict_dumps [OF assms(3)] refl fields(1-3) assms(9) succeeds assms(15) inactive first, of utcnow']
    by blast
  have "task_score t2 st q' j = task_score t st q' j" for st q' j
    using assms(12) finished(3) unfolding places by (auto simp: task_score_def)
  then have "place t2 = place t"
    by (intro ext zset_eqI) (simp add: task_score_def)
  moreover have "task_at ?u SCHEDULED q i = task_at t SCHEDULED q i" "task_at ?u ERROR q i = task_at t ERROR q i"
    by (simp_all only: task_at_def places) simp_all
  ultimately show ?thesis using finished(1,2,4) data fields(4) by auto
qed

lemma ex_sync_succeeds:
  assumes "entry_string ''id'' d = Inr i" "entry_string ''func'' d = Inr ''m:f''" "dict_get d ''runner_class'' = None"
  shows "sync_execute num_lib ex_program tmem C tracebacks [stored_task q d st ts xs] s = (Inr True, s)"
proof -
  let ?T = "stored_task q d st ts xs"
  have fields: "task_id ?T = Inr i" "serialized_func ?T = Inr ''m:f''" "serialized_runner_class ?T = None" "t_func ?T = None"
    using assms by (simp_all only: stored_fields) (simp_all add: serialized_runner_class_def stored_task_def get_default_def)
  have "func_of ex_program ?T = Inr ex_func"
    using str_rsplit_append [of "CHR '':''" "''f''" "''m''"] fields(2,4)
    by (simp add: func_of_def import_attribute_def ex_program_def)
  moreover have "\<not> is_batch ex_func" by (simp add: is_batch_def ex_func_def plain_func_def the_bool_def)
  ultimately have "run_tasks ex_program C [?T] s = (Inr (), s)"
    by (simp add: run_tasks_def get_runner_class_def fields(3) get_hard_timeouts_def default_runner_def
        default_single_def ignore_value_def) (simp add: ex_program_def)
  then show ?thesis
    by (simp add: sync_execute_def execute_tasks_def same_func_def fields(1,2)) (simp add: ex_program_def)
qed

definition ex_queued_data :: dict where
  "ex_queued_data = t_data (stamped 7 7 ex_task)"

definition ex_queued :: memdb where
  "ex_queued = enqueue tmem ex_config QUEUED ''q'' ''x'' (json_dumps num_lib (JObj ex_queued_data)) 7 mem_empty"

lemma ex_queued_data_simps [simp]:
  "entry_string ''id'' ex_queued_data = Inr ''x''" "entry_string ''func'' ex_queued_data = Inr ''m:f''"
  "dict_get ex_queued_data ''runner_class'' = None" "dict_get ex_queued_data ''lock'' = None"
  "dict_get ex_queued_data ''unique'' = Some (JBool True)"
  by (simp_all add: ex_queued_data_def stamped_def ex_task_def stored_task_def set_entry_def dict_set.simps dict_get_def
      entry_string_def)

lemma ex_executes: "\<exists>s'. executor_execute (sync_executor num_lib ex_program tmem ex_config True) q
    [stored_task q ex_queued_data st ts xs] locks lock s = (Inr True, s') \<and> ex_store s' = ex_store s"
  by (simp add: sync_executor_def ex_sync_succeeds [of ex_queued_data "''x''"])

lemma ex_queued_delay:
  "\<exists>T'. delay num_lib ex_program tmem ex_config 0 7 WhenNone (Some 0) ex_task mem_empty = (Inr (), T', ex_queued) \<and>
    t_data T' = ex_queued_data"
  by (simp add: delay_eq [where q = "''q''" and i = "''x''" and ts = 7 and state = QUEUED] queue_time_def
      is_full_def size_limit_def ex_queued_def ex_queued_data_def)

lemma ex_worker_free:
  "queue_max_workers ex_worker ''q'' = None" "get_queue_batch_size ex_config ''q'' = 1"
  by (simp_all add: queue_max_workers_def ex_worker_def get_queue_batch_size_def ex_config_def default_config_def
      dotted_parts_eq dot_positions_def)

lemma ex_task_unlocked: "\<not> has_lock ex_task" "serialized_func ex_task = Inr ''m:f''" "is_unique ex_task"
  by (simp_all add: ex_task_def stored_fields get_default_def dict_get_def entry_string_def)

lemma ex_queued_store:
  "place (ex_store ex_queued) st q = (if st = QUEUED \<and> q = ''q'' then zins 7 ''x'' zempty else zempty)"
  "task_data (ex_store ex_queued) ''x'' = Some (json_dumps num_lib (JObj ex_queued_data))"
  unfolding ex_queued_def tiger_mem.store_enqueue [OF ex_config_simps(1) colon_free_x]
  by (simp_all add: enqueue_in_store_def Let_def zins_new_def del: tiger_view_simps)

lemma ex_queued_at [simp]:
  "task_score (ex_store ex_queued) st q i = (if st = QUEUED \<and> q = ''q'' \<and> i = ''x'' then Some 7 else None)"
  "task_at (ex_store ex_queued) st q i \<longleftrightarrow> st = QUEUED \<and> q = ''q'' \<and> i = ''x''"
  by (auto simp: task_at_def task_score_def ex_queued_store simp del: tiger_view_simps)

lemma mem_empty_indexed: "indexed (ex_store mem_empty)"
  using indexed_empty [of "''t''"] by (simp add: mem_redis_def)

lemma ex_queued_indexed: "indexed (ex_store ex_queued)"
  unfolding ex_queued_def tiger_mem.store_enqueue [OF ex_config_simps(1) colon_free_x]
  by (simp add: indexed_enqueue_in_store mem_empty_indexed del: tiger_view_simps)

theorem queued_task_done_witness:
  "\<exists>s'. process_from_queue num_lib ex_program tmem ex_config (sync_executor num_lib ex_program tmem ex_config True)
      [] 0 ex_worker ''q'' ex_queued = (Inr ([''x''], 1), s') \<and> task_data (ex_store s') ''x'' = None"
proof -
  have "map snd (limit_take (get_queue_batch_size ex_config ''q'') (zlist (place (ex_store ex_queued) QUEUED ''q''))) = [''x'']"
    by (simp add: ex_worker_free ex_queued_store zlist_eval del: tiger_view_simps)
  moreover have "\<not> task_at (ex_store ex_queued) ACTIVE ''q'' ''x''" by simp
  moreover have "\<exists>s'. executor_execute (sync_executor num_lib ex_program tmem ex_config True) ''q''
    [stored_task ''q'' ex_queued_data (Some ACTIVE) (Some now) []] [] None s = (Inr True, s') \<and> ex_store s' = ex_store s" for now s
    by (rule ex_executes)
  moreover have "task_id (stored_task ''q'' ex_queued_data None None []) = Inr ''x''"
    "serialized_func (stored_task ''q'' ex_queued_data None None []) = Inr ''m:f''"
    "\<not> has_lock (stored_task ''q'' ex_queued_data None None [])"
    by (simp_all add: stored_fields get_default_def)
  ultimately show ?thesis
    using queued_task_done [OF ex_world _ colon_free_x refl ex_queued_store(2) json_dumps_nonempty [OF num_lib_ok]
        loads_dict_dumps [OF num_lib_ok] refl, where q = "''q''" and W = ex_worker and funcs = "[]"
        and E = "sync_executor num_lib ex_program tmem ex_config True" and utcnow = 0 and name = "''m:f''"]
    by (simp add: ex_worker_free(1) del: tiger_view_simps) (metis fun_upd_same)
qed

theorem delayed_task_done_witness:
  "\<exists>s2. process_from_queue num_lib ex_program tmem ex_config (sync_executor num_lib ex_program tmem ex_config True)
      [] 0 ex_worker ''q'' ex_queued = (Inr ([''x''], 1), s2) \<and> place (ex_store s2) = place (ex_store mem_empty)"
proof -
  obtain T' where d: "delay num_lib ex_program tmem ex_config 0 7 WhenNone (Some 0) ex_task mem_empty = (Inr (), T', ex_queued)"
    "t_data T' = ex_queued_data"
    using ex_queued_delay by blast
  have "\<not> task_at (ex_store mem_empty) ACTIVE ''q'' ''x''"
    by (simp add: task_at_def task_score_def del: tiger_view_simps)
  from delayed_task_done [OF ex_world ex_config_simps(2) num_lib_ok ex_task_simps colon_free_x ex_task_unlocked(2,1) _
      d(1) refl mem_empty_place this, of "[]" "sync_executor num_lib ex_program tmem ex_config True" ex_worker 0]
  show ?thesis using ex_executes unfolding d(2) by (simp add: ex_worker_free del: tiger_view_simps) blast
qed

end
