(* ===== verification/Interleaving.thy ===== *)
theory Interleaving
  imports Task_Lifecycle Task_Tiger
begin

text \<open>
  Clients and workers at the same time. Redis runs scripts and transactions one after the other, so
  whatever any number of processes do is one sequence of the atomic operations below, in an order
  that nobody chooses. \<open>apply_op\<close> runs an operation on the server, \<open>op_in_store\<close> on the abstract
  store; the former refines the latter, and the invariants are those of all sequences.
\<close>

subsection \<open>The atomic operations\<close>

datatype server_op =
  Enqueue task_state queue_name task_id string time
| MoveTask task_id queue_name task_state "task_state option" bool time "string option"
| TakeTasks queue_name int time time
| QueueDue queue_name time
| Heartbeat queue_name "task_id list" time
| Reschedule queue_name task_id time
| StoreExecution task_id string "int option"
| Announce queue_name
| TryLock "string list" time
| FreeLock "string list" string
| RenewLock "string list" string
| RequestSlot worker queue_name int time
| FreeSlot worker queue_name int
| SystemLock queue_name int time

fun apply_op :: "'r redis \<Rightarrow> cjson \<Rightarrow> config \<Rightarrow> server_op \<Rightarrow> 'r \<Rightarrow> 'r" where
  "apply_op R J C (Enqueue st q i x ts) s = enqueue R C st q i x ts s"
| "apply_op R J C (MoveTask i q from_state to_state unique ts mode) s =
     (case move_task R (REDIS_PREFIX C) i q from_state to_state unique ts mode (PUBLISH_QUEUED_TASKS C) s of
        Inl e \<Rightarrow> s | Inr s' \<Rightarrow> s')"
| "apply_op R J C (TakeTasks q n now later) s = snd (take_tasks R C q n now later s)"
| "apply_op R J C (QueueDue q now) s =
     (let p = REDIS_PREFIX C in
      snd (zpoppush_exists_ignore_update_sets R (queue_key p SCHEDULED q) (queue_key p QUEUED q)
        (state_key p SCHEDULED) (state_key p QUEUED) (Some now) (SCHEDULED_TASK_BATCH_SIZE C) now q s))"
| "apply_op R J C (Heartbeat q ids now) s = worker_heartbeat R C q ids now s"
| "apply_op R J C (Reschedule q i ts) s =
     snd (update_scheduled_time R J (queue_key (REDIS_PREFIX C) SCHEDULED q) (task_key (REDIS_PREFIX C) i) ts i s)"
| "apply_op R J C (StoreExecution i x n) s = store_one_execution R (REDIS_PREFIX C) x i n s"
| "apply_op R J C (Announce q) s = r_publish R (activity_channel (REDIS_PREFIX C)) q s"
| "apply_op R J C (TryLock parts t) s = snd (r_lock_acquire R (tiger_key (REDIS_PREFIX C) (''lockv2'' # parts)) t s)"
| "apply_op R J C (FreeLock parts token) s =
     snd (r_lock_release R (tiger_key (REDIS_PREFIX C) (''lockv2'' # parts)) token s)"
| "apply_op R J C (RenewLock parts token) s =
     snd (r_lock_reacquire R (tiger_key (REDIS_PREFIX C) (''lockv2'' # parts)) token s)"
| "apply_op R J C (RequestSlot W q n now) s = snd (acquire R (queue_semaphore C W q n) now s)"
| "apply_op R J C (FreeSlot W q n) s = release R (queue_semaphore C W q n) s"
| "apply_op R J C (SystemLock q timeout now) s = set_queue_system_lock R C q timeout now s"

text \<open>
  The operations that the library runs have identifiers without colons, heartbeats for at least one
  task, and system locks that do not lie in the past. They move tasks only along some arrows: an active
  task may go anywhere, one that failed is queued again or removed, a scheduled one removed. That the
  calls of clients and workers keep to this is proved from their code in the theory Task_Machine.
\<close>

fun may_move :: "task_state \<Rightarrow> task_state option \<Rightarrow> bool" where
  "may_move ACTIVE to_state \<longleftrightarrow> to_state \<noteq> Some ACTIVE"
| "may_move ERROR to_state \<longleftrightarrow> to_state = None \<or> to_state = Some QUEUED"
| "may_move SCHEDULED to_state \<longleftrightarrow> to_state = None"
| "may_move QUEUED to_state \<longleftrightarrow> False"

fun op_ok :: "server_op \<Rightarrow> bool" where
  "op_ok (Enqueue st q i x ts) \<longleftrightarrow> colon_free i \<and> (st = QUEUED \<or> st = SCHEDULED)"
| "op_ok (MoveTask i q from_state to_state unique ts mode) \<longleftrightarrow> colon_free i \<and> may_move from_state to_state"
| "op_ok (Heartbeat q ids now) \<longleftrightarrow> ids \<noteq> [] \<and> list_all colon_free ids"
| "op_ok (Reschedule q i ts) \<longleftrightarrow> colon_free i"
| "op_ok (StoreExecution i x n) \<longleftrightarrow> colon_free i"
| "op_ok (SystemLock q timeout now) \<longleftrightarrow> 0 \<le> timeout"
| "op_ok _ \<longleftrightarrow> True"

subsection \<open>The same operations on the store\<close>

definition first_queued :: "queue_name \<Rightarrow> int \<Rightarrow> store \<Rightarrow> task_id list" where
  "first_queued q n t = map snd (limit_take n (zlist (place t QUEUED q)))"

definition first_due :: "queue_name \<Rightarrow> time \<Rightarrow> int \<Rightarrow> store \<Rightarrow> task_id list" where
  "first_due q now n t = map snd (limit_take n (filter (\<lambda>e. fst e \<le> now) (zlist (place t SCHEDULED q))))"

fun op_in_store :: "cjson \<Rightarrow> config \<Rightarrow> server_op \<Rightarrow> store \<Rightarrow> store" where
  "op_in_store J C (Enqueue st q i x ts) t = enqueue_in_store (REDIS_PREFIX C) st q i x ts (PUBLISH_QUEUED_TASKS C) t"
| "op_in_store J C (MoveTask i q from_state to_state unique ts mode) t =
     (if task_at t from_state q i \<and> (to_state = None \<or> known_mode (none_to_empty_str mode))
      then move_in_store (REDIS_PREFIX C) i q from_state to_state unique ts (none_to_empty_str mode)
        (PUBLISH_QUEUED_TASKS C) t
      else t)"
| "op_in_store J C (TakeTasks q n now later) t = take_in_store q (first_queued q n t) now later t"
| "op_in_store J C (QueueDue q now) t = due_in_store q (first_due q now (SCHEDULED_TASK_BATCH_SIZE C) t) now t"
| "op_in_store J C (Heartbeat q ids now) t = put_tasks ACTIVE q (zins_all (map (Pair now) ids) (place t ACTIVE q)) t"
| "op_in_store J C (Reschedule q i ts) t =
     (if \<not> task_at t SCHEDULED q i then t
      else let t1 = put_tasks SCHEDULED q (zins ts i (place t SCHEDULED q)) t in
        case Option.bind (task_data t i) (cjson_decode J) of
          Some (JObj d) \<Rightarrow> put_data i (cjson_encode J (JObj (dict_set ''scheduled_at'' (JNum ts) d))) t1
        | _ \<Rightarrow> t1)"
| "op_in_store J C (StoreExecution i x n) t = record_in_store x n i t"
| "op_in_store J C (Announce q) t = send (activity_channel (REDIS_PREFIX C)) q t"
| "op_in_store J C _ t = t"

context tiger_world
begin

lemma store_worker_heartbeat:
  "ids \<noteq> [] \<Longrightarrow> store_of (worker_heartbeat R C q ids now s) =
    put_tasks ACTIVE q (zins_all (map (Pair now) ids) (place (store_of s) ACTIVE q)) (store_of s)"
  by (simp add: worker_heartbeat_def redis_law key_law store_view)

lemma store_reschedule:
  assumes "colon_free i"
  shows "store_of (snd (update_scheduled_time R J (queue_key p SCHEDULED q) (task_key p i) ts i s)) =
    op_in_store J C (Reschedule q i ts) (store_of s)"
  using assms
  by (auto simp: update_scheduled_time_def update_scheduled_time_script_def redis_law key_law store_view Let_def
      task_at_def task_score_def split: option.split json.split)
    (auto simp: tiger_view_def put_data_def put_tasks_def fun_eq_iff)

lemma store_move_task:
  assumes "colon_free i"
  shows "store_of (apply_op R J C (MoveTask i q from_state to_state unique ts mode) s) =
    op_in_store J C (MoveTask i q from_state to_state unique ts mode) (store_of s)"
proof (cases "move_task R p i q from_state to_state unique ts mode (PUBLISH_QUEUED_TASKS C) s")
  case (Inl e)
  then show ?thesis
    using move_task_Inl_iff [OF assms, of q from_state to_state unique ts mode "PUBLISH_QUEUED_TASKS C" s]
    by (simp del: tiger_view_simps) blast
next
  case (Inr s')
  from move_task_Inr [OF Inr assms] Inr show ?thesis by (simp del: tiger_view_simps)
qed

lemma store_system_lock: "0 \<le> timeout \<Longrightarrow> store_of (set_queue_system_lock R C q timeout now s) = store_of s"
  by (simp add: set_queue_system_lock_def kind_qslock view_set_system_lock store_view)

lemma store_apply_op:
  assumes "op_ok x"
  shows "store_of (apply_op R J C x s) = op_in_store J C x (store_of s)"
proof (cases x)
  case (MoveTask i q from_state to_state unique ts mode)
  with assms show ?thesis by (simp only: op_ok.simps store_move_task)
next
  case (Reschedule q i ts)
  with assms show ?thesis by (simp only: op_ok.simps apply_op.simps prefix store_reschedule)
qed (use assms in \<open>simp_all add: store_enqueue [OF prefix] store_take [OF prefix] store_due popped_tasks_eq first_queued_def
    first_due_def in_scores_def store_worker_heartbeat store_record store_acquire store_release store_system_lock
    del: tiger_view_simps\<close>)

lemma store_apply_ops:
  "list_all op_ok xs \<Longrightarrow> store_of (fold (apply_op R J C) xs s) = fold (op_in_store J C) xs (store_of s)"
  by (induction xs arbitrary: s) (simp_all add: store_apply_op del: tiger_view_simps)

end

subsection \<open>The index under interleaving\<close>

text \<open>
  Heartbeats do not look whether their tasks are still active. With heartbeats at any time the index
  stays exact but for the active state, which may hold entries of a queue that it does not list.
\<close>

definition nearly_indexed :: "store \<Rightarrow> bool" where
  "nearly_indexed t \<longleftrightarrow> (\<forall>st q. (q \<in> listed t st \<longrightarrow> place t st q \<noteq> zempty) \<and>
     (place t st q \<noteq> zempty \<longrightarrow> st = ACTIVE \<or> q \<in> listed t st))"

text \<open>A heartbeat that comes in time: the queue has an active task.\<close>

fun in_time :: "store \<Rightarrow> server_op \<Rightarrow> bool" where
  "in_time t (Heartbeat q ids now) \<longleftrightarrow> place t ACTIVE q \<noteq> zempty"
| "in_time t _ \<longleftrightarrow> True"

fun all_in_time :: "cjson \<Rightarrow> config \<Rightarrow> server_op list \<Rightarrow> store \<Rightarrow> bool" where
  "all_in_time J C [] t \<longleftrightarrow> True"
| "all_in_time J C (x # xs) t \<longleftrightarrow> in_time t x \<and> all_in_time J C xs (op_in_store J C x t)"

lemma indexed_nearly: "indexed t \<Longrightarrow> nearly_indexed t"
  by (simp add: indexed_def nearly_indexed_def)

lemma nearly_frame: "place t' = place t \<Longrightarrow> listed t' = listed t \<Longrightarrow> nearly_indexed t' = nearly_indexed t"
  by (simp add: nearly_indexed_def)

lemma first_nonempty:
  "first_queued q n t \<noteq> [] \<Longrightarrow> place t QUEUED q \<noteq> zempty"
  "first_due q now n t \<noteq> [] \<Longrightarrow> place t SCHEDULED q \<noteq> zempty"
  by (auto simp: first_queued_def first_due_def limit_take_def zempty.rep_eq split: if_splits)

lemma nearly_due:
  assumes "nearly_indexed t" "ms \<noteq> [] \<Longrightarrow> place t SCHEDULED q \<noteq> zempty"
  shows "nearly_indexed (due_in_store q ms now t)"
  using assms pop_target_nonempty [of ms now "place t QUEUED q"]
  by (cases "ms = []") (auto simp: nearly_indexed_def due_in_store_def pop_in_store_def)

lemma nearly_take:
  assumes "nearly_indexed t" "ms \<noteq> [] \<Longrightarrow> place t QUEUED q \<noteq> zempty"
  shows "nearly_indexed (take_in_store q ms now later t)"
  using assms pop_target_nonempty [of ms now "place t ACTIVE q"]
  by (cases "ms = []") (auto simp: nearly_indexed_def take_in_store_def pop_in_store_def Let_def)


lemma nearly_fill:
  "nearly_indexed t \<Longrightarrow> z \<noteq> zempty \<Longrightarrow> nearly_indexed (list_queue st q (put_tasks st q z t))"
  by (auto simp: nearly_indexed_def)

lemma nearly_drain:
  "nearly_indexed t \<Longrightarrow> z = zempty \<or> place t st q \<noteq> zempty \<Longrightarrow>
    nearly_indexed (unlist_empty st q (put_tasks st q z t))"
  by (auto simp: nearly_indexed_def)

lemma nearly_move:
  assumes "nearly_indexed t" "task_at t from_state q i"
  shows "nearly_indexed (move_in_store p i q from_state to_state unique ts mode publish t)"
proof -
  let ?m = "move_to i q to_state ts mode t"
  have "nearly_indexed ?m"
    using assms(1) by (cases to_state) (simp_all add: move_to_def nearly_fill)
  moreover have "place ?m from_state q \<noteq> zempty"
    using assms(2) by (cases to_state) (auto simp: move_to_def task_at_def task_score_def)
  ultimately have "nearly_indexed (unlist_empty from_state q
      (put_tasks from_state q (zdel i (place ?m from_state q)) ?m))"
    by (simp add: nearly_drain)
  then show ?thesis
    by (rule nearly_frame [THEN iffD1, rotated 2]) (simp_all add: move_in_store_def Let_def)
qed

lemma nearly_enqueue: "nearly_indexed t \<Longrightarrow> nearly_indexed (enqueue_in_store p st q i x ts publish t)"
  using nearly_fill [of t "zins_new ts i (place t st q)" st q]
  by (rule nearly_frame [THEN iffD1, rotated 2]) (auto simp: enqueue_in_store_def Let_def)

lemma reschedule_frame:
  "listed (op_in_store J C (Reschedule q i ts) t) = listed t"
  "place (op_in_store J C (Reschedule q i ts) t) st q' = zempty \<longleftrightarrow> place t st q' = zempty"
  by (auto simp: Let_def task_at_def task_score_def split: option.split json.split)

lemma nearly_empty_frame:
  "listed t' = listed t \<Longrightarrow> (\<And>st q. place t' st q = zempty \<longleftrightarrow> place t st q = zempty) \<Longrightarrow>
    nearly_indexed t' = nearly_indexed t"
  "listed t' = listed t \<Longrightarrow> (\<And>st q. place t' st q = zempty \<longleftrightarrow> place t st q = zempty) \<Longrightarrow>
    indexed t' = indexed t"
  by (simp_all add: nearly_indexed_def indexed_def)

lemmas reschedule_index = nearly_empty_frame [OF reschedule_frame]

lemma index_frames:
  "nearly_indexed (send c x t) = nearly_indexed t" "nearly_indexed (record_in_store y m i t) = nearly_indexed t"
  "indexed (record_in_store y m i t) = indexed t"
  by (simp_all add: nearly_indexed_def indexed_def)

lemma heartbeat_in_store_index:
  "nearly_indexed t \<Longrightarrow> nearly_indexed (put_tasks ACTIVE q (zins_all ps (place t ACTIVE q)) t)"
  "place t ACTIVE q \<noteq> zempty \<Longrightarrow> indexed t \<Longrightarrow> indexed (put_tasks ACTIVE q (zins_all ps (place t ACTIVE q)) t)"
  by (auto simp: nearly_indexed_def indexed_def)

lemma nearly_op: "op_ok x \<Longrightarrow> nearly_indexed t \<Longrightarrow> nearly_indexed (op_in_store J C x t)"
  by (cases x) (simp_all only: reschedule_index, simp_all add: nearly_enqueue nearly_move nearly_take nearly_due
      first_nonempty index_frames heartbeat_in_store_index)

lemma indexed_op: "op_ok x \<Longrightarrow> in_time t x \<Longrightarrow> indexed t \<Longrightarrow> indexed (op_in_store J C x t)"
  by (cases x) (simp_all only: reschedule_index, simp_all add: indexed_enqueue_in_store indexed_move_in_store
      indexed_take_in_store indexed_due_in_store first_nonempty index_frames indexed_send heartbeat_in_store_index)

lemma nearly_ops: "list_all op_ok xs \<Longrightarrow> nearly_indexed t \<Longrightarrow> nearly_indexed (fold (op_in_store J C) xs t)"
  by (induction xs arbitrary: t) (simp_all add: nearly_op)

lemma indexed_ops:
  "list_all op_ok xs \<Longrightarrow> all_in_time J C xs t \<Longrightarrow> indexed t \<Longrightarrow> indexed (fold (op_in_store J C) xs t)"
  by (induction xs arbitrary: t) (simp_all add: indexed_op)

text \<open>C5: whatever operations clients and workers run, and in whatever order, the server's data changes as
  the abstract store does: each of the library's scripts and transactions implements the operation
  on the store, and so does every sequence of them.\<close>

theorem interleaving_refines:
  assumes "tiger_world R kind p P C" "list_all op_ok xs"
  shows "tiger_view p (view R (fold (apply_op R J C) xs s)) = fold (op_in_store J C) xs (tiger_view p (view R s))"
  by (rule tiger_world.store_apply_ops [OF assms])

text \<open>C18: under every interleaving of clients and workers the queued, scheduled and error states list
  exactly their non-empty queues, and the active state lists none that is empty; the active state
  misses a queue only if a heartbeat came when no task of the queue was active any more.\<close>

theorem interleaving_indexed:
  assumes "tiger_world R kind p P C" "list_all op_ok xs" "indexed (tiger_view p (view R s))"
    and t': "t' = tiger_view p (view R (fold (apply_op R J C) xs s))"
  shows "(\<forall>st q. q \<in> listed t' st \<longrightarrow> place t' st q \<noteq> zempty) \<and>
    (\<forall>st q. st \<noteq> ACTIVE \<and> place t' st q \<noteq> zempty \<longrightarrow> q \<in> listed t' st) \<and>
    (all_in_time J C xs (tiger_view p (view R s)) \<longrightarrow> indexed t')"
proof -
  have "nearly_indexed t'"
    unfolding t' tiger_world.store_apply_ops [OF assms(1,2)] by (rule nearly_ops [OF assms(2) indexed_nearly [OF assms(3)]])
  moreover have "all_in_time J C xs (tiger_view p (view R s)) \<Longrightarrow> indexed t'"
    unfolding t' tiger_world.store_apply_ops [OF assms(1,2)] by (rule indexed_ops [OF assms(2) _ assms(3)])
  ultimately show ?thesis unfolding nearly_indexed_def by blast
qed

subsection \<open>Where tasks can go\<close>

lemma at_enqueue: "task_at (enqueue_in_store p st q i x ts publish t) st' q' j \<longleftrightarrow>
    task_at t st' q' j \<or> st' = st \<and> q' = q \<and> j = i"
  by (auto simp: task_at_def enqueue_in_store_score)

lemma at_move: "task_at (move_in_store p i q from_state to_state unique ts mode publish t) st q' j \<longleftrightarrow>
    (if j \<noteq> i \<or> q' \<noteq> q then task_at t st q' j else st \<noteq> from_state \<and> (to_state = Some st \<or> task_at t st q i))"
  by (auto simp: task_at_def move_in_store_score)

lemma at_take: "task_at (take_in_store q ms now later t) st q' j \<longleftrightarrow>
    (if q' \<noteq> q \<or> j \<notin> set ms then task_at t st q' j
     else st = ACTIVE \<or> st = SCHEDULED \<and> (task_at t SCHEDULED q j \<or> task_at t ACTIVE q j) \<or> st = ERROR \<and> task_at t ERROR q j)"
  by (cases st) (auto simp: task_at_def take_in_store_score)

lemma at_due: "task_at (due_in_store q ms now t) st q' j \<longleftrightarrow>
    (if q' \<noteq> q \<or> j \<notin> set ms then task_at t st q' j
     else st = QUEUED \<or> st \<noteq> SCHEDULED \<and> task_at t st q j)"
  by (auto simp: task_at_def due_in_store_score)

lemma at_heartbeat: "task_at (put_tasks ACTIVE q (zins_all (map (Pair now) ids) (place t ACTIVE q)) t) st q' j \<longleftrightarrow>
    task_at t st q' j \<or> st = ACTIVE \<and> q' = q \<and> j \<in> set ids"
  by (auto simp: task_at_def task_score_def zget_zins_all_Pair)

lemma at_reschedule: "task_at (op_in_store J C (Reschedule q i ts) t) st q' j \<longleftrightarrow> task_at t st q' j"
  by (auto simp: task_at_def task_score_def Let_def split: option.split json.split)

lemma at_frames [simp]:
  "task_at (send c x t) st q j \<longleftrightarrow> task_at t st q j" "task_at (record_in_store y m i t) st q j \<longleftrightarrow> task_at t st q j"
  by (simp_all add: task_at_def task_score_def)

lemma first_at:
  "i \<in> set (first_queued q n t) \<Longrightarrow> task_at t QUEUED q i"
  "i \<in> set (first_due q now n t) \<Longrightarrow> task_at t SCHEDULED q i"
  by (force simp: first_queued_def first_due_def limit_take_def task_at_def task_score_def zget_Some_iff
      simp flip: zget_Some_iff dest: in_set_takeD split: if_splits)+

lemmas at_ops = at_enqueue at_move at_take at_due at_heartbeat at_reschedule

lemma at_op_new:
  assumes "op_ok x" "task_at (op_in_store J C x t) st q i" "\<not> task_at t st q i"
  shows "case st of
      QUEUED \<Rightarrow> (\<exists>y ts. x = Enqueue QUEUED q i y ts) \<or> (\<exists>st. st \<noteq> QUEUED \<and> task_at t st q i)
    | SCHEDULED \<Rightarrow> (\<exists>y ts. x = Enqueue SCHEDULED q i y ts) \<or> task_at t ACTIVE q i
    | ACTIVE \<Rightarrow> task_at t QUEUED q i \<or> (\<exists>ids now. x = Heartbeat q ids now \<and> i \<in> set ids)
    | ERROR \<Rightarrow> task_at t ACTIVE q i"
proof (cases x)
  case (MoveTask j q' from_state to_state unique ts mode)
  with assms show ?thesis
    by (cases from_state; cases st) (auto simp: at_move split: if_splits)
next
  case (Reschedule q' j ts)
  with assms(2,3) show ?thesis by (simp only: at_reschedule)
next
  case (Heartbeat q' ids now)
  with assms(2,3) show ?thesis unfolding Heartbeat op_in_store.simps at_heartbeat by simp
qed (use assms in \<open>auto simp: at_ops dest: first_at split: task_state.split if_splits\<close>)

subsection \<open>No task is lost\<close>

definition somewhere :: "store \<Rightarrow> queue_name \<Rightarrow> task_id \<Rightarrow> bool" where
  "somewhere t q i \<longleftrightarrow> (\<exists>st. task_at t st q i)"

fun removes :: "task_id \<Rightarrow> server_op \<Rightarrow> bool" where
  "removes i (MoveTask j q from_state to_state unique ts mode) \<longleftrightarrow> j = i \<and> to_state = None"
| "removes i _ \<longleftrightarrow> False"

lemma somewhere_op:
  assumes "op_ok x" "\<not> removes i x" "somewhere t q i"
  shows "somewhere (op_in_store J C x t) q i"
proof (cases x)
  case (MoveTask j q' from_state to_state unique ts mode)
  obtain st where st: "task_at t st q i" using assms(3) by (auto simp: somewhere_def)
  show ?thesis
  proof (cases "j = i \<and> q' = q")
    case True
    then obtain st' where st': "to_state = Some st'" using assms(2) by (auto simp: MoveTask)
    with True have "st' \<noteq> from_state" using assms(1) by (cases from_state) (auto simp: MoveTask)
    with True st' st show ?thesis
      by (auto simp: MoveTask somewhere_def at_move intro: exI [of _ st'] exI [of _ st])
  next
    case False
    with st show ?thesis by (auto simp: MoveTask somewhere_def at_move)
  qed
next
  case (Reschedule q' j ts)
  with assms(3) show ?thesis by (simp only: somewhere_def at_reschedule)
next
  case (Heartbeat q' ids now)
  with assms(3) show ?thesis unfolding Heartbeat op_in_store.simps somewhere_def at_heartbeat by blast
next
  case (TakeTasks q' n now later)
  with assms(3) show ?thesis by (auto simp: somewhere_def at_take)
next
  case (QueueDue q' now)
  with assms(3) show ?thesis by (auto simp: somewhere_def at_due)
qed (use assms in \<open>auto simp: somewhere_def at_enqueue\<close>)

lemma data_op:
  assumes "\<not> removes i x" "task_data t i \<noteq> None"
  shows "task_data (op_in_store J C x t) i \<noteq> None"
  using assms by (cases x) (auto simp: move_in_store_data task_data_take Let_def split: option.splits json.splits)

text \<open>C2: no interleaving of clients and workers loses a task: a task that is in a queue is still there
  afterwards, in some state and with its data, unless one of the operations removed that very task.\<close>

theorem no_task_lost:
  assumes "tiger_world R kind p P C" "list_all op_ok xs" "\<forall>x \<in> set xs. \<not> removes i x"
    and t: "t = tiger_view p (view R s)" and t': "t' = tiger_view p (view R (fold (apply_op R J C) xs s))"
  shows "((\<exists>st. task_at t st q i) \<longrightarrow> (\<exists>st. task_at t' st q i)) \<and> (task_data t i \<noteq> None \<longrightarrow> task_data t' i \<noteq> None)"
proof -
  have "somewhere u q i \<Longrightarrow> somewhere (fold (op_in_store J C) xs u) q i"
    and "task_data u i \<noteq> None \<Longrightarrow> task_data (fold (op_in_store J C) xs u) i \<noteq> None" for u
    using assms(2,3) by (induction xs arbitrary: u) (simp_all add: somewhere_op data_op del: not_None_eq)
  then show ?thesis
    unfolding t' tiger_world.store_apply_ops [OF assms(1,2)] t somewhere_def by blast
qed

subsection \<open>A sequence of two workers\<close>

text \<open>
  A client queues a unique task, one worker takes it, is slow with its heartbeats, another worker
  queues the task again as expired, and the first worker's heartbeat comes after that.
\<close>

definition ex_ops :: "server_op list" where
  "ex_ops = [Enqueue QUEUED ''q'' ''x'' ''data'' 7, TakeTasks ''q'' 1 8 9,
     MoveTask ''x'' ''q'' ACTIVE (Some QUEUED) True 99 (Some ''nx'')]"

definition ex_late_ops :: "server_op list" where
  "ex_late_ops = ex_ops @ [Heartbeat ''q'' [''x''] 100]"

lemma ex_ops_ok: "list_all op_ok ex_ops" "list_all op_ok ex_late_ops"
  by (simp_all add: ex_ops_def ex_late_ops_def)

theorem interleaving_refines_witness:
  "ex_store (fold (apply_op tmem num_cjson ex_config) ex_late_ops mem_empty) =
    fold (op_in_store num_cjson ex_config) ex_late_ops (ex_store mem_empty)"
  by (rule interleaving_refines [OF ex_world ex_ops_ok(2)])

theorem interleaving_indexed_witness:
  "indexed (ex_store (fold (apply_op tmem num_cjson ex_config) ex_ops mem_empty)) \<and>
   nearly_indexed (ex_store (fold (apply_op tmem num_cjson ex_config) ex_late_ops mem_empty))"
proof -
  have "all_in_time num_cjson ex_config ex_ops t" for t by (simp add: ex_ops_def)
  with interleaving_indexed [OF ex_world ex_ops_ok(1) mem_empty_indexed refl, of num_cjson]
    interleaving_indexed [OF ex_world ex_ops_ok(2) mem_empty_indexed refl, of num_cjson]
  show ?thesis unfolding nearly_indexed_def by blast
qed

lemma first_queued_single: "place t QUEUED q = zins ts i zempty \<Longrightarrow> first_queued q 1 t = [i]"
  by (simp add: first_queued_def zlist_eval)

theorem no_task_lost_witness:
  "\<exists>st. task_at (ex_store (fold (apply_op tmem num_cjson ex_config)
      [TakeTasks ''q'' 1 8 9, Heartbeat ''q'' [''x''] 60, MoveTask ''x'' ''q'' ACTIVE (Some ERROR) True 70 None] ex_queued))
    st ''q'' ''x''"
proof -
  have ex: "\<exists>st. task_at (ex_store ex_queued) st ''q'' ''x''" by simp
  let ?xs = "[TakeTasks ''q'' 1 8 9, Heartbeat ''q'' [''x''] 60, MoveTask ''x'' ''q'' ACTIVE (Some ERROR) True 70 None]"
  have "list_all op_ok ?xs" "\<forall>x \<in> set ?xs. \<not> removes ''x'' x" by simp_all
  from no_task_lost [OF ex_world this refl refl, of ex_queued "''q''" num_cjson] ex show ?thesis by blast
qed

end
