(* ===== verification/Exclusive_Execution.thy ===== *)
theory Exclusive_Execution
  imports Interleaving
begin

text \<open>
  Who executes a task: over every sequence of operations of clients and workers, the times that a task
  is handed to a worker are balanced by the times that it is moved out of the active state. So no two
  workers have it at once, unless it was taken from the first one as expired, or a heartbeat for it
  came late.
\<close>

subsection \<open>What an operation does to an active task\<close>

text \<open>It hands the task to a worker, moves it out of the active state, or revives it by a heartbeat.\<close>

fun takes :: "'r redis \<Rightarrow> config \<Rightarrow> queue_name \<Rightarrow> task_id \<Rightarrow> server_op \<Rightarrow> 'r \<Rightarrow> bool" where
  "takes R C q i (TakeTasks q' n now later) s \<longleftrightarrow> q' = q \<and> i \<in> set (fst (take_tasks R C q' n now later s))"
| "takes R C q i _ s \<longleftrightarrow> False"

fun leaves_active :: "'r redis \<Rightarrow> config \<Rightarrow> queue_name \<Rightarrow> task_id \<Rightarrow> server_op \<Rightarrow> 'r \<Rightarrow> bool" where
  "leaves_active R C q i (MoveTask j q' from_state to_state unique ts mode) s \<longleftrightarrow> j = i \<and> q' = q \<and> from_state = ACTIVE \<and>
     \<not> is_error (move_task R (REDIS_PREFIX C) j q' from_state to_state unique ts mode (PUBLISH_QUEUED_TASKS C) s)"
| "leaves_active R C q i _ s \<longleftrightarrow> False"

fun revives :: "'r redis \<Rightarrow> config \<Rightarrow> queue_name \<Rightarrow> task_id \<Rightarrow> server_op \<Rightarrow> 'r \<Rightarrow> bool" where
  "revives R C q i (Heartbeat q' ids now) s \<longleftrightarrow> q' = q \<and> i \<in> set ids \<and>
     \<not> task_at (tiger_view (REDIS_PREFIX C) (view R s)) ACTIVE q i"
| "revives R C q i _ s \<longleftrightarrow> False"

text \<open>How often that happens in a sequence.\<close>

fun tally :: "(server_op \<Rightarrow> 'r \<Rightarrow> bool) \<Rightarrow> 'r redis \<Rightarrow> cjson \<Rightarrow> config \<Rightarrow> server_op list \<Rightarrow> 'r \<Rightarrow> nat" where
  "tally f R J C [] s = 0"
| "tally f R J C (x # xs) s = of_bool (f x s) + tally f R J C xs (apply_op R J C x s)"

lemma tally_append: "tally f R J C (xs @ ys) s = tally f R J C xs s + tally f R J C ys (fold (apply_op R J C) xs s)"
  by (induction xs arbitrary: s) simp_all

context tiger_world
begin

lemma takes_iff:
  "takes R C q i (TakeTasks q' n now later) s \<longleftrightarrow>
    q' = q \<and> i \<in> set (first_queued q n (store_of s)) \<and> \<not> task_at (store_of s) ACTIVE q i"
  by (auto simp: fst_take_tasks [OF prefix] popped_tasks_eq first_queued_def new_members_def task_at_def task_score_def
      simp del: tiger_view_simps)

lemma leaves_iff:
  assumes "colon_free j"
  shows "leaves_active R C q i (MoveTask j q' from_state to_state unique ts mode) s \<longleftrightarrow>
    j = i \<and> q' = q \<and> from_state = ACTIVE \<and> task_at (store_of s) ACTIVE q i \<and>
      (to_state = None \<or> known_mode (none_to_empty_str mode))"
  using move_task_Inl_iff [OF assms, of q' from_state to_state unique ts mode "PUBLISH_QUEUED_TASKS C" s]
  by (cases "move_task R p j q' from_state to_state unique ts mode (PUBLISH_QUEUED_TASKS C) s")
    (auto simp: prefix simp del: tiger_view_simps)

lemma active_step:
  assumes "op_ok x"
  shows "of_bool (task_at (store_of s) ACTIVE q i) + of_bool (takes R C q i x s) + of_bool (revives R C q i x s) =
    (of_bool (task_at (store_of (apply_op R J C x s)) ACTIVE q i) + of_bool (leaves_active R C q i x s) :: nat)"
proof (cases x)
  case (MoveTask j q' from_state to_state unique ts mode)
  then have ok: "colon_free j" "may_move from_state to_state" using assms by simp_all
  have "task_at (store_of (apply_op R J C x s)) ACTIVE q i \<longleftrightarrow>
      task_at (store_of s) ACTIVE q i \<and> \<not> leaves_active R C q i x s"
    using ok(2) unfolding store_apply_op [OF assms] unfolding MoveTask leaves_iff [OF ok(1)]
    by (cases from_state) (auto simp: at_move)
  then show ?thesis
    unfolding MoveTask leaves_iff [OF ok(1)] by (auto simp del: tiger_view_simps)
next
  case (TakeTasks q' n now later)
  then show ?thesis
    unfolding store_apply_op [OF assms] unfolding TakeTasks takes_iff
    by (auto simp: at_take simp del: tiger_view_simps takes.simps)
next
  case (Heartbeat q' ids now)
  then show ?thesis
    unfolding store_apply_op [OF assms] unfolding Heartbeat op_in_store.simps at_heartbeat
    by (auto simp: prefix simp del: tiger_view_simps)
next
  case (Reschedule q' j ts)
  then show ?thesis
    unfolding store_apply_op [OF assms] unfolding Reschedule at_reschedule by (simp del: tiger_view_simps)
qed (use assms in \<open>auto simp: store_apply_op at_enqueue at_due simp del: tiger_view_simps apply_op.simps\<close>)

end

subsection \<open>The balance\<close>

lemma active_balance:
  assumes "tiger_world R kind p P C" "list_all op_ok xs"
  shows "of_bool (task_at (tiger_view p (view R s)) ACTIVE q i) + tally (takes R C q i) R J C xs s +
      tally (revives R C q i) R J C xs s =
    of_bool (task_at (tiger_view p (view R (fold (apply_op R J C) xs s))) ACTIVE q i) +
      tally (leaves_active R C q i) R J C xs s"
  using assms(2)
proof (induction xs arbitrary: s)
  case (Cons x xs)
  then have "op_ok x" "list_all op_ok xs" by simp_all
  with Cons.IH [of "apply_op R J C x s"] tiger_world.active_step [OF assms(1), of x s q i J] show ?case
    by (simp del: tiger_view_simps takes.simps revives.simps leaves_active.simps)
qed simp

text \<open>C3: no task is executed twice at once. Whatever clients and workers do, in any order, between two times
  that a task is handed to a worker it was moved out of the active state: by the first worker, when it
  had finished the task, or by another one, as expired. To be exact, it was moved out once more often
  than it was handed out, or revived by a late heartbeat, in between.\<close>

theorem no_double_execution:
  assumes "tiger_world R kind p P C" "list_all op_ok (x # xs)"
    and s1: "s1 = apply_op R J C x s" and s2: "s2 = fold (apply_op R J C) xs s1"
    and "takes R C q i x s" "takes R C q i y s2"
  shows "tally (leaves_active R C q i) R J C xs s1 =
    Suc (tally (takes R C q i) R J C xs s1 + tally (revives R C q i) R J C xs s1)"
proof -
  obtain n now later where x: "x = TakeTasks q n now later" using assms(5) by (cases x) auto
  obtain n' now' later' where y: "y = TakeTasks q n' now' later'" using assms(6) by (cases y) auto
  have "op_ok x" using assms(2) by simp
  from tiger_world.store_apply_op [OF assms(1) this] have "task_at (tiger_view p (view R s1)) ACTIVE q i"
    using assms(5) unfolding s1 x tiger_world.takes_iff [OF assms(1)]
    by (simp add: at_take del: tiger_view_simps apply_op.simps)
  moreover have "\<not> task_at (tiger_view p (view R s2)) ACTIVE q i"
    using assms(6) unfolding y tiger_world.takes_iff [OF assms(1)] by simp
  ultimately show ?thesis
    using active_balance [OF assms(1), of xs s1 q i J] assms(2) unfolding s2 by simp
qed

text \<open>A task that is taken, requeued as expired, and taken again.\<close>

theorem no_double_execution_witness:
  "tally (leaves_active tmem ex_config ''q'' ''x'') tmem num_cjson ex_config
      [MoveTask ''x'' ''q'' ACTIVE (Some QUEUED) True 99 (Some ''nx'')]
      (apply_op tmem num_cjson ex_config (TakeTasks ''q'' 1 8 9) ex_queued) = 1"
proof -
  let ?move = "MoveTask ''x'' ''q'' ACTIVE (Some QUEUED) True 99 (Some ''nx'')"
  let ?s1 = "apply_op tmem num_cjson ex_config (TakeTasks ''q'' 1 8 9) ex_queued"
  define s2 where "s2 = fold (apply_op tmem num_cjson ex_config) [?move] ?s1"
  have first: "first_queued ''q'' 1 (ex_store ex_queued) = [''x'']"
    by (rule first_queued_single) (simp add: ex_queued_store del: tiger_view_simps)
  then have one: "takes tmem ex_config ''q'' ''x'' (TakeTasks ''q'' 1 8 9) ex_queued"
    unfolding tiger_world.takes_iff [OF ex_world] by simp
  have "ex_store ?s1 = take_in_store ''q'' [''x''] 8 9 (ex_store ex_queued)"
    using tiger_world.store_apply_op [OF ex_world, of "TakeTasks ''q'' 1 8 9" num_cjson ex_queued] first
    by (simp del: tiger_view_simps apply_op.simps)
  moreover have "ex_store s2 = op_in_store num_cjson ex_config ?move (ex_store ?s1)"
    using tiger_world.store_apply_op [OF ex_world, of ?move num_cjson ?s1] by (simp add: s2_def del: tiger_view_simps apply_op.simps)
  ultimately have scores: "task_score (ex_store s2) st q i = (if st = QUEUED \<and> q = ''q'' \<and> i = ''x'' then Some 99 else None)" for st q i
    by (cases st) (simp_all add: at_take move_in_store_score take_in_store_score placed_score_def del: tiger_view_simps apply_op.simps)
  have "first_queued ''q'' 1 (ex_store s2) = [''x'']"
    by (rule first_queued_single [of _ _ 99], rule zset_eqI)
      (simp add: zget_place scores fun_eq_iff del: tiger_view_simps apply_op.simps)
  then have two: "takes tmem ex_config ''q'' ''x'' (TakeTasks ''q'' 1 100 101) s2"
    unfolding tiger_world.takes_iff [OF ex_world] task_at_def scores by simp
  have ok: "list_all op_ok [TakeTasks ''q'' 1 8 9, ?move]" by simp
  from no_double_execution [OF ex_world ok refl s2_def one two]
  show ?thesis by (simp del: leaves_active.simps apply_op.simps)
qed

end
