(* ===== verification/Worker_Drain.thy ===== *)
theory Worker_Drain
  imports Task_Lifecycle
begin

text \<open>
  A worker that is run once works off its queues: if all that the store holds are queued tasks whose
  executions succeed, the main loop returns and leaves nothing behind, after as many rounds as the
  longest queue has tasks and one more.
\<close>

subsection \<open>A store of tasks that are ready\<close>

definition runnable ::
    "pylib \<Rightarrow> 'r redis \<Rightarrow> string \<Rightarrow> 'r executor \<Rightarrow> (string \<times> task_func) list \<Rightarrow> store \<Rightarrow> queue_name \<Rightarrow> task_id \<Rightarrow> bool" where
  "runnable L R p E funcs t q i \<longleftrightarrow> q \<noteq> [] \<and> colon_free i \<and>
     (\<exists>x d name. task_data t i = Some x \<and> x \<noteq> [] \<and> loads_dict L x = Inr d \<and>
       task_id (stored_task q d None None []) = Inr i \<and> serialized_func (stored_task q d None None []) = Inr name \<and>
       \<not> has_lock (stored_task q d None None []) \<and> name \<notin> fst ` set funcs \<and>
       (\<forall>now s. \<exists>s'. executor_execute E q [stored_task q d (Some ACTIVE) (Some now) []] [] None s = (Inr True, s') \<and>
         tiger_view p (view R s') = tiger_view p (view R s)))"

text \<open>Each task is in one queue, in the queued state only.\<close>

definition all_ready :: "pylib \<Rightarrow> 'r redis \<Rightarrow> string \<Rightarrow> 'r executor \<Rightarrow> (string \<times> task_func) list \<Rightarrow> store \<Rightarrow> bool" where
  "all_ready L R p E funcs t \<longleftrightarrow> indexed t \<and> (\<forall>st q. st \<noteq> QUEUED \<longrightarrow> place t st q = zempty) \<and>
     (\<forall>q i. task_at t QUEUED q i \<longrightarrow> runnable L R p E funcs t q i) \<and>
     (\<forall>q q' i. task_at t QUEUED q i \<and> task_at t QUEUED q' i \<longrightarrow> q = q')"

definition waiting :: "store \<Rightarrow> queue_name \<Rightarrow> nat" where
  "waiting t q = length (zlist (place t QUEUED q))"

text \<open>From \<open>t\<close> to \<open>t'\<close> data is only lost by tasks that have left the queue; it changes in no other way.\<close>

definition worked_off :: "store \<Rightarrow> store \<Rightarrow> bool" where
  "worked_off t t' \<longleftrightarrow> (\<forall>j. task_data t' j = None \<or>
     task_data t' j = task_data t j \<and> (\<forall>q. task_at t QUEUED q j \<longrightarrow> task_at t' QUEUED q j))"

lemma worked_off_refl: "worked_off t t"
  by (simp add: worked_off_def)

lemma worked_off_trans: "worked_off t u \<Longrightarrow> worked_off u v \<Longrightarrow> worked_off t v"
proof (unfold worked_off_def, intro allI)
  fix j
  assume "\<forall>j. task_data u j = None \<or> task_data u j = task_data t j \<and> (\<forall>q. task_at t QUEUED q j \<longrightarrow> task_at u QUEUED q j)"
    "\<forall>j. task_data v j = None \<or> task_data v j = task_data u j \<and> (\<forall>q. task_at u QUEUED q j \<longrightarrow> task_at v QUEUED q j)"
  from this [THEN spec, of j]
  show "task_data v j = None \<or> task_data v j = task_data t j \<and> (\<forall>q. task_at t QUEUED q j \<longrightarrow> task_at v QUEUED q j)"
    by (elim disjE conjE) simp_all
qed

lemma waiting_0: "waiting t q = 0 \<longleftrightarrow> place t QUEUED q = zempty"
  by (simp add: waiting_def)

lemma zlist_zdel: "zlist (zdel m z) = filter (\<lambda>e. snd e \<noteq> m) (zlist z)"
  by (simp add: zdel_def zfilter.rep_eq)

lemma length_zdel:
  assumes "zget z m \<noteq> None"
  shows "length (zlist (zdel m z)) = length (zlist z) - 1"
proof -
  obtain sc where "(sc, m) \<in> set (zlist z)" using assms by (auto simp: zget_Some_iff)
  then have m: "m \<in> set (map snd (zlist z))" by force
  have "filter (\<lambda>x. x \<noteq> m) xs = removeAll m xs" for xs :: "member list"
    by (induction xs) auto
  then have "length (filter (\<lambda>x. x \<noteq> m) (map snd (zlist z))) = length (map snd (zlist z)) - 1"
    using m by (simp only: length_remove1 if_True flip: distinct_remove1_removeAll [OF zlist_distinct])
  then show ?thesis by (simp add: zlist_zdel filter_map comp_def)
qed

subsection \<open>One task\<close>

lemma drain_one:
  assumes "tiger_world R kind p P C" "BATCH_QUEUES C = []" "queue_max_workers W q = None"
    and t: "t = tiger_view p (view R s)" and "all_ready L R p E funcs t" "place t QUEUED q \<noteq> zempty"
  shows "\<exists>i s' t'. process_from_queue L P R C E funcs utcnow W q s = (Inr ([i], 1), s') \<and>
    t' = tiger_view p (view R s') \<and> all_ready L R p E funcs t' \<and> worked_off t t' \<and>
    (\<forall>q'. waiting t' q' = (if q' = q then waiting t q - 1 else waiting t q'))"
proof -
  obtain sc i rest where first: "zlist (place t QUEUED q) = (sc, i) # rest"
    using assms(6) by (cases "zlist (place t QUEUED q)") auto
  have "zget (place t QUEUED q) i = Some sc" by (simp add: zget_Some_iff first)
  then have at: "task_at t QUEUED q i" by (simp add: task_at_def task_score_def)
  then have "runnable L R p E funcs t q i" using assms(5) by (simp add: all_ready_def)
  then obtain x d name where r: "q \<noteq> []" "colon_free i" "task_data t i = Some x" "x \<noteq> []" "loads_dict L x = Inr d"
    "task_id (stored_task q d None None []) = Inr i" "serialized_func (stored_task q d None None []) = Inr name"
    "\<not> has_lock (stored_task q d None None [])" "name \<notin> fst ` set funcs"
    "\<And>now s. \<exists>s'. executor_execute E q [stored_task q d (Some ACTIVE) (Some now) []] [] None s = (Inr True, s') \<and>
         tiger_view p (view R s') = tiger_view p (view R s)"
    unfolding runnable_def by blast
  have none: "\<not> task_at t st q i" if "st \<noteq> QUEUED" for st
    using assms(5) that by (simp add: all_ready_def task_at_def task_score_def)
  have "get_queue_batch_size C q = 1"
  proof -
    have "batch_size_of [] parts n = n" for parts n by (induction parts arbitrary: n) simp_all
    then show ?thesis by (simp add: get_queue_batch_size_def assms(2))
  qed
  then have popped: "map snd (limit_take (get_queue_batch_size C q) (zlist (place t QUEUED q))) = [i]"
    by (simp add: first limit_take_def)
  obtain s' t' where run: "process_from_queue L P R C E funcs utcnow W q s = (Inr ([i], 1), s')"
    "t' = tiger_view p (view R s')"
    and scores: "\<And>st q' j. task_score t' st q' j = (if st = QUEUED \<and> q' = q \<and> j = i then None else task_score t st q' j)"
    and data: "task_data t' = (task_data t)(i := None)" and ix: "indexed t'"
    using queued_task_done_lemma [OF assms(1) r(1,2) t r(3-5) refl r(6-10) assms(3) none popped, of utcnow] none assms(5)
    by (auto simp: all_ready_def simp del: tiger_view_simps)
  have place: "place t' st q' = (if st = QUEUED \<and> q' = q then zdel i (place t QUEUED q) else place t st q')" for st q'
    using scores [of st q'] by (intro zset_eqI) (auto simp: task_score_def fun_eq_iff)
  have at': "task_at t' st q' j \<longleftrightarrow> task_at t st q' j \<and> \<not> (st = QUEUED \<and> q' = q \<and> j = i)" for st q' j
    by (simp add: task_at_def scores)
  have other: "j \<noteq> i" if "task_at t' QUEUED q' j" for q' j
    using that at assms(5) unfolding at' all_ready_def by blast
  have ready: "\<And>st q. st \<noteq> QUEUED \<Longrightarrow> place t st q = zempty"
    "\<And>q i. task_at t QUEUED q i \<Longrightarrow> runnable L R p E funcs t q i"
    "\<And>q q' i. task_at t QUEUED q i \<Longrightarrow> task_at t QUEUED q' i \<Longrightarrow> q = q'"
    using assms(5) unfolding all_ready_def by blast+
  have "runnable L R p E funcs t' q' j" if "task_at t' QUEUED q' j" for q' j
    using ready(2) [of q' j] that other [OF that] by (simp add: at' runnable_def data)
  then have "all_ready L R p E funcs t'"
    using ix ready(1,3) by (auto simp: all_ready_def place at')
  moreover have "worked_off t t'"
    by (auto simp: worked_off_def data at')
  moreover have "waiting t' q' = (if q' = q then waiting t q - 1 else waiting t q')" for q'
    using at by (simp add: waiting_def place length_zdel task_at_def task_score_def)
  ultimately show ?thesis using run by blast
qed

subsection \<open>A round over the queues\<close>

text \<open>A worker for all queues, without limits on the number of workers, that nobody stops.\<close>

definition open_worker :: "worker \<Rightarrow> bool" where
  "open_worker W \<longleftrightarrow> only_queues W = [] \<and> exclude_queues W = [] \<and> single_worker_queues W = [] \<and>
     max_workers_per_queue W = None \<and> \<not> stop_requested W"

lemma open_worker_simps [simp]:
  "open_worker (W\<lparr>did_work := b\<rparr>) = open_worker W" "open_worker (W\<lparr>queue_set := qs\<rparr>) = open_worker W"
  "open_worker (W\<lparr>last_task_check := c\<rparr>) = open_worker W"
  by (simp_all add: open_worker_def)

lemma open_worker_limits: "open_worker W \<Longrightarrow> queue_max_workers W q = None"
  by (simp add: open_worker_def queue_max_workers_def list_ex_iff)

lemma run_queues_drain:
  assumes "tiger_world R kind p P C" "BATCH_QUEUES C = []"
    and "distinct qs" "open_worker W" "all_ready L R p E funcs (tiger_view p (view R s))"
    and "\<forall>q \<in> set qs. place (tiger_view p (view R s)) QUEUED q \<noteq> zempty"
  shows "\<exists>W' s' t'. run_queues L P R C E funcs utcnow (\<lambda>_. False) qs W s = (Inr (), W', s') \<and>
    open_worker W' \<and> queue_set W' = queue_set W \<and> t' = tiger_view p (view R s') \<and>
    all_ready L R p E funcs t' \<and> worked_off (tiger_view p (view R s)) t' \<and>
    (\<forall>q. waiting t' q = (if q \<in> set qs then waiting (tiger_view p (view R s)) q - 1 else waiting (tiger_view p (view R s)) q))"
  using assms(3-6)
proof (induction qs arbitrary: W s)
  case Nil
  then show ?case by (simp add: worked_off_refl del: tiger_view_simps)
next
  case (Cons q qs)
  let ?t = "tiger_view p (view R s)"
  obtain i s1 t1 where one: "process_from_queue L P R C E funcs utcnow W q s = (Inr ([i], 1), s1)"
    "t1 = tiger_view p (view R s1)" "all_ready L R p E funcs t1" "worked_off ?t t1"
    "\<And>q'. waiting t1 q' = (if q' = q then waiting ?t q - 1 else waiting ?t q')"
    using drain_one [OF assms(1,2) open_worker_limits [OF Cons.prems(2)] refl Cons.prems(3), of q utcnow] Cons.prems(4)
    by (auto simp del: tiger_view_simps)
  have "place t1 QUEUED q' \<noteq> zempty" if "q' \<in> set qs" for q'
    using one(5) [of q'] that Cons.prems(1,4) by (auto simp flip: waiting_0 simp del: tiger_view_simps)
  then obtain W' s' t' where rest: "run_queues L P R C E funcs utcnow (\<lambda>_. False) qs (W\<lparr>did_work := True\<rparr>) s1 = (Inr (), W', s')"
    "open_worker W'" "queue_set W' = queue_set W" "t' = tiger_view p (view R s')" "all_ready L R p E funcs t'" "worked_off t1 t'"
    "\<And>q. waiting t' q = (if q \<in> set qs then waiting t1 q - 1 else waiting t1 q)"
    using Cons.IH [of "W\<lparr>did_work := True\<rparr>" s1] Cons.prems(1,2) one(2,3) by (auto simp del: tiger_view_simps)
  have "run_queues L P R C E funcs utcnow (\<lambda>_. False) (q # qs) W s = (Inr (), W', s')"
    using one(1) rest(1) Cons.prems(2) by (simp add: open_worker_def)
  moreover have "waiting t' q' = (if q' \<in> set (q # qs) then waiting ?t q' - 1 else waiting ?t q')" for q'
    using Cons.prems(1) by (auto simp: rest(7) one(5) simp del: tiger_view_simps)
  ultimately show ?case using rest(2-6) worked_off_trans [OF one(4) rest(6)] by blast
qed

lemma listed_none:
  assumes "tiger_redis R kind p" "listed (tiger_view p (view R s)) st = {}"
  shows "r_smembers R (state_key p st) s = []"
proof -
  have "set (r_smembers R (state_key p st) s) = {}"
    using redis_server.smembers_set [OF tiger_redis.axioms(1) [OF assms(1)] tiger_redis.kind_state [OF assms(1)], of st s] assms(2)
    by simp
  then show ?thesis by simp
qed

context tiger_world
begin

lemma no_due_tasks:
  assumes "listed (store_of s) SCHEDULED = {}"
  shows "\<exists>s'. worker_queue_scheduled_tasks L matches P R C W s = (W, s') \<and> store_of s' = store_of s"
proof -
  let ?lock = "tiger_key p [''lockv2'', ''queue_scheduled_tasks'', worker_group_name L W]"
  obtain locked s1 where s1: "(if QUEUE_SCHEDULED_TASKS_TIME C > 0
      then apfst (\<lambda>token. token \<noteq> None) (r_lock_acquire R ?lock (QUEUE_SCHEDULED_TASKS_TIME C) s) else (True, s)) = (locked, s1)"
    by fastforce
  have same: "store_of s1 = store_of s"
    using s1 store_lock_acquire [of "[''queue_scheduled_tasks'', worker_group_name L W]" "QUEUE_SCHEDULED_TASKS_TIME C" s]
    by (auto simp: apfst_eq_pair simp del: store_lock_acquire tiger_view_simps split: if_splits)
  obtain now s2 where s2: "read_time P s1 = (now, s2)" by fastforce
  have same2: "store_of s2 = store_of s" using view_read_time [of s1] s2 same by simp
  have "r_smembers R (state_key p SCHEDULED) s1 = []"
    by (rule listed_none [OF tiger_redis_axioms]) (simp only: same assms)
  then have "filter_queues W (retrieve_queues matches R W (state_key p SCHEDULED) s1) = []"
    by (simp add: filter_queues_def retrieve_queues_def split: list.split)
  then show ?thesis
    using s1 s2 same same2 by (simp add: worker_queue_scheduled_tasks_def Let_def del: tiger_view_simps)
qed

lemma no_expired_tasks:
  assumes "listed (store_of s) ACTIVE = {}"
  shows "\<exists>s'. worker_queue_expired_tasks L P R C W s = (Inr (), W, s') \<and> store_of s' = store_of s"
proof -
  let ?lock = "tiger_key p [''lockv2'', ''queue_expired_tasks'']"
  obtain token s1 where s1: "r_lock_acquire R ?lock (REQUEUE_EXPIRED_TASKS_INTERVAL C) s = (token, s1)" by fastforce
  have same: "store_of s1 = store_of s"
    using s1 store_lock_acquire [of "[''queue_expired_tasks'']" "REQUEUE_EXPIRED_TASKS_INTERVAL C" s] by (metis snd_conv)
  obtain now s2 where s2: "read_time P s1 = (now, s2)" by fastforce
  have same2: "store_of s2 = store_of s" using view_read_time [of s1] s2 same by simp
  have "r_smembers R (state_key p ACTIVE) s2 = []"
    by (rule listed_none [OF tiger_redis_axioms]) (simp only: same2 assms)
  then have "get_expired_tasks R p (now - ACTIVE_TASK_UPDATE_TIMEOUT C) n s2 = []" for n
    by (simp add: get_expired_tasks_def get_expired_tasks_script_def tiger_key_def state_name.simps)
  then show ?thesis
    using s1 s2 same same2 store_lock_release [of "[''queue_expired_tasks'']" _ s2]
    by (simp add: worker_queue_expired_tasks_def Let_def del: tiger_view_simps split: option.split)
qed

end

lemma worker_run_drain:
  assumes "tiger_world R kind p P C" "BATCH_QUEUES C = []" "open_worker W"
    and t: "t = tiger_view p (view R s)" and "all_ready L R p E funcs t"
    and "distinct (shuffle (queue_set W))" "set (shuffle (queue_set W)) = listed t QUEUED"
  shows "\<exists>W' s' t'. worker_run L matches P R C E funcs utcnow (\<lambda>_. False) shuffle W s = (Inr (), W', s') \<and>
    open_worker W' \<and> queue_set W' = queue_set W \<and> t' = tiger_view p (view R s') \<and>
    all_ready L R p E funcs t' \<and> worked_off t t' \<and> (\<forall>q. waiting t' q = waiting t q - 1)"
proof -
  have listed: "q \<in> listed t QUEUED \<longleftrightarrow> place t QUEUED q \<noteq> zempty" for q
    using assms(5) by (simp add: all_ready_def indexed_def)
  obtain W1 s1 t1 where one: "run_queues L P R C E funcs utcnow (\<lambda>_. False) (shuffle (queue_set W)) W s = (Inr (), W1, s1)"
    "open_worker W1" "queue_set W1 = queue_set W" "t1 = tiger_view p (view R s1)" "all_ready L R p E funcs t1" "worked_off t t1"
    and count: "\<And>q. waiting t1 q = (if q \<in> set (shuffle (queue_set W)) then waiting t q - 1 else waiting t q)"
    using run_queues_drain [OF assms(1,2,6,3), of L E funcs s utcnow] assms(5,7) listed unfolding t by blast
  have count1: "waiting t1 q = waiting t q - 1" for q
    using count [of q] listed [of q] assms(7) waiting_0 [of t q] by auto
  have none: "listed t1 SCHEDULED = {}" "listed t1 ACTIVE = {}"
    using one(5) by (auto simp: all_ready_def indexed_def)
  obtain now s2 where s2: "read_time P s1 = (now, s2)" by fastforce
  have same2: "tiger_view p (view R s2) = t1"
    using tiger_world.view_read_time [OF assms(1), of s1] s2 one(4) by simp
  obtain s3 where s3: "worker_queue_scheduled_tasks L matches P R C W1 s2 = (W1, s3)" "tiger_view p (view R s3) = t1"
    using tiger_world.no_due_tasks [OF assms(1), of s2 L matches W1] none(1) same2 by (auto simp del: tiger_view_simps)
  obtain s4 where s4: "worker_queue_expired_tasks L P R C W1 s3 = (Inr (), W1, s4)" "tiger_view p (view R s4) = t1"
    using tiger_world.no_expired_tasks [OF assms(1), of s3 L W1] none(2) s3(2) by (auto simp del: tiger_view_simps)
  obtain now' s5 where s5: "read_time P s4 = (now', s5)" by fastforce
  have same5: "tiger_view p (view R s5) = t1"
    using tiger_world.view_read_time [OF assms(1), of s4] s5 s4(2) by simp
  have go: "\<not> stop_requested W1" using one(2) by (simp add: open_worker_def)
  have "\<exists>W' s'. worker_run L matches P R C E funcs utcnow (\<lambda>_. False) shuffle W s = (Inr (), W', s') \<and>
    open_worker W' \<and> queue_set W' = queue_set W \<and> tiger_view p (view R s') = t1"
    using one(2,3) same2 same5 go
    by (simp add: worker_run_def one(1) s2 s3(1) s4(1) s5 Let_def del: tiger_view_simps)
  with one(5,6) count1 show ?thesis by blast
qed

subsection \<open>The main loop\<close>

lemma no_parts_match: "match_parts parts [] []"
  by (induction parts) simp_all

lemma open_worker_includes: "open_worker W \<Longrightarrow> filter_queues W qs = qs"
  unfolding filter_queues_def by (rule filter_True) (simp add: open_worker_def worker_includes_def queue_included_def no_parts_match)

lemma refresh_listed:
  assumes "tiger_world R kind p P C" "open_worker W"
  shows "set (queue_set (refresh_queue_set matches R C W s)) = listed (tiger_view p (view R s)) QUEUED \<and>
    distinct (queue_set (refresh_queue_set matches R C W s)) \<and> open_worker (refresh_queue_set matches R C W s)"
proof -
  note server = tiger_redis.axioms(1) [OF tiger_world.axioms(1) [OF assms(1)]]
    and kind = tiger_redis.kind_state [OF tiger_world.axioms(1) [OF assms(1)]]
  show ?thesis
    using assms(2) redis_server.smembers_set [OF server kind, of QUEUED s] redis_server.smembers_distinct [OF server kind, of QUEUED s]
    by (simp add: refresh_queue_set_def open_worker_includes tiger_world.prefix [OF assms(1)])
      (simp add: retrieve_queues_def open_worker_def)
qed

lemma run_loop_drain:
  assumes "tiger_world R kind p P C" "BATCH_QUEUES C = []" "POLL_TASK_QUEUES_INTERVAL C \<noteq> 0"
    and "open_worker W" "all_ready L R p E funcs (tiger_view p (view R s))"
    and "\<forall>q. waiting (tiger_view p (view R s)) q \<le> n" "n < length its"
    and "\<forall>it \<in> set its. \<not> past_exit it \<and>
      (\<forall>qs. distinct qs \<longrightarrow> distinct (queue_order it qs) \<and> set (queue_order it qs) = set qs)"
  shows "\<exists>W' s' t'. run_loop L matches P R C E funcs (\<lambda>_. False) True False its W s = Some (Inr (), W', s') \<and>
    t' = tiger_view p (view R s') \<and> all_ready L R p E funcs t' \<and> worked_off (tiger_view p (view R s)) t' \<and>
    (\<forall>q. waiting t' q = 0)"
  using assms(4-8)
proof (induction its arbitrary: W s n)
  case (Cons it its)
  let ?t = "tiger_view p (view R s)" and ?W = "refresh_queue_set matches R C W s"
  have refreshed: "set (queue_set ?W) = listed ?t QUEUED" "distinct (queue_set ?W)" "open_worker (?W\<lparr>did_work := False\<rparr>)"
    using refresh_listed [OF assms(1) Cons.prems(1), of matches s] by auto
  have order: "distinct (queue_order it (queue_set ?W))" "set (queue_order it (queue_set ?W)) = listed ?t QUEUED"
    using Cons.prems(5) refreshed(1,2) by auto
  obtain W1 s1 t1 where one: "worker_run L matches P R C E funcs (utc_time it) (\<lambda>_. False) (queue_order it)
      (?W\<lparr>did_work := False\<rparr>) s = (Inr (), W1, s1)"
    "open_worker W1" "queue_set W1 = queue_set ?W" "t1 = tiger_view p (view R s1)" "all_ready L R p E funcs t1" "worked_off ?t t1"
    and count: "\<And>q. waiting t1 q = waiting ?t q - 1"
    using worker_run_drain [OF assms(1,2) refreshed(3) refl Cons.prems(2), of "queue_order it" matches "utc_time it"] order
    by (auto simp del: tiger_view_simps)
  have wait: "wait_for_queues matches R C it W s = Some ?W"
    using assms(3) by (simp add: wait_for_queues_def)
  have go: "\<not> stop_requested W1" "\<not> past_exit it" using one(2) Cons.prems(5) by (simp_all add: open_worker_def)
  show ?case
  proof (cases "queue_set ?W = []")
    case True
    have "waiting t1 q = 0" for q
      using True refreshed(1) Cons.prems(2) count [of q] waiting_0 [of ?t q] by (auto simp: all_ready_def indexed_def simp del: tiger_view_simps)
    then show ?thesis
      using one wait True by (simp del: tiger_view_simps)
  next
    case False
    obtain q where "q \<in> listed ?t QUEUED"
      using False refreshed(1) by (metis ex_in_conv set_empty)
    then have "waiting ?t q \<noteq> 0"
      using Cons.prems(2) unfolding waiting_0 all_ready_def indexed_def by blast
    with Cons.prems(3) have "n \<noteq> 0" by (metis le_zero_eq)
    then have "\<forall>q. waiting t1 q \<le> n - 1" "n - 1 < length its"
      using count Cons.prems(3,4) by (simp_all add: diff_le_mono del: tiger_view_simps)
    then obtain W' s' t' where rest: "run_loop L matches P R C E funcs (\<lambda>_. False) True False its W1 s1 = Some (Inr (), W', s')"
      "t' = tiger_view p (view R s')" "all_ready L R p E funcs t'" "worked_off t1 t'" "\<forall>q. waiting t' q = 0"
      using Cons.IH [of W1 s1 "n - 1"] one(2,4,5) Cons.prems(5) by (auto simp del: tiger_view_simps)
    have "run_loop L matches P R C E funcs (\<lambda>_. False) True False (it # its) W s = Some (Inr (), W', s')"
      using one(1,3) wait False go rest(1) by simp
    with rest(2,3,5) worked_off_trans [OF one(6) rest(4)] show ?thesis by blast
  qed
qed simp

text \<open>C6: a worker that is run once works off its queues. If all tasks are queued, each in one queue, need no
  lock, are not periodic and their executions succeed, then the main loop returns, at the latest one
  round after as many rounds as the longest queue has tasks, in whatever order it goes through the
  queues; afterwards no queue holds a task in any state, no state lists a queue, and the data of all the
  tasks is gone.\<close>

theorem worker_drains:
  assumes "tiger_world R kind p P C" "BATCH_QUEUES C = []" "POLL_TASK_QUEUES_INTERVAL C \<noteq> 0" "open_worker W"
    and t: "t = tiger_view p (view R s)" and "all_ready L R p E funcs t"
    and "\<forall>q. length (zlist (place t QUEUED q)) \<le> n" "n < length its"
    and "\<forall>it \<in> set its. \<not> past_exit it \<and>
      (\<forall>qs. distinct qs \<longrightarrow> distinct (queue_order it qs) \<and> set (queue_order it qs) = set qs)"
  shows "\<exists>W' s' t'. run_loop L matches P R C E funcs (\<lambda>_. False) True False its W s = Some (Inr (), W', s') \<and>
    t' = tiger_view p (view R s') \<and> (\<forall>st q. place t' st q = zempty) \<and> (\<forall>st. listed t' st = {}) \<and>
    (\<forall>q i. task_at t QUEUED q i \<longrightarrow> task_data t' i = None)"
proof -
  obtain W' s' t' where run: "run_loop L matches P R C E funcs (\<lambda>_. False) True False its W s = Some (Inr (), W', s')"
    "t' = tiger_view p (view R s')" "all_ready L R p E funcs t'" "worked_off t t'" "\<forall>q. waiting t' q = 0"
    using run_loop_drain [OF assms(1-4), of L E funcs s n its matches] assms(6-9) unfolding t waiting_def by blast
  have empty: "place t' st q = zempty" for st q
    using run(3,5) by (cases "st = QUEUED") (simp_all add: all_ready_def waiting_0)
  moreover have "listed t' st = {}" for st
    using run(3) empty by (auto simp: all_ready_def indexed_def)
  moreover have "task_data t' i = None" if "task_at t QUEUED q i" for q i
    using run(4) that empty by (auto simp: worked_off_def task_at_def task_score_def)
  ultimately show ?thesis using run(1,2) by blast
qed

theorem worker_drains_witness:
  "\<exists>W' s'. run_loop num_lib (\<lambda>_ _. True) ex_program tmem ex_config
      (sync_executor num_lib ex_program tmem ex_config True) [] (\<lambda>_. False) True False [ex_iteration, ex_iteration]
      ex_worker ex_queued = Some (Inr (), W', s') \<and> task_data (ex_store s') ''x'' = None"
proof -
  let ?E = "sync_executor num_lib ex_program tmem ex_config True" and ?t = "ex_store ex_queued"
  have "runnable num_lib tmem ''t'' ?E [] ?t ''q'' ''x''"
    unfolding runnable_def
  proof (intro conjI exI)
    show "task_data ?t ''x'' = Some (json_dumps num_lib (JObj ex_queued_data))" by (rule ex_queued_store(2))
    show "json_dumps num_lib (JObj ex_queued_data) \<noteq> []" by (rule json_dumps_nonempty [OF num_lib_ok])
    show "loads_dict num_lib (json_dumps num_lib (JObj ex_queued_data)) = Inr ex_queued_data"
      by (rule loads_dict_dumps [OF num_lib_ok])
    show "serialized_func (stored_task ''q'' ex_queued_data None None []) = Inr ''m:f''" by (simp add: stored_fields)
    show "\<forall>now s. \<exists>s'. executor_execute ?E ''q'' [stored_task ''q'' ex_queued_data (Some ACTIVE) (Some now) []] [] None s =
        (Inr True, s') \<and> ex_store s' = ex_store s"
      using ex_executes by blast
  qed (simp_all add: stored_fields get_default_def)
  then have ready: "all_ready num_lib tmem ''t'' ?E [] ?t"
    using ex_queued_indexed by (simp add: all_ready_def ex_queued_store(1) del: tiger_view_simps)
  have worker: "open_worker ex_worker" by (simp add: open_worker_def ex_worker_def)
  have batch: "BATCH_QUEUES ex_config = []" by (simp add: ex_config_def default_config_def)
  have short: "\<forall>q. length (zlist (place ?t QUEUED q)) \<le> 1"
    by (simp add: ex_queued_store(1) zlist_eval del: tiger_view_simps)
  have rounds: "\<forall>it \<in> set [ex_iteration, ex_iteration]. \<not> past_exit it \<and>
      (\<forall>qs. distinct qs \<longrightarrow> distinct (queue_order it qs) \<and> set (queue_order it qs) = set qs)"
    by (simp add: ex_iteration_def)
  from worker_drains [OF ex_world batch _ worker refl ready short _ rounds, of "\<lambda>_ _. True"]
  show ?thesis by (simp del: tiger_view_simps) (metis ex_queued_at(2))
qed

end
