(* ===== verification/Retry_Cycle.thy ===== *)
theory Retry_Cycle
  imports Task_Lifecycle Worker_Executions
begin

text \<open>
  The retries of a task, from the queue to the errors: a round in which the worker queues what is due
  and processes the queue executes the task once more, and the strategy of the task decides, by the
  number of executions so far, whether there is another one.
\<close>

subsection \<open>An executor that fails\<close>

text \<open>
  The executor fails the tasks of the queue with the given data whenever it gets one: it records the
  failure of an execution that asked for no retry of its own, and changes nothing else that the
  store shows.
\<close>

definition always_fails ::
    "pylib \<Rightarrow> 'r redis \<Rightarrow> string \<Rightarrow> config \<Rightarrow> 'r executor \<Rightarrow> queue_name \<Rightarrow> dict \<Rightarrow> bool" where
  "always_fails L R p C E q d \<longleftrightarrow> (\<forall>now s. \<exists>s' s0 execution exc.
     executor_execute E q [stored_task q d (Some ACTIVE) (Some now) []] [] None s = (Inr False, s') \<and>
     store_task_execution L R C [stored_task q d (Some ACTIVE) (Some now) []] execution s0 = (Inr (), s') \<and>
     tiger_view p (view R s0) = tiger_view p (view R s) \<and>
     dict_get execution ''exception_name'' = Some (JStr exc) \<and>
     \<not> truthy (get_default execution ''retry'' JNull))"

text \<open>The executor in the worker's thread is one, if the application raises.\<close>

lemma always_fails_sync:
  assumes "tiger_world R kind p P C" "entry_string ''id'' d = Inr i" "entry_string ''func'' d = Inr name"
    and "colon_free i"
    and raises: "\<And>now s. run_tasks P C [stored_task q d (Some ACTIVE) (Some now) []] s = (Inl (e now s), s)"
    and "\<And>now s. failure_entries (e now s) = Inr [(''exception_name'', JStr (exc now s))]"
  shows "always_fails L R p C (sync_executor L P R C tracebacks) q d"
  unfolding always_fails_def
proof (intro allI)
  fix now s
  let ?T = "stored_task q d (Some ACTIVE) (Some now) []"
  have fields: "task_id ?T = Inr i" "serialized_func ?T = Inr name"
    using assms(2,3) by (simp_all only: stored_fields)
  have ids: "map_result task_id [?T] = Inr [i]" "distinct [i]" "list_all colon_free [i]"
    using fields assms(4) by simp_all
  obtain t1 s1 where s1: "read_time P s = (t1, s1)" by fastforce
  obtain t2 s2 where s2: "read_time P s1 = (t2, s2)" by fastforce
  define execution where
    "execution = failure_record P tracebacks t1 [(''exception_name'', JStr (exc now s1))] t2 (e now s1)"
  obtain s' where s': "store_task_execution L R C [?T] execution s2 = (Inr (), s')"
    using recorded [OF tiger_world.axioms(1) [OF assms(1)] tiger_world.prefix [OF assms(1)] ids refl,
        of L execution s2] by metis
  then have "executor_execute (sync_executor L P R C tracebacks) q [?T] [] None s = (Inr False, s')"
    by (simp add: sync_executor_def sync_execute_def execute_tasks_def same_func_def fields s1 s2 raises assms(6)
        execution_def)
  moreover have "tiger_view p (view R s2) = tiger_view p (view R s)"
    using tiger_world.view_read_time [OF assms(1), of s] tiger_world.view_read_time [OF assms(1), of s1] s1 s2 by simp
  moreover have "dict_get execution ''exception_name'' = Some (JStr (exc now s1))"
    "\<not> truthy (get_default execution ''retry'' JNull)"
    by (simp_all add: execution_def failure_record_def dict_get_def get_default_def entry_def when_true_def split: option.split)
  ultimately show "\<exists>s' s0 execution exc.
     executor_execute (sync_executor L P R C tracebacks) q [?T] [] None s = (Inr False, s') \<and>
     store_task_execution L R C [?T] execution s0 = (Inr (), s') \<and>
     tiger_view p (view R s0) = tiger_view p (view R s) \<and>
     dict_get execution ''exception_name'' = Some (JStr exc) \<and>
     \<not> truthy (get_default execution ''retry'' JNull)"
    using s' by blast
qed

subsection \<open>One more execution\<close>

text \<open>
  A task whose executions fail for as long as they are tried: its data names a strategy that grants
  \<open>m\<close> retries, and nothing else in it bears on the outcome.
\<close>

definition retried_task ::
    "pylib \<Rightarrow> 'r redis \<Rightarrow> 'r program \<Rightarrow> config \<Rightarrow> 'r executor \<Rightarrow> (string \<times> task_func) list \<Rightarrow> queue_name \<Rightarrow> task_id
      \<Rightarrow> string \<Rightarrow> nat \<Rightarrow> bool" where
  "retried_task L R P C E funcs q i x m \<longleftrightarrow> q \<noteq> [] \<and> colon_free i \<and> x \<noteq> [] \<and>
     (\<exists>d name f args func retry_delay. let T = stored_task q d None None [] in
       loads_dict L x = Inr d \<and> task_id T = Inr i \<and> serialized_func T = Inr name \<and> name \<notin> fst ` set funcs \<and>
       \<not> has_lock T \<and> serialized_runner_class T = None \<and> retry_on T = [] \<and>
       (\<forall>n \<in> set_option (max_stored_executions T). 0 < n) \<and>
       retry_method T = Inr (Some (f, args)) \<and> import_attribute (resolve_retry P) f = Inr func \<and>
       (\<forall>k. 1 \<le> k \<longrightarrow> func (int k) args = (if k \<le> m then Inr (retry_delay k) else Inl StopRetry)) \<and>
       always_fails L R (REDIS_PREFIX C) C E q d)"

definition executions_so_far :: "store \<Rightarrow> task_id \<Rightarrow> nat" where
  "executions_so_far t i = (case execs_count t i of None \<Rightarrow> 0 | Some c \<Rightarrow> nat_of_dec c)"

lemma stored_task_fields:
  "the_queue (stored_task q d (Some st) ts xs) = (if q = [] then Inl AssertionError else Inr q)"
  "serialized_runner_class (stored_task q d (Some st) ts xs) = serialized_runner_class (stored_task q d None None [])"
  "retry_method (stored_task q d (Some st) ts xs) = retry_method (stored_task q d None None [])"
  "retry_on (stored_task q d (Some st) ts xs) = retry_on (stored_task q d None None [])"
  "max_stored_executions (stored_task q d (Some st) ts xs) = max_stored_executions (stored_task q d None None [])"
  by (simp_all add: stored_task_def the_queue_def serialized_runner_class_def retry_method_def retry_on_def
      max_stored_executions_def)

lemma newest_nonempty:
  assumes "\<forall>n \<in> set_option m. 0 < n"
  obtains ys where "newest m (xs @ [x]) = ys @ [x]"
proof (cases m)
  case None
  then show ?thesis using that by (simp add: newest_def)
next
  case (Some n)
  then have "last (newest m (xs @ [x])) = x" "newest m (xs @ [x]) \<noteq> []"
    using assms newest_kept [of n xs x] newest_positive [of n "xs @ [x]"] by auto
  then show ?thesis using that by (metis append_butlast_last_id)
qed

context tiger_world
begin

lemma process_failed:
  assumes "retried_task L R P C E funcs q i x m" "task_data (store_of s) i = Some x"
    and "task_at (store_of s) ACTIVE q i" "pylib_ok L"
  shows "\<exists>r s' u ts unique. process_queue_tasks L P R C E funcs utcnow q None [i] now s = (r, s') \<and>
    store_of s' = move_in_store p i q ACTIVE
      (Some (if executions_so_far (store_of s) i < m then SCHEDULED else ERROR)) unique ts '''' (PUBLISH_QUEUED_TASKS C) u \<and>
    place u = place (store_of s) \<and> task_data u = task_data (store_of s) \<and>
    executions_so_far u i = Suc (executions_so_far (store_of s) i)"
proof -
  from assms(1) obtain d name f args func retry_delay where ok: "q \<noteq> []" "colon_free i" "x \<noteq> []" "loads_dict L x = Inr d"
    "task_id (stored_task q d None None []) = Inr i" "serialized_func (stored_task q d None None []) = Inr name"
    "name \<notin> fst ` set funcs" "\<not> has_lock (stored_task q d None None [])"
    "serialized_runner_class (stored_task q d None None []) = None" "retry_on (stored_task q d None None []) = []"
    "\<forall>n \<in> set_option (max_stored_executions (stored_task q d None None [])). 0 < n"
    "retry_method (stored_task q d None None []) = Inr (Some (f, args))" "import_attribute (resolve_retry P) f = Inr func"
    "\<And>k. 1 \<le> k \<Longrightarrow> func (int k) args = (if k \<le> m then Inr (retry_delay k) else Inl StopRetry)"
    "always_fails L R p C E q d"
    unfolding retried_task_def Let_def prefix by blast
  define T where "T = stored_task q d (Some ACTIVE) (Some now) []"
  have T: "the_queue T = Inr q" "task_id T = Inr i" "serialized_func T = Inr name" "\<not> has_lock T"
    "serialized_runner_class T = None" "retry_on T = []" "\<forall>n \<in> set_option (max_stored_executions T). 0 < n"
    "retry_method T = Inr (Some (f, args))"
    using ok unfolding T_def stored_task_fields stored_fields by simp_all
  obtain s1 s0 execution exc where ex: "executor_execute E q [T] [] None s = (Inr False, s1)"
    "store_task_execution L R C [T] execution s0 = (Inr (), s1)" "store_of s0 = store_of s"
    "dict_get execution ''exception_name'' = Some (JStr exc)" "\<not> truthy (get_default execution ''retry'' JNull)"
    using ok(15) unfolding always_fails_def T_def by blast
  let ?t = "store_of s" and ?u = "store_of s1"
  have ids: "map_result task_id [T] = Inr [i]" "distinct [i]" "list_all colon_free [i]"
    using T(2) ok(2) by simp_all
  obtain s2 where s2: "store_task_execution L R C [T] execution s0 = (Inr (), s2)"
    "place (store_of s2) = place (store_of s0)" "task_data (store_of s2) = task_data (store_of s0)"
    "\<And>T' j. T' \<in> set [T] \<Longrightarrow> task_id T' = Inr j \<Longrightarrow>
      execs_count (store_of s2) j = Some (incr_string (execs_count (store_of s0) j)) \<and>
      execs (store_of s2) j = newest (max_stored_executions T') (execs (store_of s0) j @ [json_dumps L (JObj execution)])"
    by (rule recorded [OF tiger_redis_axioms prefix ids refl, of L execution s0]) blast
  have [simp]: "s2 = s1" using s2(1) ex(2) by simp
  have u: "place ?u = place ?t" "task_data ?u = task_data ?t" "executions_so_far ?u i = Suc (executions_so_far ?t i)"
    "execs ?u i = newest (max_stored_executions T) (execs ?t i @ [json_dumps L (JObj execution)])"
    using s2(2,3) s2(4) [of T i] T(2) by (simp_all add: ex(3) executions_so_far_def incr_string_def del: tiger_view_simps)
  obtain ys where ys: "execs ?u i = ys @ [json_dumps L (JObj execution)]"
    using newest_nonempty [OF T(7)] u(4) by metis
  have at: "task_at ?u ACTIVE q i" "task_data ?u i \<noteq> None"
    using assms(2,3) u(1,2) by (simp_all add: task_at_def task_score_def)
  obtain r s2 where run: "finish_task_processing L P R C (exit_worker_on_job_timeout E) T False s1 = (r, s2)" by fastforce
  let ?n = "executions_so_far ?t i"
  have num: "(case execs_count ?u i of None \<Rightarrow> 0 | Some c \<Rightarrow> nat_of_dec c) = Suc ?n"
    using u(3) by (simp only: executions_so_far_def)
  have attempt: "max 1 (int (Suc ?n)) = int (Suc ?n)" by simp
  note outcome = failed_task_outcome_lemma [OF tiger_world_axioms T(1,2) ok(2) T(3,5) at ys json_dumps_nonempty [OF assms(4)]
      loads_dict_dumps [OF assms(4)] ex(4,5) T(8,6) ok(13) refl refl refl refl refl run]
  have moved: "\<exists>ts. store_of s2 = move_in_store p i q ACTIVE (Some (if ?n < m then SCHEDULED else ERROR)) (is_unique T) ts ''''
      (PUBLISH_QUEUED_TASKS C) ?u"
    using outcome ok(14) [of "Suc ?n"] unfolding num attempt
    by (auto simp del: tiger_view_simps or_now.simps split: if_splits)
  have data: "r_get R (task_key p i) s = Some x"
    using assms(2) ok(2) by (simp add: get_str kind_task)
  have parsed: "parse_tasks L R C q now [(i, Some x)] s = (Inr [T], s)"
    using ok(3,4) T(2) by (simp add: T_def)
  have "execute_task_group L P R C E funcs utcnow q [T] None s = (Inr (False, [T]), s1)"
    by (simp add: execute_task_group_def T(4) ex(1) prepare_aperiodic [OF T(3) ok(7)] release_locks_def)
  then have "\<exists>r. process_queue_tasks L P R C E funcs utcnow q None [i] now s = (r, s2)"
    by (cases r) (simp_all add: process_queue_tasks_def data parsed T(3) run del: tiger_view_simps parse_tasks.simps)
  with moved u show ?thesis by blast
qed

end

lemma zlist_single:
  assumes "\<And>j. zget z j = (if j = i then Some sc else None)"
  shows "zlist z = [(sc, i)]"
proof -
  have "z = zins sc i zempty" by (rule zset_eqI) (simp add: assms fun_eq_iff)
  then show ?thesis by (simp add: zlist_eval)
qed

lemma executions_so_far_move [simp]:
  "executions_so_far (move_in_store p i q st (Some st') unique ts mode publish t) = executions_so_far t"
  by (simp add: executions_so_far_def fun_eq_iff move_in_store_def move_to_def Let_def store_defs)

lemma executions_so_far_take [simp]:
  "executions_so_far (take_in_store q ms now later t) = executions_so_far t"
  "executions_so_far (due_in_store q ms now t) = executions_so_far t"
  "executions_so_far (send c y t) = executions_so_far t"
  by (simp_all add: executions_so_far_def fun_eq_iff take_in_store_def due_in_store_def pop_in_store_def Let_def store_defs)

context tiger_world
begin

lemma process_from_failed:
  assumes "retried_task L R P C E funcs q i x m" "task_data (store_of s) i = Some x" "pylib_ok L"
    and "queue_max_workers W q = None" "0 < get_queue_batch_size C q"
    and "\<And>j. task_at (store_of s) QUEUED q j \<longleftrightarrow> j = i" "\<not> task_at (store_of s) ACTIVE q i"
  shows "\<exists>s' now later ts unique u. snd (process_from_queue L P R C E funcs utcnow W q s) = s' \<and>
    store_of s' = move_in_store p i q ACTIVE
      (Some (if executions_so_far (store_of s) i < m then SCHEDULED else ERROR)) unique ts '''' (PUBLISH_QUEUED_TASKS C) u \<and>
    place u = place (take_in_store q [i] now later (store_of s)) \<and> task_data u = task_data (store_of s) \<and>
    executions_so_far u i = Suc (executions_so_far (store_of s) i)"
proof -
  obtain now s1 where s1: "read_time P s = (now, s1)" by fastforce
  obtain now' s2 where s2: "read_time P s1 = (now', s2)" by fastforce
  have store: "store_of s2 = store_of s"
    using view_read_time [of s] view_read_time [of s1] s1 s2 by simp
  define later where "later = now' + LOCK_RETRY C"
  obtain sc where sc: "task_score (store_of s) QUEUED q i = Some sc"
    using assms(6) [of i] by (auto simp: task_at_def simp del: tiger_view_simps)
  have "task_score (store_of s) QUEUED q j = None" if "j \<noteq> i" for j
    using assms(6) [of j] that by (simp add: task_at_def del: tiger_view_simps)
  then have "zlist (place (store_of s) QUEUED q) = [(sc, i)]"
    using sc by (intro zlist_single) (simp add: zget_place del: tiger_view_simps)
  then have popped: "popped_tasks R p QUEUED q None (get_queue_batch_size C q) s2 = [i]"
    using assms(5) by (simp add: popped_tasks_eq store limit_take_def del: tiger_view_simps)
  obtain ids s3 where s3: "take_tasks R C q (get_queue_batch_size C q) now later s2 = (ids, s3)" by fastforce
  have ids: "ids = [i]"
    using fst_take_tasks [OF prefix, of q "get_queue_batch_size C q" now later s2] assms(7)
    by (simp add: s3 popped new_members_def task_at_def task_score_def store del: tiger_view_simps)
  have taken: "store_of s3 = take_in_store q [i] now later (store_of s)"
    using store_take [OF prefix, of q "get_queue_batch_size C q" now later s2]
    by (simp add: s3 popped store del: tiger_view_simps)
  have "task_data (store_of s3) i = Some x" "task_at (store_of s3) ACTIVE q i"
    using assms(2) by (simp_all add: taken task_data_take task_at_def take_in_store_score del: tiger_view_simps)
  from process_failed [OF assms(1) this assms(3), of utcnow now] obtain r s4 u ts unique where
    run: "process_queue_tasks L P R C E funcs utcnow q None [i] now s3 = (r, s4)"
    "store_of s4 = move_in_store p i q ACTIVE
      (Some (if executions_so_far (store_of s) i < m then SCHEDULED else ERROR)) unique ts '''' (PUBLISH_QUEUED_TASKS C) u"
    "place u = place (store_of s3)" "task_data u = task_data (store_of s)"
    "executions_so_far u i = Suc (executions_so_far (store_of s) i)"
    unfolding taken task_data_take executions_so_far_take by blast
  have "snd (process_from_queue L P R C E funcs utcnow W q s) = s4"
    by (cases r) (simp_all add: process_from_queue_def s1 s2 Let_def get_queue_lock_def assms(4)
        s3 [unfolded later_def] ids run(1))
  with run(2-5) show ?thesis unfolding taken by blast
qed

lemma process_from_empty:
  assumes "queue_max_workers W q = None" "place (store_of s) QUEUED q = zempty"
  shows "store_of (snd (process_from_queue L P R C E funcs utcnow W q s)) = store_of s"
proof -
  obtain now s1 where s1: "read_time P s = (now, s1)" by fastforce
  obtain now' s2 where s2: "read_time P s1 = (now', s2)" by fastforce
  have store: "store_of s2 = store_of s"
    using view_read_time [of s] view_read_time [of s1] s1 s2 by simp
  have popped: "popped_tasks R p QUEUED q None n s2 = []" for n
    using assms(2) by (simp add: popped_tasks_eq store limit_take_def del: tiger_view_simps)
  obtain ids s3 where s3: "take_tasks R C q (get_queue_batch_size C q) now (now' + LOCK_RETRY C) s2 = (ids, s3)"
    by fastforce
  have "ids = []" "store_of s3 = store_of s"
    using fst_take_tasks [OF prefix, of q "get_queue_batch_size C q" now "now' + LOCK_RETRY C" s2]
      store_take [OF prefix, of q "get_queue_batch_size C q" now "now' + LOCK_RETRY C" s2]
    by (simp_all add: s3 popped new_members_def take_in_store_def store del: tiger_view_simps)
  then show ?thesis
    by (simp add: process_from_queue_def s1 s2 Let_def get_queue_lock_def assms(1) s3 del: tiger_view_simps)
qed

lemma queue_due_store:
  assumes "queue_due_tasks R C now q (W, s) = (W', s')"
  shows "\<exists>b. store_of s' = (if b then send (activity_channel p) q else id)
      (due_in_store q (map snd (limit_take (SCHEDULED_TASK_BATCH_SIZE C)
        (filter (\<lambda>e. fst e \<le> now) (zlist (place (store_of s) SCHEDULED q))))) now (store_of s)) \<and>
    queue_max_workers W' q = queue_max_workers W q"
proof -
  let ?pop = "zpoppush_exists_ignore_update_sets R (queue_key p SCHEDULED q) (queue_key p QUEUED q)
    (state_key p SCHEDULED) (state_key p QUEUED) (Some now) (SCHEDULED_TASK_BATCH_SIZE C) now q s"
  have "(W' = W \<or> W' = W\<lparr>did_work := True\<rparr>) \<and> (s' = snd ?pop \<or> s' = r_publish R (activity_channel p) q (snd ?pop))"
    using assms by (auto simp: queue_due_tasks_def prefix Let_def split: prod.splits if_splits)
  moreover have "queue_max_workers (W\<lparr>did_work := True\<rparr>) q = queue_max_workers W q"
    by (simp add: queue_max_workers_def)
  moreover have "store_of (snd ?pop) = due_in_store q (map snd (limit_take (SCHEDULED_TASK_BATCH_SIZE C)
      (filter (\<lambda>e. fst e \<le> now) (zlist (place (store_of s) SCHEDULED q))))) now (store_of s)"
    unfolding store_due by (simp add: popped_tasks_eq del: tiger_view_simps)
  ultimately show ?thesis
    by (elim conjE disjE) (rule exI [of _ False] exI [of _ True], simp del: tiger_view_simps; fail)+
qed

end

subsection \<open>Rounds\<close>

definition retry_round ::
    "pylib \<Rightarrow> 'r program \<Rightarrow> 'r redis \<Rightarrow> config \<Rightarrow> 'r executor \<Rightarrow> (string \<times> task_func) list \<Rightarrow> int \<Rightarrow> worker
      \<Rightarrow> queue_name \<Rightarrow> 'r \<Rightarrow> 'r" where
  "retry_round L P R C E funcs utcnow W q s =
     (let (now, s1) = read_time P s;
          (W', s2) = queue_due_tasks R C now q (W, s1)
      in snd (process_from_queue L P R C E funcs utcnow W' q s2))"

text \<open>
  Between two rounds only time passes, until what is scheduled in the queue is due.
\<close>

definition all_due :: "'r program \<Rightarrow> 'r redis \<Rightarrow> string \<Rightarrow> queue_name \<Rightarrow> 'r \<Rightarrow> bool" where
  "all_due P R p q s \<longleftrightarrow> (\<forall>i. \<forall>sc \<in> set_option (task_score (tiger_view p (view R s)) SCHEDULED q i).
     sc \<le> fst (read_time P s))"

inductive retry_rounds ::
    "pylib \<Rightarrow> 'r program \<Rightarrow> 'r redis \<Rightarrow> config \<Rightarrow> 'r executor \<Rightarrow> (string \<times> task_func) list \<Rightarrow> worker
      \<Rightarrow> queue_name \<Rightarrow> 'r \<Rightarrow> nat \<Rightarrow> 'r \<Rightarrow> bool" for L P R C E funcs W q s where
  start: "retry_rounds L P R C E funcs W q s 0 s"
| round: "retry_rounds L P R C E funcs W q s n s1 \<Longrightarrow> view R s2 = view R s1 \<Longrightarrow>
    all_due P R (REDIS_PREFIX C) q s2 \<Longrightarrow>
    retry_rounds L P R C E funcs W q s (Suc n) (retry_round L P R C E funcs utcnow W q s2)"

text \<open>Where the task is after \<open>n\<close> rounds, if it has \<open>m\<close> retries, and that nothing else has changed.\<close>

definition state_after :: "nat \<Rightarrow> nat \<Rightarrow> task_state" where
  "state_after m n = (if n = 0 then QUEUED else if n \<le> m then SCHEDULED else ERROR)"

definition retried :: "queue_name \<Rightarrow> task_id \<Rightarrow> nat \<Rightarrow> store \<Rightarrow> nat \<Rightarrow> store \<Rightarrow> bool" where
  "retried q i m t n t' \<longleftrightarrow> task_data t' = task_data t \<and> executions_so_far t' i = min n (Suc m) \<and>
     (\<forall>st. task_at t' st q i \<longleftrightarrow> st = state_after m n) \<and>
     (\<forall>st q' j. q' = q \<and> j = i \<or> task_score t' st q' j = task_score t st q' j)"

context tiger_world
begin

lemma retry_round_store:
  assumes "retried_task L R P C E funcs q i x m" "pylib_ok L" "queue_max_workers W q = None"
    and "0 < get_queue_batch_size C q" "0 < SCHEDULED_TASK_BATCH_SIZE C" "all_due P R p q s"
    and "retried q i m t n (store_of s)" "task_data t i = Some x"
    and alone: "\<And>st j. st = QUEUED \<or> st = SCHEDULED \<Longrightarrow> j \<noteq> i \<Longrightarrow> task_score t st q j = None"
  shows "retried q i m t (Suc n) (store_of (retry_round L P R C E funcs utcnow W q s))"
proof -
  obtain now s1 where s1: "read_time P s = (now, s1)" by fastforce
  then have store: "store_of s1 = store_of s" using view_read_time [of s] by simp
  obtain W' s2 where s2: "queue_due_tasks R C now q (W, s1) = (W', s2)" by fastforce
  define due where "due = map snd (limit_take (SCHEDULED_TASK_BATCH_SIZE C)
        (filter (\<lambda>e. fst e \<le> now) (zlist (place (store_of s) SCHEDULED q))))"
  obtain c where "store_of s2 = (if c then send (activity_channel p) q else id) (due_in_store q due now (store_of s))"
    and W': "queue_max_workers W' q = None"
    using queue_due_store [OF s2] assms(3) unfolding store due_def by auto
  then have two: "task_score (store_of s2) = task_score (due_in_store q due now (store_of s))"
    "place (store_of s2) = place (due_in_store q due now (store_of s))"
    "task_data (store_of s2) = task_data t" "executions_so_far (store_of s2) i = min n (Suc m)"
    using assms(7) by (cases c; auto simp: retried_def task_score_def [abs_def] simp del: tiger_view_simps)+
  have at: "task_at (store_of s) st q i \<longleftrightarrow> st = state_after m n"
    and other: "q' \<noteq> q \<or> j \<noteq> i \<Longrightarrow> task_score (store_of s) st q' j = task_score t st q' j" for st q' j
    using assms(7) by (auto simp: retried_def simp del: tiger_view_simps)
  have others: "task_score (store_of s) st q j = None" if "st = QUEUED \<or> st = SCHEDULED" "j \<noteq> i" for st j
    using alone [OF that] other that by (simp del: tiger_view_simps)
  have due: "due = (if state_after m n = SCHEDULED then [i] else [])"
  proof (cases "task_score (store_of s) SCHEDULED q i")
    case None
    then have "place (store_of s) SCHEDULED q = zempty"
      using others by (intro zset_eqI) (metis zget_place zget_zempty ext)
    then show ?thesis using None at [of SCHEDULED] by (simp add: due_def limit_take_def task_at_def zempty.rep_eq del: tiger_view_simps)
  next
    case (Some sc)
    then have "zlist (place (store_of s) SCHEDULED q) = [(sc, i)]"
      using others by (intro zlist_single) (simp add: zget_place del: tiger_view_simps)
    moreover have "sc \<le> now" using assms(6) Some s1 by (force simp: all_due_def simp del: tiger_view_simps)
    moreover have "state_after m n = SCHEDULED"
      using at [of SCHEDULED] Some by (simp add: task_at_def del: tiger_view_simps)
    ultimately show ?thesis using assms(5) by (simp add: due_def limit_take_def)
  qed
  have at2: "task_at (store_of s2) st q i \<longleftrightarrow> st = (if n \<le> m then QUEUED else ERROR)" for st
    using at [of st] unfolding task_at_def two due_in_store_score due
    by (cases st) (auto simp: state_after_def simp del: not_None_eq tiger_view_simps)
  have other2: "q' \<noteq> q \<or> j \<noteq> i \<Longrightarrow> task_score (store_of s2) st q' j = task_score t st q' j" for st q' j
    using other unfolding two due_in_store_score due by auto
  have alone2: "task_score (store_of s2) QUEUED q j = None" if "j \<noteq> i" for j
    using other2 alone that by (simp del: tiger_view_simps)
  have run: "retry_round L P R C E funcs utcnow W q s = snd (process_from_queue L P R C E funcs utcnow W' q s2)"
    by (simp add: retry_round_def s1 s2)
  show ?thesis
  proof (cases "n \<le> m")
    case True
    have "task_data (store_of s2) i = Some x" "\<not> task_at (store_of s2) ACTIVE q i"
      using two(3) assms(8) at2 True by (simp_all del: tiger_view_simps)
    moreover have "task_at (store_of s2) QUEUED q j \<longleftrightarrow> j = i" for j
      using at2 [of QUEUED] alone2 [of j] True by (cases "j = i") (simp_all add: task_at_def del: not_None_eq tiger_view_simps)
    ultimately
    obtain s' now' later ts unique u where s': "snd (process_from_queue L P R C E funcs utcnow W' q s2) = s'"
      "store_of s' = move_in_store p i q ACTIVE
        (Some (if executions_so_far (store_of s2) i < m then SCHEDULED else ERROR)) unique ts '''' (PUBLISH_QUEUED_TASKS C) u"
      "place u = place (take_in_store q [i] now' later (store_of s2))" "task_data u = task_data (store_of s2)"
      "executions_so_far u i = Suc (executions_so_far (store_of s2) i)"
      using process_from_failed [OF assms(1) _ assms(2) W' assms(4), of s2 utcnow] by blast
    have n: "executions_so_far (store_of s2) i = n" using two(4) True by simp
    have "task_score u = task_score (take_in_store q [i] now' later (store_of s2))"
      using s'(3) by (simp add: fun_eq_iff task_score_def)
    then have score: "task_score (store_of s') st q' j =
        (if q' \<noteq> q \<or> j \<noteq> i then task_score t st q' j
         else if st = (if n < m then SCHEDULED else ERROR) then task_score (store_of s') st q' j
         else None)" for st q' j
      using other2 at2 [of st] at2 [of ACTIVE] True unfolding s'(2) move_in_store_score n
      by (cases st) (auto simp: take_in_store_score task_at_def simp del: not_None_eq tiger_view_simps)
    have there: "task_score (store_of s') (if n < m then SCHEDULED else ERROR) q i \<noteq> None"
      unfolding s'(2) move_in_store_score n by simp
    have "task_at (store_of s') st q i \<longleftrightarrow> st = state_after m (Suc n)" for st
      using score [of st q i] there True by (auto simp: task_at_def state_after_def simp del: tiger_view_simps split: if_splits)
    moreover have "q' = q \<and> j = i \<or> task_score (store_of s') st q' j = task_score t st q' j" for st q' j
      using score [of st q' j] by argo
    moreover have "task_data (store_of s') = task_data t"
      unfolding s'(2) move_in_store_data s'(4) two(3) by simp
    moreover have "executions_so_far (store_of s') i = min (Suc n) (Suc m)"
      using True unfolding s'(2) by (simp add: s'(5) n)
    ultimately show ?thesis unfolding retried_def run s'(1) by blast
  next
    case False
    have "task_score (store_of s2) QUEUED q j = None" for j
      using alone2 [of j] at2 [of QUEUED] False by (cases "j = i") (simp_all add: task_at_def del: tiger_view_simps)
    then have "place (store_of s2) QUEUED q = zempty"
      by (intro zset_eqI) (simp add: task_score_def fun_eq_iff)
    from process_from_empty [OF W' this, of L E funcs utcnow] show ?thesis
      using at2 other2 two(3,4) False unfolding retried_def run
      by (auto simp: state_after_def simp del: tiger_view_simps)
  qed
qed

end

lemma retry_rounds_store:
  assumes "tiger_world R kind p P C" "retried_task L R P C E funcs q i x m" "pylib_ok L"
    and "queue_max_workers W q = None" "0 < get_queue_batch_size C q" "0 < SCHEDULED_TASK_BATCH_SIZE C"
    and t: "t = tiger_view p (view R s)" and "task_data t i = Some x" "executions_so_far t i = 0"
    and "\<And>st. task_at t st q i \<longleftrightarrow> st = QUEUED"
    and "\<And>st j. st = QUEUED \<or> st = SCHEDULED \<Longrightarrow> j \<noteq> i \<Longrightarrow> task_score t st q j = None"
    and "retry_rounds L P R C E funcs W q s n s'"
  shows "retried q i m t n (tiger_view p (view R s'))"
  using assms(12)
proof induction
  case start
  then show ?case using assms(9,10) by (simp add: retried_def state_after_def t del: tiger_view_simps)
next
  case (round n s1 s2 utcnow)
  have "retried q i m t n (tiger_view p (view R s2))" using round by simp
  with tiger_world.retry_round_store [OF assms(1-6) _ _ assms(8,11), of s2 n utcnow] round(3)
  show ?case by (simp add: tiger_world.prefix [OF assms(1)] del: tiger_view_simps)
qed

text \<open>C7: a task that keeps failing is executed once and as often again as its strategy grants retries, no
  matter how many rounds follow. If it is alone among what is queued and scheduled in its queue, then
  each of the first \<open>m\<close> rounds executes it and schedules it again, the next one executes it for the last
  time and makes it an error, and it stays one. Its data is kept, and no other task, queue or state
  changes.\<close>

theorem retries_bounded:
  assumes "tiger_world R kind p P C" "retried_task L R P C E funcs q i x m" "pylib_ok L"
    and "queue_max_workers W q = None" "0 < get_queue_batch_size C q" "0 < SCHEDULED_TASK_BATCH_SIZE C"
    and t: "t = tiger_view p (view R s)" and "task_data t i = Some x" "executions_so_far t i = 0"
    and "\<And>st. task_at t st q i \<longleftrightarrow> st = QUEUED"
    and "\<And>st j. st = QUEUED \<or> st = SCHEDULED \<Longrightarrow> j \<noteq> i \<Longrightarrow> task_score t st q j = None"
    and "retry_rounds L P R C E funcs W q s n s'" and t': "t' = tiger_view p (view R s')"
  shows "executions_so_far t' i = min n (Suc m) \<and> task_data t' = task_data t \<and>
    (\<forall>st. task_at t' st q i \<longleftrightarrow> st = (if n = 0 then QUEUED else if n \<le> m then SCHEDULED else ERROR)) \<and>
    (\<forall>st q' j. q' = q \<and> j = i \<or> task_score t' st q' j = task_score t st q' j)"
  using retry_rounds_store [OF assms(1-12)]
  unfolding retried_def state_after_def t' by blast

text \<open>The strategies of the library grant as many retries as they are told to.\<close>

lemma strategies_grant:
  "1 \<le> k \<Longrightarrow> fixed_delay (int k) w (int m) = (if k \<le> m then Inr w else Inl StopRetry)"
  "1 \<le> k \<Longrightarrow> linear_delay (int k) w increment (int m) =
    (if k \<le> m then Inr (w + increment * of_int (int k - 1)) else Inl StopRetry)"
  "1 \<le> k \<Longrightarrow> exponential_delay (int k) w factor (int m) =
    (if k \<le> m then Inr (w * power_int factor (int k - 1)) else Inl StopRetry)"
  by (auto simp: fixed_delay_def linear_delay_def exponential_delay_def)

subsection \<open>A task with three retries\<close>

text \<open>As long as the time of the server can pass, there is a sequence of any number of rounds.\<close>

lemma retry_rounds_exist:
  assumes "tiger_world R kind p P C" "retried_task L R P C E funcs q i x m" "pylib_ok L"
    and "queue_max_workers W q = None" "0 < get_queue_batch_size C q" "0 < SCHEDULED_TASK_BATCH_SIZE C"
    and t: "t = tiger_view p (view R s)" and "task_data t i = Some x" "executions_so_far t i = 0"
    and "\<And>st. task_at t st q i \<longleftrightarrow> st = QUEUED"
    and alone: "\<And>st j. st = QUEUED \<or> st = SCHEDULED \<Longrightarrow> j \<noteq> i \<Longrightarrow> task_score t st q j = None"
    and clock: "\<And>s c. \<exists>s'. view R s' = view R s \<and> c \<le> fst (read_time P s')"
  shows "\<exists>s'. retry_rounds L P R C E funcs W q s n s'"
proof (induction n)
  case 0
  show ?case by (rule exI, rule retry_rounds.start)
next
  case (Suc n)
  then obtain s1 where s1: "retry_rounds L P R C E funcs W q s n s1" by blast
  have retried: "retried q i m t n (tiger_view p (view R s1))"
    by (rule retry_rounds_store [OF assms(1-6) t assms(8-10) alone s1])
  obtain s2 where s2: "view R s2 = view R s1"
    "(case task_score (tiger_view p (view R s1)) SCHEDULED q i of None \<Rightarrow> 0 | Some sc \<Rightarrow> sc) \<le> fst (read_time P s2)"
    using clock by blast
  have "q' = q \<and> j = i \<or> task_score (tiger_view p (view R s1)) st q' j = task_score t st q' j" for st q' j
    using retried by (simp only: retried_def)
  then have "j = i" if "task_score (tiger_view p (view R s1)) SCHEDULED q j = Some sc" for j sc
    using alone [of SCHEDULED j] that by (metis option.distinct(1))
  then have "all_due P R p q s2"
    using s2 by (auto simp: all_due_def simp del: tiger_view_simps)
  then show ?case
    using retry_rounds.round [OF s1 s2(1)] tiger_world.prefix [OF assms(1)] by metis
qed

definition ex_fragile :: dict where
  "ex_fragile = [(''id'', JStr ''x''), (''func'', JStr ''m:f''),
     (''retry_method'', JList [JStr ''r:fixed'', JList [JNum 60, JNum 3]])]"

definition ex_fragile_program :: "memdb program" where
  "ex_fragile_program = (ex_raising KeyError)\<lparr>resolve_retry := (\<lambda>m a. Some ex_retries)\<rparr>"

abbreviation ex_fragile_executor :: "memdb executor" where
  "ex_fragile_executor \<equiv> sync_executor num_lib ex_fragile_program tmem ex_config True"

definition ex_fragile_queued :: memdb where
  "ex_fragile_queued = enqueue tmem ex_config QUEUED ''q'' ''x'' (json_dumps num_lib (JObj ex_fragile)) 7 mem_empty"

lemma ex_fragile_world: "tiger_world tmem (tiger_kind ''t'') ''t'' ex_fragile_program ex_config"
  by unfold_locales (simp_all add: ex_fragile_program_def ex_raising_def ex_program_def ex_config_def default_config_def)

lemma ex_fragile_fields:
  "entry_string ''id'' ex_fragile = Inr ''x''" "entry_string ''func'' ex_fragile = Inr ''m:f''"
  by (simp_all add: ex_fragile_def entry_string_def dict_get_def)

lemma ex_fragile_stored [simp]:
  "task_id (stored_task ''q'' ex_fragile st ts xs) = Inr ''x''"
  "serialized_func (stored_task ''q'' ex_fragile st ts xs) = Inr ''m:f''"
  "\<not> has_lock (stored_task ''q'' ex_fragile st ts xs)"
  "serialized_runner_class (stored_task ''q'' ex_fragile st ts xs) = None"
  "retry_on (stored_task ''q'' ex_fragile st ts xs) = []"
  "max_stored_executions (stored_task ''q'' ex_fragile st ts xs) = None"
  "retry_method (stored_task ''q'' ex_fragile st ts xs) = Inr (Some (''r:fixed'', [60, 3]))"
  by (simp_all add: ex_fragile_def stored_task_def task_id_def serialized_func_def entry_string_def dict_get_def
      serialized_runner_class_def get_default_def retry_method_def retry_on_def has_lock_def max_stored_executions_def
      List.map_filter_simps)

lemma ex_fragile_run:
  "run_tasks ex_fragile_program ex_config [stored_task ''q'' ex_fragile (Some ACTIVE) (Some now) []] s = (Inl KeyError, s)"
proof -
  let ?T = "stored_task ''q'' ex_fragile (Some ACTIVE) (Some now) []"
  have "t_func ?T = None" by (simp add: stored_task_def)
  then have "func_of ex_fragile_program ?T = Inr ex_func"
    using str_rsplit_append [of "CHR '':''" "''f''" "''m''"]
    by (simp add: func_of_def import_attribute_def ex_fragile_program_def ex_raising_def ex_program_def)
  moreover have "\<not> is_batch ex_func" by (simp add: is_batch_def ex_func_def plain_func_def the_bool_def)
  moreover have "get_runner_class ex_fragile_program [?T] = Inr (default_runner ex_fragile_program)"
    by (simp add: get_runner_class_def)
  ultimately show ?thesis
    by (simp add: run_tasks_def get_hard_timeouts_def default_runner_def default_single_def ignore_value_def)
      (simp add: ex_fragile_program_def ex_raising_def)
qed

lemma ex_fragile_retried:
  "retried_task num_lib tmem ex_fragile_program ex_config ex_fragile_executor [] ''q'' ''x''
    (json_dumps num_lib (JObj ex_fragile)) 3"
proof -
  have "import_attribute (resolve_retry ex_fragile_program) ''r:fixed'' = Inr ex_retries"
    using str_rsplit_append [of "CHR '':''" "''fixed''" "''r''"]
    by (simp add: ex_fragile_program_def import_attribute_def)
  moreover have "ex_retries (int k) [60, 3] = (if k \<le> 3 then Inr 60 else Inl StopRetry)" for k
    by (simp add: ex_retries_def fixed_delay_def)
  moreover have "always_fails num_lib tmem ''t'' ex_config ex_fragile_executor ''q'' ex_fragile"
    by (rule always_fails_sync [OF ex_fragile_world ex_fragile_fields colon_free_x ex_fragile_run,
          where exc = "\<lambda>_ _. ''builtins:KeyError''"]) (simp add: serialized_class_def)
  ultimately show ?thesis
    unfolding retried_task_def Let_def
    by (simp add: loads_dict_dumps num_lib_ok) (rule exI [of _ "\<lambda>_. 60"], simp)
qed

lemma ex_fragile_store:
  "task_score (ex_store ex_fragile_queued) st q i = (if st = QUEUED \<and> q = ''q'' \<and> i = ''x'' then Some 7 else None)"
  "task_data (ex_store ex_fragile_queued) ''x'' = Some (json_dumps num_lib (JObj ex_fragile))"
  "executions_so_far (ex_store ex_fragile_queued) ''x'' = 0"
proof -
  have empty: "task_score (ex_store mem_empty) st q i = None" "execs_count (ex_store mem_empty) i = None" for st q i
    by (simp_all add: tiger_view_def mem_update_defs task_score_def)
  have "execs_count (enqueue_in_store p st q i x ts b t) = execs_count t" for p st q i x ts b t
    by (simp add: enqueue_in_store_def Let_def store_defs)
  with empty show "task_score (ex_store ex_fragile_queued) st q i = (if st = QUEUED \<and> q = ''q'' \<and> i = ''x'' then Some 7 else None)"
    "task_data (ex_store ex_fragile_queued) ''x'' = Some (json_dumps num_lib (JObj ex_fragile))"
    "executions_so_far (ex_store ex_fragile_queued) ''x'' = 0"
    unfolding ex_fragile_queued_def tiger_mem.store_enqueue [OF ex_config_simps(1) colon_free_x]
    by (simp_all add: enqueue_in_store_score enqueue_in_store_data executions_so_far_def del: tiger_view_simps)
qed

theorem retries_bounded_witness:
  "\<exists>s'. retry_rounds num_lib ex_fragile_program tmem ex_config ex_fragile_executor [] ex_worker ''q'' ex_fragile_queued 5 s' \<and>
    executions_so_far (ex_store s') ''x'' = 4 \<and> task_at (ex_store s') ERROR ''q'' ''x''"
proof -
  have at: "task_at (ex_store ex_fragile_queued) st ''q'' ''x'' \<longleftrightarrow> st = QUEUED" for st
    by (simp add: task_at_def ex_fragile_store del: tiger_view_simps)
  have clock: "\<exists>s'. view tmem s' = view tmem s \<and> c \<le> fst (read_time ex_fragile_program s')" for s c
    by (rule exI [of _ "s\<lparr>m_clock := c\<rparr>"])
      (simp add: ex_fragile_program_def ex_raising_def ex_program_def mem_redis_def mem_view_def)
  have sizes: "0 < get_queue_batch_size ex_config ''q''" "0 < SCHEDULED_TASK_BATCH_SIZE ex_config"
    by (simp_all add: ex_worker_free(2)) (simp add: ex_config_def default_config_def)
  have alone: "task_score (ex_store ex_fragile_queued) st ''q'' j = None" if "j \<noteq> ''x''" for st j
    using that by (simp add: ex_fragile_store del: tiger_view_simps)
  obtain s' where s': "retry_rounds num_lib ex_fragile_program tmem ex_config ex_fragile_executor [] ex_worker ''q''
      ex_fragile_queued 5 s'"
    using retry_rounds_exist [OF ex_fragile_world ex_fragile_retried num_lib_ok ex_worker_free(1) sizes refl
        ex_fragile_store(2,3) at alone clock] by blast
  from retries_bounded [OF ex_fragile_world ex_fragile_retried num_lib_ok ex_worker_free(1) sizes refl
      ex_fragile_store(2,3) at alone s' refl] s'
  show ?thesis by (auto simp del: tiger_view_simps)
qed

end
