(* ===== verification/Worker_Recovery.thy ===== *)
theory Worker_Recovery
  imports Worker_Queues Worker_Selection
begin

text \<open>
  What a worker does from time to time for all: scheduled tasks that are due are queued, and tasks that
  are active without a heartbeat for too long, since their worker has died, are queued again or become
  errors.
\<close>

subsection \<open>Requeueing a batch\<close>

text \<open>A task that can be loaded from an entry of the active state.\<close>

definition loadable :: "pylib \<Rightarrow> store \<Rightarrow> queue_name \<Rightarrow> task_id \<Rightarrow> bool" where
  "loadable L t q i \<longleftrightarrow> q \<noteq> [] \<and> colon_free i \<and> task_at t ACTIVE q i \<and> task_score t ACTIVE q i \<noteq> Some 0 \<and>
     (\<exists>x d. task_data t i = Some x \<and> x \<noteq> [] \<and> loads_dict L x = Inr d \<and>
       task_id (stored_task q d (Some ACTIVE) (task_score t ACTIVE q i) []) = Inr i)"

definition active_task :: "pylib \<Rightarrow> store \<Rightarrow> queue_name \<Rightarrow> task_id \<Rightarrow> task" where
  "active_task L t q i =
     stored_task q (case loads_dict L (the (task_data t i)) of Inl _ \<Rightarrow> [] | Inr d \<Rightarrow> d) (Some ACTIVE)
       (task_score t ACTIVE q i) []"

text \<open>Where it goes, and the scores of its entries afterwards.\<close>

definition expires_to :: "pylib \<Rightarrow> 'r program \<Rightarrow> store \<Rightarrow> queue_name \<Rightarrow> task_id \<Rightarrow> task_state" where
  "expires_to L P t q i =
     (if should_retry_on (resolve_class P) (is_subclass P) (active_task L t q i) (exception_name JobTimeoutException)
      then QUEUED else ERROR)"

definition expired_score :: "pylib \<Rightarrow> 'r program \<Rightarrow> time \<Rightarrow> store \<Rightarrow> task_state \<Rightarrow> queue_name \<Rightarrow> task_id \<Rightarrow> score option" where
  "expired_score L P now t st q i =
     (if st = ACTIVE then None
      else if st \<noteq> expires_to L P t q i then task_score t st q i
      else if st = QUEUED then Some (case task_score t QUEUED q i of None \<Rightarrow> now | Some sc \<Rightarrow> sc)
      else Some now)"

lemma requeue_one:
  assumes "tiger_redis R kind p" "REDIS_PREFIX C = p" and t: "t = tiger_view p (view R s)" and "loadable L t q i"
  shows "\<exists>s' t'. requeue_expired_task L P R C now q i s = (Inr (), s') \<and> t' = tiger_view p (view R s') \<and>
    task_data t' = task_data t \<and>
    (\<forall>st q' j. task_score t' st q' j = (if q' = q \<and> j = i then expired_score L P now t st q i else task_score t st q' j))"
proof -
  from assms(4) obtain x d where ok: "q \<noteq> []" "colon_free i" "task_at t ACTIVE q i" "task_score t ACTIVE q i \<noteq> Some 0"
    "task_data t i = Some x" "x \<noteq> []" "loads_dict L x = Inr d"
    "task_id (stored_task q d (Some ACTIVE) (task_score t ACTIVE q i) []) = Inr i"
    unfolding loadable_def by blast
  obtain r s' where run: "requeue_expired_task L P R C now q i s = (r, s')" by fastforce
  have T: "active_task L t q i = stored_task q d (Some ACTIVE) (task_score t ACTIVE q i) []"
    unfolding active_task_def ok(5) option.sel ok(7) by simp
  have "r = Inr () \<and> tiger_view p (view R s') =
      move_in_store p i q ACTIVE (Some (expires_to L P t q i)) (is_unique (active_task L t q i)) now
        (if expires_to L P t q i = QUEUED then ''nx'' else '''') (PUBLISH_QUEUED_TASKS C) t"
    using expired_task_requeued_lemma [OF assms(1,2) ok(2,1) run t refl _ ok(8,4)] ok(3,5-7)
    by (simp add: expires_to_def T del: tiger_view_simps split: if_splits)
  then have "r = Inr ()" "task_data (tiger_view p (view R s')) = task_data t"
    "task_score (tiger_view p (view R s')) st q' j =
      (if q' = q \<and> j = i then expired_score L P now t st q i else task_score t st q' j)" for st q' j
    by (auto simp: move_in_store_data move_in_store_score expired_score_def placed_score_def expires_to_def
        simp del: tiger_view_simps split: option.split)
  with run show ?thesis by blast
qed

lemma requeue_all:
  assumes "tiger_redis R kind p" "REDIS_PREFIX C = p" and t: "t = tiger_view p (view R s)"
    and "distinct tasks" "\<And>q i. (q, i) \<in> set tasks \<Longrightarrow> loadable L t q i"
  shows "\<exists>s' t'. requeue_expired_tasks L P R C now tasks s = (Inr (), s') \<and> t' = tiger_view p (view R s') \<and>
    task_data t' = task_data t \<and>
    (\<forall>st q i. task_score t' st q i = (if (q, i) \<in> set tasks then expired_score L P now t st q i else task_score t st q i))"
  using assms(3-5)
proof (induction tasks arbitrary: s t)
  case (Cons task tasks)
  obtain q i where task: "task = (q, i)" by (cases task)
  obtain s1 t1 where one: "requeue_expired_task L P R C now q i s = (Inr (), s1)" "t1 = tiger_view p (view R s1)"
    "task_data t1 = task_data t"
    "\<And>st q' j. task_score t1 st q' j = (if q' = q \<and> j = i then expired_score L P now t st q i else task_score t st q' j)"
    using requeue_one [OF assms(1,2) Cons.prems(1), of L q i P now] Cons.prems(3) [of q i] task by auto
  have later: "loadable L t1 q' j \<and> expired_score L P now t1 st q' j = expired_score L P now t st q' j"
    if "(q', j) \<in> set tasks" for q' j st
  proof -
    have "(q', j) \<noteq> (q, i)" using that Cons.prems(2) task by auto
    then have "task_score t1 st q' j = task_score t st q' j" for st using one(4) by auto
    with one(3) Cons.prems(3) [of q' j] that show ?thesis
      by (simp add: loadable_def expired_score_def expires_to_def active_task_def task_at_def)
  qed
  with Cons.IH [OF one(2)] Cons.prems(2)
  obtain s2 t2 where two: "requeue_expired_tasks L P R C now tasks s1 = (Inr (), s2)" "t2 = tiger_view p (view R s2)"
    "task_data t2 = task_data t1"
    "\<forall>st q i. task_score t2 st q i = (if (q, i) \<in> set tasks then expired_score L P now t1 st q i else task_score t1 st q i)"
    by auto
  have "task_score t2 st q' j = (if (q', j) \<in> set (task # tasks) then expired_score L P now t st q' j else task_score t st q' j)" for st q' j
    using two(4) one(4) later [of q' j] Cons.prems(2) task by auto
  with two(1-3) one(1,3) show ?case by (auto simp: task simp del: tiger_view_simps)
qed simp

subsection \<open>A run of the recovery\<close>

definition abandoned :: "time \<Rightarrow> store \<Rightarrow> (queue_name \<times> task_id) set" where
  "abandoned limit t = {(q, i). \<exists>sc. task_score t ACTIVE q i = Some sc \<and> 0 \<le> sc \<and> sc \<le> limit}"

lemma distinct_tagged:
  assumes "distinct qs" "\<And>q. distinct (f q)" "\<And>q x. x \<in> set (f q) \<Longrightarrow> fst x = q"
  shows "distinct (concat (map f qs))"
  using assms(1)
proof (induction qs)
  case (Cons q qs)
  have "x \<notin> set (concat (map f qs))" if "x \<in> set (f q)" for x
    using Cons.prems assms(3) [OF that] by (auto dest: assms(3))
  with Cons assms(2) show ?case by auto
qed simp

lemma expired_entries:
  assumes "tiger_redis R kind p" and t: "t = tiger_view p (view R s)" and "indexed t"
    and entries: "entries = concat (map (expired_in R p limit s) (r_smembers R (state_key p ACTIVE) s))"
  shows "set entries = abandoned limit t \<and> distinct entries"
proof -
  note server = tiger_redis.axioms(1) [OF assms(1)]
  let ?qs = "r_smembers R (state_key p ACTIVE) s"
  have qs: "set ?qs = listed t ACTIVE" "distinct ?qs"
    using redis_server.smembers_set [OF server tiger_redis.kind_state [OF assms(1)], of ACTIVE s]
      redis_server.smembers_distinct [OF server tiger_redis.kind_state [OF assms(1)], of ACTIVE s] by (simp_all add: t)
  have here: "(q', i) \<in> set (expired_in R p limit s q) \<longleftrightarrow> q' = q \<and> (q, i) \<in> abandoned limit t" for q q' i
  proof -
    have "task_score t ACTIVE q i = Some sc \<longleftrightarrow> (sc, i) \<in> set (zlist (zsets (view R s) (queue_key p ACTIVE q)))" for sc
      by (simp add: t task_score_def zget_Some_iff)
    then show ?thesis by (force simp: expired_in_def abandoned_def simp del: tiger_view_simps)
  qed
  have "q \<in> set ?qs" if "(q, i) \<in> abandoned limit t" for q i
  proof -
    have "zget (place t ACTIVE q) i \<noteq> None" using that by (auto simp: abandoned_def task_score_def)
    then have "place t ACTIVE q \<noteq> zempty" by (metis zget_zempty)
    with assms(3) show ?thesis by (simp add: qs(1) indexed_def)
  qed
  then have "set entries = abandoned limit t"
    using here by (auto simp: entries)
  moreover have "distinct entries"
    unfolding entries
  proof (rule distinct_tagged [OF qs(2)])
    show "distinct (expired_in R p limit s q)" for q
    proof -
      have "distinct (map snd (filter g (zlist z)))" for g and z
        by (rule distinct_map_filter [OF zlist_distinct])
      then have "distinct (map (Pair q) (map snd (filter g (zlist z))))" for g z
        by (simp add: distinct_map inj_on_def)
      then show ?thesis by (simp add: expired_in_def comp_def)
    qed
  qed (auto simp: expired_in_def)
  ultimately show ?thesis by simp
qed

text \<open>C8: the recovery of expired tasks, when its lock is free, takes as many of the tasks without a recent
  heartbeat as a batch has: each leaves the active state, and is queued now (or stays where it is in
  the queue) if its function may be retried on a timeout, and is an error from now on otherwise. If a
  batch holds them all, none is left; and no other task, queue or state changes, nor any data. Only the
  tasks need to be loadable.\<close>

theorem expired_tasks_recovered:
  assumes "tiger_world R kind p P C" and t: "t = tiger_view p (view R s)" and "indexed t"
    and "r_lock_acquire R (tiger_key p [''lockv2'', ''queue_expired_tasks'']) (REQUEUE_EXPIRED_TASKS_INTERVAL C) s =
      (Some token, s1)"
    and now: "now = fst (read_time P s1)" and batch: "REQUEUE_EXPIRED_TASKS_BATCH_SIZE C = int batch"
    and old: "old = abandoned (now - ACTIVE_TASK_UPDATE_TIMEOUT C) t"
    and "\<And>q i. (q, i) \<in> old \<Longrightarrow> loadable L t q i"
  shows "\<exists>s' t' tasks. worker_queue_expired_tasks L P R C W s =
      (Inr (), if tasks = {} then W else W\<lparr>did_work := True\<rparr>, s') \<and> t' = tiger_view p (view R s') \<and>
    tasks \<subseteq> old \<and> card tasks = min batch (card old) \<and> (card old \<le> batch \<longrightarrow> tasks = old) \<and>
    task_data t' = task_data t \<and>
    (\<forall>st q i. task_score t' st q i =
      (if (q, i) \<notin> tasks then task_score t st q i
       else if st = ACTIVE then None
       else if st \<noteq> expires_to L P t q i then task_score t st q i
       else Some (case task_score t QUEUED q i of Some sc \<Rightarrow> if st = QUEUED then sc else now | None \<Rightarrow> now)))"
proof -
  note redis = tiger_world.axioms(1) [OF assms(1)] and prefix = tiger_world.prefix [OF assms(1)]
  let ?limit = "now - ACTIVE_TASK_UPDATE_TIMEOUT C"
  obtain s2 where s2: "read_time P s1 = (now, s2)" by (metis now prod.collapse)
  have "tiger_view p (view R s1) = t"
    using tiger_redis.store_lock_acquire [OF redis, of "[''queue_expired_tasks'']" "REQUEUE_EXPIRED_TASKS_INTERVAL C" s]
    by (simp add: assms(4) t del: tiger_view_simps)
  then have t2: "t = tiger_view p (view R s2)"
    using tiger_world.view_read_time [OF assms(1), of s1] s2 by simp
  define entries where "entries = concat (map (expired_in R p ?limit s2) (r_smembers R (state_key p ACTIVE) s2))"
  have entries: "set entries = old" "distinct entries"
    using expired_entries [OF redis t2 assms(3) entries_def] by (simp_all add: old)
  define tasks where "tasks = take batch entries"
  have found: "get_expired_tasks R p ?limit (int batch) s2 = tasks"
    using tiger_redis.get_expired_tasks_concat [OF redis, of "int batch" ?limit s2] by (simp add: tasks_def entries_def)
  have tasks: "set tasks \<subseteq> old" "distinct tasks" "length tasks = min batch (card old)" "card old \<le> batch \<Longrightarrow> tasks = entries"
    using entries set_take_subset [of batch entries] by (auto simp: tasks_def distinct_card [symmetric])
  have loads: "loadable L t q i" if "(q, i) \<in> set tasks" for q i
    using tasks(1) that assms(8) by blast
  from requeue_all [OF redis prefix t2 tasks(2) this, of P now]
  obtain s3 t3 where s3: "requeue_expired_tasks L P R C now tasks s2 = (Inr (), s3)" "t3 = tiger_view p (view R s3)"
    "task_data t3 = task_data t"
    "\<forall>st q i. task_score t3 st q i = (if (q, i) \<in> set tasks then expired_score L P now t st q i else task_score t st q i)"
    by blast
  define s4 where "s4 = (if length tasks = batch
    then snd (r_lock_release R (tiger_key p [''lockv2'', ''queue_expired_tasks'']) token s3) else s3)"
  have "t3 = tiger_view p (view R s4)"
    using tiger_redis.store_lock_release [OF redis, of "[''queue_expired_tasks'']" token s3] by (simp add: s4_def s3(2) del: tiger_view_simps)
  moreover have "worker_queue_expired_tasks L P R C W s = (Inr (), if set tasks = {} then W else W\<lparr>did_work := True\<rparr>, s4)"
    by (simp add: worker_queue_expired_tasks_def prefix assms(4) s2 batch found s3(1) s4_def Let_def)
  moreover have "card (set tasks) = min batch (card old)" by (simp add: distinct_card [OF tasks(2)] tasks(3))
  moreover have "task_score t3 st q i = (if (q, i) \<notin> set tasks then task_score t st q i
       else if st = ACTIVE then None
       else if st \<noteq> expires_to L P t q i then task_score t st q i
       else Some (case task_score t QUEUED q i of Some sc \<Rightarrow> if st = QUEUED then sc else now | None \<Rightarrow> now))" for st q i
    using s3(4) by (simp add: expired_score_def split: option.split)
  ultimately show ?thesis
    using tasks(1,4) entries(1) s3(3) by (intro exI [of _ s4] exI [of _ t3] exI [of _ "set tasks"]) auto
qed

theorem expired_tasks_recovered_witness:
  "\<exists>s'. worker_queue_expired_tasks num_lib ex_program tmem ex_config ex_worker (ex_expired\<lparr>m_clock := 100\<rparr>) =
      (Inr (), ex_worker\<lparr>did_work := True\<rparr>, s') \<and>
    \<not> task_at (ex_store s') ACTIVE ''q'' ''x'' \<and> task_score (ex_store s') ERROR ''q'' ''x'' = Some 100"
proof -
  let ?s = "ex_expired\<lparr>m_clock := 100\<rparr>" and ?lock = "tiger_key ''t'' [''lockv2'', ''queue_expired_tasks'']"
    and ?old = "abandoned (100 - ACTIVE_TASK_UPDATE_TIMEOUT ex_config) (ex_store (ex_expired\<lparr>m_clock := 100\<rparr>))"
  have same: "view tmem ?s = view tmem ex_expired" by (simp add: mem_redis_def mem_view_def)
  have store: "ex_store ?s = put_data ''x'' (json_dumps num_lib (JObj ex_expired_data)) (ex_store ex_running)"
    unfolding same by (rule ex_expired_store)
  have "m_held ?s ?lock = None" by (simp add: ex_expired_def ex_running_def mem_update_defs Let_def)
  then have lock: "r_lock_acquire tmem ?lock (REQUEUE_EXPIRED_TASKS_INTERVAL ex_config) ?s =
      (Some ''token'', ?s\<lparr>m_held := (m_held ?s)(?lock := Some ''token'')\<rparr>)" (is "_ = (_, ?s1)")
    by (simp add: mem_redis_def)
  have now: "100 = fst (read_time ex_program ?s1)" by (simp add: ex_program_def)
  have config: "REQUEUE_EXPIRED_TASKS_BATCH_SIZE ex_config = int 10" "ACTIVE_TASK_UPDATE_TIMEOUT ex_config = 60"
    by (simp_all add: ex_config_def default_config_def)
  have index: "indexed (ex_store ?s)"
    unfolding store by (simp add: indexed_def ex_running_store del: tiger_view_simps)
  have old: "?old = {(''q'', ''x'')}"
    unfolding store by (auto simp: abandoned_def config(2) ex_running_at simp del: tiger_view_simps)
  have data: "task_data (ex_store ?s) ''x'' = Some (json_dumps num_lib (JObj ex_expired_data))"
    unfolding store by simp
  have "loadable num_lib (ex_store ?s) ''q'' ''x''"
    unfolding loadable_def data
    by (auto simp: store loads_dict_dumps num_lib_ok stored_task_def task_id_def ex_expired_data_def entry_string_def dict_get_def
        simp del: tiger_view_simps)
  then have loads: "loadable num_lib (ex_store ?s) q i" if "(q, i) \<in> ?old" for q i using that old by simp
  have "\<not> should_retry_on (resolve_class ex_program) (is_subclass ex_program) (active_task num_lib (ex_store ?s) ''q'' ''x'') n" for n
    unfolding active_task_def data option.sel loads_dict_dumps [OF num_lib_ok]
    by (simp add: stored_task_def dict_get_def ex_expired_data_def should_retry_on_def retry_on_def get_default_def)
  then have "expires_to num_lib ex_program (ex_store ?s) ''q'' ''x'' = ERROR" by (simp add: expires_to_def)
  moreover have "task_score (ex_store ?s) QUEUED ''q'' ''x'' = None" by (simp add: store del: tiger_view_simps)
  ultimately show ?thesis
    using expired_tasks_recovered [OF ex_world refl index lock now config(1) refl loads, where W = ex_worker]
    unfolding old by (auto simp: task_at_def simp del: tiger_view_simps)
qed

subsection \<open>A run over the scheduled tasks\<close>

definition due_batch :: "config \<Rightarrow> time \<Rightarrow> store \<Rightarrow> queue_name \<Rightarrow> task_id set" where
  "due_batch C now t q =
     set (map snd (limit_take (SCHEDULED_TASK_BATCH_SIZE C) (filter (\<lambda>e. fst e \<le> now) (zlist (place t SCHEDULED q)))))"

definition due_score :: "time \<Rightarrow> store \<Rightarrow> task_state \<Rightarrow> queue_name \<Rightarrow> task_id \<Rightarrow> score option" where
  "due_score now t st q i =
     (if st = SCHEDULED then None
      else if st = QUEUED then Some (case task_score t QUEUED q i of None \<Rightarrow> now | Some old \<Rightarrow> old)
      else task_score t st q i)"

definition becomes_queued :: "config \<Rightarrow> time \<Rightarrow> store \<Rightarrow> queue_name \<Rightarrow> bool" where
  "becomes_queued C now t q \<longleftrightarrow> (\<exists>i \<in> due_batch C now t q. \<not> task_at t QUEUED q i)"

lemma due_queues:
  assumes "tiger_redis R kind p" "REDIS_PREFIX C = p" and t: "t = tiger_view p (view R s)" and "distinct qs"
    and "fold (queue_due_tasks R C now) qs (W, s) = (W', s')"
  shows "(\<forall>st q i. task_score (tiger_view p (view R s')) st q i =
      (if q \<in> set qs \<and> i \<in> due_batch C now t q then due_score now t st q i else task_score t st q i)) \<and>
    W' = (if \<exists>q \<in> set qs. becomes_queued C now t q then W\<lparr>did_work := True\<rparr> else W)"
  using assms(3-5)
proof (induction qs arbitrary: s t W)
  case (Cons q qs)
  obtain W1 s1 where one: "queue_due_tasks R C now q (W, s) = (W1, s1)" by fastforce
  let ?t1 = "tiger_view p (view R s1)"
  have scores: "task_score ?t1 st q' i =
      (if q' = q \<and> i \<in> due_batch C now t q then due_score now t st q i else task_score t st q' i)"
    and W1: "W1 = (if becomes_queued C now t q then W\<lparr>did_work := True\<rparr> else W)" for st q' i
    using due_tasks_queued [OF assms(1,2) one Cons.prems(1) refl refl]
    by (simp_all add: due_batch_def due_score_def becomes_queued_def del: tiger_view_simps)
  have other: "due_batch C now ?t1 q' = due_batch C now t q' \<and> due_score now ?t1 st q' i = due_score now t st q' i \<and>
      becomes_queued C now ?t1 q' = becomes_queued C now t q'" if "q' \<noteq> q" for st q' i
  proof -
    have same: "task_score ?t1 st q' i = task_score t st q' i" for st i using scores that by simp
    have "place ?t1 SCHEDULED q' = place t SCHEDULED q'"
      by (rule zset_eqI) (simp add: zget_place same fun_eq_iff del: tiger_view_simps)
    then have "due_batch C now ?t1 q' = due_batch C now t q'" by (simp add: due_batch_def del: tiger_view_simps)
    then show ?thesis
      by (simp add: due_score_def becomes_queued_def task_at_def same del: tiger_view_simps)
  qed
  from Cons.IH [OF refl, of W1 s1] Cons.prems(2,3) one
  have rest: "task_score (tiger_view p (view R s')) st q' i =
      (if q' \<in> set qs \<and> i \<in> due_batch C now ?t1 q' then due_score now ?t1 st q' i else task_score ?t1 st q' i)"
    "W' = (if \<exists>q \<in> set qs. becomes_queued C now ?t1 q then W1\<lparr>did_work := True\<rparr> else W1)" for st q' i
    by (auto simp del: tiger_view_simps)
  have apart: "q' \<noteq> q" if "q' \<in> set qs" for q' using Cons.prems(2) that by auto
  have "task_score (tiger_view p (view R s')) st q' i =
      (if q' \<in> set (q # qs) \<and> i \<in> due_batch C now t q' then due_score now t st q' i else task_score t st q' i)" for st q' i
    using other [of q' st i] apart [of q'] scores [of st q' i] rest(1) [of st q' i] by auto
  moreover have "(\<exists>q' \<in> set qs. becomes_queued C now ?t1 q') \<longleftrightarrow> (\<exists>q' \<in> set qs. becomes_queued C now t q')"
    using other apart by blast
  ultimately show ?case
    unfolding rest(2) W1 by simp
qed simp

text \<open>C9: when a worker looks for scheduled tasks, and no worker for the same queues has done so recently, the
  earliest of the due tasks of every queue that it includes, as many as a batch has, leave the
  scheduled state and are queued now, or stay queued where they are. Of the other tasks, queues and
  states nothing changes.\<close>

theorem scheduled_tasks_queued:
  assumes "tiger_world R kind p P C" "glob_patterns matches" and t: "t = tiger_view p (view R s)" and "indexed t"
    and locked: "(if 0 < QUEUE_SCHEDULED_TASKS_TIME C
      then apfst (\<lambda>token. token \<noteq> None) (r_lock_acquire R
        (tiger_key p [''lockv2'', ''queue_scheduled_tasks'', worker_group_name L W]) (QUEUE_SCHEDULED_TASKS_TIME C) s)
      else (True, s)) = (True, s1)"
    and now: "now = fst (read_time P s1)"
  shows "\<exists>s' t'. worker_queue_scheduled_tasks L matches P R C W s =
      (if \<exists>q. worker_includes W q \<and> becomes_queued C now t q then W\<lparr>did_work := True\<rparr> else W, s') \<and>
    t' = tiger_view p (view R s') \<and>
    (\<forall>st q i. task_score t' st q i =
      (if worker_includes W q \<and> i \<in> due_batch C now t q then
         if st = SCHEDULED then None
         else if st = QUEUED then Some (case task_score t QUEUED q i of None \<Rightarrow> now | Some old \<Rightarrow> old)
         else task_score t st q i
       else task_score t st q i))"
proof -
  note redis = tiger_world.axioms(1) [OF assms(1)] and prefix = tiger_world.prefix [OF assms(1)]
  note server = tiger_redis.axioms(1) [OF redis] and kind = tiger_redis.kind_state [OF redis]
  obtain s2 where s2: "read_time P s1 = (now, s2)" by (metis now prod.collapse)
  have "tiger_view p (view R s1) = t"
    using locked tiger_redis.store_lock_acquire [OF redis, of "[''queue_scheduled_tasks'', worker_group_name L W]"
        "QUEUE_SCHEDULED_TASKS_TIME C" s]
    by (auto simp: t apfst_def map_prod_def simp del: tiger_view_simps split: if_splits prod.splits)
  then have t2: "t = tiger_view p (view R s2)"
    using tiger_world.view_read_time [OF assms(1), of s1] s2 by simp
  define qs where "qs = filter_queues W (retrieve_queues matches R W (state_key p SCHEDULED) s1)"
  have "sets (view R s1) (state_key p SCHEDULED) = listed t SCHEDULED"
    using \<open>tiger_view p (view R s1) = t\<close> by auto
  then have qs: "set qs = {q \<in> listed t SCHEDULED. worker_includes W q}"
    using retrieve_queues_complete [OF assms(2) server kind, of W SCHEDULED s1] by (simp add: qs_def)
  have "distinct qs"
    using redis_server.smembers_distinct [OF server kind, of SCHEDULED s1]
    by (auto simp: qs_def filter_queues_def retrieve_queues_def split: list.split)
  obtain W' s' where run: "fold (queue_due_tasks R C now) qs (W, s2) = (W', s')" by fastforce
  have result: "task_score (tiger_view p (view R s')) st q i =
      (if q \<in> set qs \<and> i \<in> due_batch C now t q then due_score now t st q i else task_score t st q i)"
    "W' = (if \<exists>q \<in> set qs. becomes_queued C now t q then W\<lparr>did_work := True\<rparr> else W)" for st q i
    using due_queues [OF redis prefix t2 \<open>distinct qs\<close> run] by blast+
  have none: "due_batch C now t q = {}" if "q \<notin> listed t SCHEDULED" for q
    using assms(4) that by (auto simp: indexed_def due_batch_def limit_take_def zempty.rep_eq)
  have "worker_queue_scheduled_tasks L matches P R C W s = (W', s')"
    using locked by (simp add: worker_queue_scheduled_tasks_def prefix s2 Let_def run qs_def [symmetric])
  moreover have "(\<exists>q \<in> set qs. becomes_queued C now t q) \<longleftrightarrow> (\<exists>q. worker_includes W q \<and> becomes_queued C now t q)"
    using none by (auto simp: qs becomes_queued_def)
  moreover have "q \<in> set qs \<and> i \<in> due_batch C now t q \<longleftrightarrow> worker_includes W q \<and> i \<in> due_batch C now t q" for q i
    using none [of q] by (auto simp: qs)
  ultimately show ?thesis using result unfolding due_score_def by auto
qed

text \<open>A task that was scheduled for the time 7, at the time 100.\<close>

definition ex_waiting :: memdb where
  "ex_waiting = enqueue tmem ex_config SCHEDULED ''q'' ''x'' ''data'' 7 mem_empty"

lemma ex_waiting_store: "ex_store ex_waiting = enqueue_in_store ''t'' SCHEDULED ''q'' ''x'' ''data'' 7 True (ex_store mem_empty)"
  unfolding ex_waiting_def tiger_mem.store_enqueue [OF ex_config_simps(1) colon_free_x]
  by (simp add: ex_config_def default_config_def)

theorem scheduled_tasks_queued_witness:
  "\<exists>s'. worker_queue_scheduled_tasks num_lib glob_match ex_program tmem ex_config ex_worker (ex_waiting\<lparr>m_clock := 100\<rparr>) =
      (ex_worker\<lparr>did_work := True\<rparr>, s') \<and>
    task_score (ex_store s') QUEUED ''q'' ''x'' = Some 100 \<and> \<not> task_at (ex_store s') SCHEDULED ''q'' ''x''"
proof -
  let ?s = "ex_waiting\<lparr>m_clock := 100\<rparr>"
  define lock where "lock = tiger_key ''t'' [''lockv2'', ''queue_scheduled_tasks'', worker_group_name num_lib ex_worker]"
  have "view tmem ?s = view tmem ex_waiting" by (simp add: mem_redis_def mem_view_def)
  then have store: "ex_store ?s = enqueue_in_store ''t'' SCHEDULED ''q'' ''x'' ''data'' 7 True (ex_store mem_empty)"
    by (simp only: ex_waiting_store)
  have empty: "place (ex_store mem_empty) st q = zempty" for st q by (simp add: tiger_view_def mem_update_defs)
  have place: "place (ex_store ?s) st q = (if st = SCHEDULED \<and> q = ''q'' then zins 7 ''x'' zempty else zempty)" for st q
    unfolding store by (simp add: enqueue_in_store_def Let_def zins_new_def empty del: tiger_view_simps)
  have index: "indexed (ex_store ?s)"
    unfolding store by (rule indexed_enqueue_in_store) (simp add: indexed_def empty tiger_view_def mem_update_defs)
  have config: "SCHEDULED_TASK_BATCH_SIZE ex_config = 1000" "QUEUE_SCHEDULED_TASKS_TIME ex_config = 1"
    by (simp_all add: ex_config_def default_config_def)
  have "m_held ?s lock = None" by (simp add: ex_waiting_def enqueue_def zadd_noupdate_def ex_config_def default_config_def mem_update_defs Let_def)
  then have acquired: "r_lock_acquire tmem lock 1 ?s = (Some ''token'', ?s\<lparr>m_held := (m_held ?s)(lock := Some ''token'')\<rparr>)"
    (is "_ = (_, ?s1)") by (simp add: mem_redis_def)
  then have locked: "(if 0 < QUEUE_SCHEDULED_TASKS_TIME ex_config
      then apfst (\<lambda>token. token \<noteq> None) (r_lock_acquire tmem
        (tiger_key ''t'' [''lockv2'', ''queue_scheduled_tasks'', worker_group_name num_lib ex_worker])
        (QUEUE_SCHEDULED_TASKS_TIME ex_config) ?s)
      else (True, ?s)) = (True, ?s1)"
    by (simp add: config lock_def)
  have now: "100 = fst (read_time ex_program ?s1)" by (simp add: ex_program_def)
  have due: "due_batch ex_config 100 (ex_store ?s) ''q'' = {''x''}"
    by (simp add: due_batch_def place config zlist_eval limit_take_def del: tiger_view_simps)
  have none: "task_score (ex_store ?s) QUEUED ''q'' ''x'' = None"
    by (simp add: task_score_def place del: tiger_view_simps)
  then have "becomes_queued ex_config 100 (ex_store ?s) ''q''"
    by (simp add: becomes_queued_def due task_at_def del: tiger_view_simps)
  moreover have "worker_includes ex_worker ''q''"
    by (simp add: worker_includes_def queue_included_def reversed_dotted_parts_eq dot_positions_def ex_worker_def)
  ultimately show ?thesis
    using scheduled_tasks_queued [OF ex_world globs.glob_patterns_axioms refl index locked now] none
    by (auto simp: due task_at_def simp del: tiger_view_simps)
qed

end
