(* ===== verification/Worker_Traces.thy ===== *)
theory Worker_Traces
  imports Interleaving
begin

text \<open>
  What a worker does is a sequence of the atomic operations, also while others work on the same
  server. In the locale \<open>shared_world\<close> every reading of the clock may find that other clients and
  workers have run operations of their own, and so may every execution of tasks. Whatever happens
  in between, the worker's main loop only adds operations to the sequence, so that all that holds of
  the sequences (theory Interleaving) holds of running workers.
\<close>

subsection \<open>Sequences of operations\<close>

definition op_trace :: "cjson \<Rightarrow> config \<Rightarrow> store \<Rightarrow> store \<Rightarrow> bool" where
  "op_trace J C t t' \<longleftrightarrow> (\<exists>xs. list_all op_ok xs \<and> t' = fold (op_in_store J C) xs t)"

definition ids_colon_free :: "store \<Rightarrow> bool" where
  "ids_colon_free t \<longleftrightarrow> (\<forall>st q i. task_at t st q i \<longrightarrow> colon_free i)"

lemma op_trace_refl [simp]: "op_trace J C t t"
  unfolding op_trace_def by (rule exI [of _ "[]"]) simp

lemma op_trace_trans:
  assumes "op_trace J C t u" "op_trace J C u v"
  shows "op_trace J C t v"
proof -
  from assms obtain xs ys where "list_all op_ok xs" "u = fold (op_in_store J C) xs t"
    "list_all op_ok ys" "v = fold (op_in_store J C) ys u"
    unfolding op_trace_def by blast
  then show ?thesis
    unfolding op_trace_def by (intro exI [of _ "xs @ ys"]) simp
qed

lemma op_trace_step: "op_trace J C t u \<Longrightarrow> op_ok x \<Longrightarrow> op_trace J C t (op_in_store J C x u)"
  by (rule op_trace_trans) (auto simp: op_trace_def intro!: exI [of _ "[x]"])

lemma op_trace_induct:
  assumes "op_trace J C t t'" "Q t" "\<And>x t. op_ok x \<Longrightarrow> Q t \<Longrightarrow> Q (op_in_store J C x t)"
  shows "Q t'"
proof -
  from assms(1) obtain xs where "list_all op_ok xs" "t' = fold (op_in_store J C) xs t"
    unfolding op_trace_def by blast
  with assms(2) show ?thesis
    by (induction xs arbitrary: t) (auto intro: assms(3))
qed

lemma ids_colon_free_op:
  assumes "op_ok x" "ids_colon_free t"
  shows "ids_colon_free (op_in_store J C x t)"
  unfolding ids_colon_free_def
proof (intro allI impI)
  fix st q i
  assume at: "task_at (op_in_store J C x t) st q i"
  show "colon_free i"
  proof (cases "task_at t st q i")
    case False
    from at_op_new [OF assms(1) at this] assms show ?thesis
      by (cases st) (auto simp: ids_colon_free_def list_all_iff)
  qed (use assms(2) in \<open>auto simp: ids_colon_free_def\<close>)
qed

lemma op_trace_ids: "op_trace J C t t' \<Longrightarrow> ids_colon_free t \<Longrightarrow> ids_colon_free t'"
  by (erule op_trace_induct) (auto intro: ids_colon_free_op)

lemma op_trace_nearly: "op_trace J C t t' \<Longrightarrow> nearly_indexed t \<Longrightarrow> nearly_indexed t'"
  by (erule op_trace_induct) (auto intro: nearly_op)

subsection \<open>A world that is shared\<close>

locale shared_world = tiger_redis R kind p
  for R :: "'r redis" and kind :: "key \<Rightarrow> ktype" and p :: string +
  fixes P :: "'r program" and C :: config and J :: cjson
  assumes shared_prefix: "REDIS_PREFIX C = p"
    and shared_timeout: "0 < ACTIVE_TASK_UPDATE_TIMEOUT C"
    and others: "op_trace J C (store_of s) (store_of (snd (read_time P s)))"

sublocale shared_world \<subseteq> quiet: tiger_world R kind p "P\<lparr>read_time := Pair 0\<rparr>" C
  by unfold_locales (simp_all add: shared_prefix shared_timeout)

locale traced_world = shared_world R kind p P C J
  for R :: "'r redis" and kind :: "key \<Rightarrow> ktype" and p :: string
    and P :: "'r program" and C :: config and J :: cjson +
  fixes start :: store
  assumes start_ids: "ids_colon_free start"
begin

abbreviation traced :: "'r \<Rightarrow> bool" where
  "traced s \<equiv> op_trace J C start (store_of s)"

lemma traced_op: "traced s \<Longrightarrow> op_ok x \<Longrightarrow> traced (apply_op R J C x s)"
  by (simp only: quiet.store_apply_op op_trace_step)

lemma traced_move:
  assumes "move_task R (REDIS_PREFIX C) i q ACTIVE to_state unique ts mode (PUBLISH_QUEUED_TASKS C) s = Inr s'"
    and "to_state \<noteq> Some ACTIVE" "traced s"
  shows "traced s'"
proof -
  have "task_at (store_of s) ACTIVE q i"
    using assms(1) move_task_not_found [of s ACTIVE q i] by (fastforce simp: shared_prefix)
  then have "colon_free i"
    using op_trace_ids [OF assms(3) start_ids] by (simp add: ids_colon_free_def del: tiger_view_simps)
  with traced_op [OF assms(3), of "MoveTask i q ACTIVE to_state unique ts mode"] assms(1,2)
  show ?thesis by simp
qed

end

sublocale traced_world \<subseteq> trace: fork_closure R P C traced colon_free
proof unfold_locales
  fix s
  show "traced s'" if "read_time P s = (now, s')" "traced s" for now s'
    using op_trace_trans [OF that(2) others] that(1) by simp
  show "traced (enqueue R C st q i x ts s)"
    if "colon_free i" "st = QUEUED \<or> st = SCHEDULED" "traced s" for i st q x ts
    using traced_op [OF that(3), of "Enqueue st q i x ts"] that(1,2) by simp
  show "traced s'"
    if "move_task R (REDIS_PREFIX C) i q ACTIVE to_state unique ts mode (PUBLISH_QUEUED_TASKS C) s = Inr s'"
      "to_state \<noteq> Some ACTIVE" "traced s" for i q to_state unique ts mode s'
    using that by (rule traced_move)
  show "traced s'" if "take_tasks R C q n now later s = (ids, s')" "traced s" for q n now later ids s'
    using traced_op [OF that(2), of "TakeTasks q n now later"] that(1) by simp
  show "colon_free i" if "take_tasks R C q n now later s = (ids, s')" "traced s" "i \<in> set ids" for q n now later ids s' i
  proof -
    have "i \<in> set (first_queued q n (store_of s))"
      using fst_take_tasks [OF shared_prefix, of q n now later s] that(1,3)
      by (simp add: first_queued_def popped_tasks_eq new_members_def in_scores_def del: tiger_view_simps)
    then have "task_at (store_of s) QUEUED q i"
      by (rule first_at)
    then show ?thesis
      using op_trace_ids [OF that(2) start_ids] by (simp add: ids_colon_free_def del: tiger_view_simps)
  qed
  show "traced (snd (zpoppush_exists_ignore_update_sets R (queue_key (REDIS_PREFIX C) SCHEDULED q)
      (queue_key (REDIS_PREFIX C) QUEUED q) (state_key (REDIS_PREFIX C) SCHEDULED) (state_key (REDIS_PREFIX C) QUEUED)
      (Some now) (SCHEDULED_TASK_BATCH_SIZE C) now q s))" if "traced s" for q now
    using traced_op [OF that, of "QueueDue q now"] by (simp add: Let_def)
  show "traced (r_publish R (activity_channel (REDIS_PREFIX C)) q s)" if "traced s" for q
    using traced_op [OF that, of "Announce q"] by simp
  show "traced (store_one_execution R (REDIS_PREFIX C) x i limit s)" if "colon_free i" "traced s" for i x limit
    using traced_op [OF that(2), of "StoreExecution i x limit"] that(1) by simp
  show "traced s'" if "r_lock_acquire R (tiger_key (REDIS_PREFIX C) (''lockv2'' # parts)) timeout s = (token, s')" "traced s"
    for parts timeout token s'
    using traced_op [OF that(2), of "TryLock parts timeout"] unfolding apply_op.simps that(1) by simp
  show "traced (snd (r_lock_release R (tiger_key (REDIS_PREFIX C) (''lockv2'' # parts)) held_token s))" if "traced s"
    for parts held_token
    using traced_op [OF that, of "FreeLock parts held_token"] by simp
  show "traced (snd (acquire R (queue_semaphore C W q m) now s))" if "traced s" for W q m now
    using traced_op [OF that, of "RequestSlot W q m now"] by simp
  show "traced (release R (queue_semaphore C W q m) s)" if "traced s" for W q m
    using traced_op [OF that, of "FreeSlot W q m"] by simp
  show "traced (worker_heartbeat R C q ids now s)" if "ids \<noteq> []" "\<forall>i \<in> set ids. colon_free i" "traced s" for ids q now
    using traced_op [OF that(3), of "Heartbeat q ids now"] that(1,2) by (simp add: list_all_iff)
  show "traced (snd (r_lock_reacquire R (tiger_key (REDIS_PREFIX C) (''lockv2'' # parts)) token s))" if "traced s"
    for parts token
    using traced_op [OF that, of "RenewLock parts token"] by simp
qed

subsection \<open>The main loop of a worker\<close>

context traced_world
begin

lemmas main_traced = trace.good_worker_main
lemmas sync_traced = trace.application_keeps_sync
lemmas fork_traced = trace.application_keeps_fork

end

text \<open>What the application may do: its code, and whoever runs at the same time, runs operations.\<close>

definition runs_operations :: "'r redis \<Rightarrow> string \<Rightarrow> 'r program \<Rightarrow> config \<Rightarrow> cjson \<Rightarrow> 'r executor \<Rightarrow> bool" where
  "runs_operations R p P C J E \<longleftrightarrow>
     (\<forall>t. ids_colon_free t \<longrightarrow> application_keeps (\<lambda>s. op_trace J C t (tiger_view p (view R s))) colon_free C P E)"

text \<open>C4: the whole life of a worker is a sequence of the atomic operations, in which those that other
  clients and workers run while it works are interleaved: at every reading of the clock, while tasks
  are executed and while the parent of a forked child waits. However many rounds the loop makes and
  wherever it raises, no change to the data is made in any other way; so the index is exact but for
  late heartbeats, and identifiers stay free of colons.\<close>

theorem worker_main_traced:
  assumes "shared_world R kind p P C J" "runs_operations R p P C J E" "\<not> ALWAYS_EAGER C" "pylib_ok L"
    and "worker_main L matches P R C E funcs fresh_id utcnow stopped once force_once its W s = Some (r, W', s')"
    and t: "t = tiger_view p (view R s)" and t': "t' = tiger_view p (view R s')"
    and ids: "\<forall>st q i. task_at t st q i \<longrightarrow> colon_free i"
  shows "(\<exists>xs. list_all op_ok xs \<and> t' = fold (op_in_store J C) xs t) \<and>
    (\<forall>st q i. task_at t' st q i \<longrightarrow> colon_free i) \<and> (indexed t \<longrightarrow> nearly_indexed t')"
proof -
  have world: "traced_world R kind p P C J t"
    using assms(1) ids by (simp add: traced_world_def traced_world_axioms_def ids_colon_free_def)
  have keeps: "application_keeps (\<lambda>s. op_trace J C t (tiger_view p (view R s))) colon_free C P E"
    using assms(2) ids unfolding runs_operations_def ids_colon_free_def by blast
  have "op_trace J C t (tiger_view p (view R s))" unfolding t by (rule op_trace_refl)
  from traced_world.main_traced [OF world keeps assms(3-5) this]
  have "op_trace J C t t'" unfolding t' .
  with op_trace_ids [OF this] op_trace_nearly [OF this] ids indexed_nearly show ?thesis
    unfolding op_trace_def ids_colon_free_def by blast
qed

text \<open>
  Both executors run operations, if the functions that they call and what happens while the parent of
  a forked child waits do.
\<close>

lemma sync_runs_operations:
  assumes "shared_world R kind p P C J"
    and "\<And>t. program_keeps (\<lambda>s. op_trace J C t (tiger_view p (view R s))) P"
  shows "runs_operations R p P C J (sync_executor L P R C tracebacks)"
  using traced_world.sync_traced [OF _ assms(2)] assms(1)
  by (simp add: runs_operations_def traced_world_def traced_world_axioms_def)

lemma fork_runs_operations:
  assumes "shared_world R kind p P C J"
    and "\<And>queue Ts s rd s'. rd \<in> set (observe queue Ts s) \<Longrightarrow>
      op_trace J C (tiger_view p (view R s')) (tiger_view p (view R (meanwhile rd s')))"
    and "\<And>t m a runner T execution. resolve_runner P m a = Some runner \<Longrightarrow>
      keeps (\<lambda>s. op_trace J C t (tiger_view p (view R s))) (on_permanent_error runner T execution)"
  shows "runs_operations R p P C J (fork_executor L P R C observe)"
  unfolding runs_operations_def
proof (intro allI impI)
  fix t assume "ids_colon_free t"
  then have world: "traced_world R kind p P C J t"
    using assms(1) by (simp add: traced_world_def traced_world_axioms_def)
  show "application_keeps (\<lambda>s. op_trace J C t (tiger_view p (view R s))) colon_free C P (fork_executor L P R C observe)"
    by (rule traced_world.fork_traced [OF world]) (use assms(2,3) in \<open>blast intro: op_trace_trans\<close>)+
qed

subsection \<open>A worker next to a client\<close>

text \<open>
  A client queues a task whenever the worker looks at the clock, and another one while the worker
  waits for the child that executes the first.
\<close>

definition ex_shared :: "memdb program" where
  "ex_shared = ex_program\<lparr>read_time := (\<lambda>s.
     (m_clock s, apply_op tmem num_cjson ex_config (Enqueue QUEUED ''q'' ''y'' ''data'' 7) s))\<rparr>"

definition ex_wait :: "memdb wait_round" where
  "ex_wait = \<lparr>poll_before = None,
     meanwhile = apply_op tmem num_cjson ex_config (Enqueue SCHEDULED ''q'' ''z'' ''data'' 9),
     poll_after = Some 0, round_time = 8, kill_status = 0\<rparr>"

definition ex_fork :: "memdb executor" where
  "ex_fork = fork_executor num_lib ex_shared tmem ex_config (\<lambda>_ _ _. [ex_wait])"

lemma ex_op_trace: "op_ok x \<Longrightarrow> op_trace num_cjson ex_config (ex_store s) (ex_store (apply_op tmem num_cjson ex_config x s))"
  unfolding tiger_world.store_apply_op [OF ex_world] by (rule op_trace_step) simp_all

interpretation ex_trace: traced_world tmem "tiger_kind ''t''" "''t''" ex_shared ex_config num_cjson "ex_store ex_queued"
proof unfold_locales
  show "op_trace num_cjson ex_config (ex_store s) (ex_store (snd (read_time ex_shared s)))" for s
    unfolding ex_shared_def using ex_op_trace [of "Enqueue QUEUED ''q'' ''y'' ''data'' 7" s] by (simp add: colon_free_def)
qed (simp_all add: ids_colon_free_def ex_config_def default_config_def)

lemma ex_fork_runs: "runs_operations tmem ''t'' ex_shared ex_config num_cjson ex_fork"
  unfolding ex_fork_def
proof (rule fork_runs_operations [OF ex_trace.shared_world_axioms])
  show "op_trace num_cjson ex_config (ex_store s') (ex_store (meanwhile rd s'))" if "rd \<in> set [ex_wait]" for rd s'
    using that ex_op_trace [of "Enqueue SCHEDULED ''q'' ''z'' ''data'' 9" s'] by (simp add: ex_wait_def colon_free_def)
qed (simp add: ex_shared_def ex_program_def)

theorem worker_main_traced_witness:
  "\<exists>r W' s'. worker_main num_lib (\<lambda>_ _. True) ex_shared tmem ex_config ex_fork [] ''fresh'' 0 (\<lambda>_. False) True True
      [ex_iteration] ex_worker ex_queued = Some (r, W', s') \<and> nearly_indexed (ex_store s') \<and>
    (\<exists>xs. list_all op_ok xs \<and> ex_store s' = fold (op_in_store num_cjson ex_config) xs (ex_store ex_queued))"
proof -
  obtain r W' s' where run: "worker_main num_lib (\<lambda>_ _. True) ex_shared tmem ex_config ex_fork [] ''fresh'' 0
      (\<lambda>_. False) True True [ex_iteration] ex_worker ex_queued = Some (r, W', s')"
    using force_once_returns by (fastforce simp: worker_main_def queue_periodic_tasks_def)
  have "\<forall>st q i. task_at (ex_store ex_queued) st q i \<longrightarrow> colon_free i"
    using ex_trace.start_ids by (simp only: ids_colon_free_def)
  from worker_main_traced [OF ex_trace.shared_world_axioms ex_fork_runs ex_config_simps(2) num_lib_ok run refl refl this]
  show ?thesis using run ex_queued_indexed by blast
qed

subsection \<open>A worker that executes its tasks itself\<close>

text \<open>
  Sequences of operations in which every heartbeat comes while its queue still has active tasks. All
  that a worker with the synchronous executor does in its main thread keeps the index exactly. So it
  is exact if that holds for what comes in between: the operations of other clients and workers, and
  while the application's functions are called theirs and the heartbeats of the executor's second thread.
\<close>

definition in_time_trace :: "cjson \<Rightarrow> config \<Rightarrow> store \<Rightarrow> store \<Rightarrow> bool" where
  "in_time_trace J C t t' \<longleftrightarrow>
     (\<exists>xs. list_all op_ok xs \<and> all_in_time J C xs t \<and> t' = fold (op_in_store J C) xs t)"

definition runs_in_time :: "'r redis \<Rightarrow> string \<Rightarrow> 'r program \<Rightarrow> config \<Rightarrow> cjson \<Rightarrow> bool" where
  "runs_in_time R p P C J \<longleftrightarrow>
     (\<forall>t. program_keeps (\<lambda>s. in_time_trace J C t (tiger_view p (view R s))) P)"

lemma in_time_refl [simp]: "in_time_trace J C t t"
  unfolding in_time_trace_def by (rule exI [of _ "[]"]) simp

lemma in_time_ops: "in_time_trace J C t t' \<Longrightarrow> op_trace J C t t'"
  unfolding in_time_trace_def op_trace_def by blast

lemma in_time_indexed: "in_time_trace J C t t' \<Longrightarrow> indexed t \<Longrightarrow> indexed t'"
  unfolding in_time_trace_def by (blast intro: indexed_ops)

lemma program_keeps_weaken:
  assumes "\<And>t. program_keeps (\<lambda>s. Q t (V s)) P" "\<And>t. Q t t" "\<And>t t'. Q t t' \<Longrightarrow> I t \<Longrightarrow> I t'"
  shows "program_keeps (\<lambda>s. I (V s)) P"
proof -
  have weaken: "keeps (\<lambda>s. I (V s)) f" if "\<And>t. keeps (\<lambda>s. Q t (V s)) f" for f
    using that assms(2,3) unfolding keeps_def by meson
  have weaken_unit: "keeps (\<lambda>s. I (V s)) f" if "\<And>t. keeps (\<lambda>s. Q t (V s)) f" for f
    using that assms(2,3) unfolding keeps_def by meson
  show ?thesis
    unfolding program_keeps_def
    by (intro conjI allI impI weaken weaken_unit) (use assms(1) in \<open>simp_all add: program_keeps_def\<close>)
qed

locale timely_world = shared_world R kind p P C J
  for R :: "'r redis" and kind :: "key \<Rightarrow> ktype" and p :: string
    and P :: "'r program" and C :: config and J :: cjson +
  assumes others_in_time: "in_time_trace J C (store_of s) (store_of (snd (read_time P s)))"

sublocale timely_world \<subseteq> exact: worker_closure R P C "index_exact R p" "\<lambda>_. True"
proof unfold_locales
  show "index_exact R p s'" if "read_time P s = (now, s')" "index_exact R p s" for s now s'
    using in_time_indexed [OF others_in_time that(2)] that(1) by simp
qed (fact quiet.index.good_enqueue quiet.index.good_move_task quiet.index.good_take_tasks quiet.index.good_due
    quiet.index.good_publish quiet.index.good_record quiet.index.good_lock_acquire quiet.index.good_lock_release
    quiet.index.good_acquire quiet.index.good_release | rule TrueI)+

context timely_world
begin

lemmas main_exact = exact.good_worker_main
lemmas sync_exact = exact.application_keeps_sync

end

text \<open>C13: a worker with the synchronous executor, on a server that it shares, keeps the index of
  non-empty queues exactly, provided that no heartbeat comes for a queue that has no active task any
  more: neither from the executor's second thread or from the functions themselves while the worker
  calls functions, nor from others when it looks at the clock. Then, however many rounds its loop makes
  and wherever it stops or raises, every state lists exactly the queues that have tasks in it. (The
  loop of the forking executor's parent sends heartbeats itself; of a worker with it, the same holds
  but for the active state, which may miss a queue.)\<close>

theorem sync_worker_indexed:
  assumes "timely_world R kind p P C J" "runs_in_time R p P C J" "\<not> ALWAYS_EAGER C" "pylib_ok L"
    and "worker_main L matches P R C (sync_executor L P R C tracebacks) funcs fresh_id utcnow stopped once force_once its W s
      = Some (r, W', s')"
    and "indexed (tiger_view p (view R s))"
  shows "indexed (tiger_view p (view R s'))"
proof -
  have "program_keeps (index_exact R p) P"
    by (rule program_keeps_weaken [where Q = "in_time_trace J C"])
      (use assms(2) in \<open>auto simp: runs_in_time_def intro: in_time_indexed\<close>)
  from timely_world.main_exact [OF assms(1) timely_world.sync_exact [OF assms(1) this] assms(3-6)] show ?thesis .
qed

interpretation ex_timely: timely_world tmem "tiger_kind ''t''" "''t''" ex_shared ex_config num_cjson
proof unfold_locales
  fix s
  have "op_ok (Enqueue QUEUED ''q'' ''y'' ''data'' 7)" by (simp add: colon_free_def)
  from tiger_world.store_apply_op [OF ex_world this, of num_cjson s] this
  show "in_time_trace num_cjson ex_config (ex_store s) (ex_store (snd (read_time ex_shared s)))"
    unfolding in_time_trace_def ex_shared_def
    by (intro exI [of _ "[Enqueue QUEUED ''q'' ''y'' ''data'' 7]"]) (simp del: tiger_view_simps apply_op.simps op_in_store.simps)
qed

theorem sync_worker_indexed_witness:
  "\<exists>r W' s'. worker_main num_lib (\<lambda>_ _. True) ex_shared tmem ex_config
      (sync_executor num_lib ex_shared tmem ex_config True) [] ''fresh'' 0 (\<lambda>_. False) True True
      [ex_iteration] ex_worker ex_requeued = Some (r, W', s') \<and> indexed (ex_store s')"
proof -
  obtain r W' s' where run: "worker_main num_lib (\<lambda>_ _. True) ex_shared tmem ex_config
      (sync_executor num_lib ex_shared tmem ex_config True) [] ''fresh'' 0 (\<lambda>_. False) True True [ex_iteration]
      ex_worker ex_requeued = Some (r, W', s')"
    using force_once_returns by (fastforce simp: worker_main_def queue_periodic_tasks_def)
  have "runs_in_time tmem ''t'' ex_shared ex_config num_cjson"
    using ex_program_keeps by (simp add: runs_in_time_def program_keeps_def ex_shared_def)
  from sync_worker_indexed [OF ex_timely.timely_world_axioms this ex_config_simps(2) num_lib_ok run ex_requeued_indexed] run
  show ?thesis by blast
qed

end
