(* ===== verification/Stored_Data.thy ===== *)
theory Stored_Data
  imports Worker_Traces
begin

text \<open>
  The data of tasks under every interleaving of clients and workers. A task and its data are separate
  keys of the server, and heartbeats and removals do not look at all places of a task. The first part
  says exactly when a task loses its data and when it gets to a second place; the second part that data
  which is there is always what a worker expects, and what the worker makes of tasks without data.
\<close>

subsection \<open>Every task has its data\<close>

text \<open>
  A step that leaves the task somewhere without data: a heartbeat for a task that is gone already, or a
  removal that deletes the data of a task which is somewhere else as well. A unique task keeps its data
  if it is in another state of the same queue, since the script looks there.
\<close>

fun loses_data :: "task_id \<Rightarrow> store \<Rightarrow> server_op \<Rightarrow> bool" where
  "loses_data i t (Heartbeat q ids now) \<longleftrightarrow> i \<in> set ids \<and> task_data t i = None"
| "loses_data i t (MoveTask j q from_state to_state unique ts mode) \<longleftrightarrow> j = i \<and> to_state = None \<and>
     task_at t from_state q i \<and> \<not> (unique \<and> (\<exists>st. st \<noteq> from_state \<and> task_at t st q i)) \<and>
     (\<exists>st q'. (st, q') \<noteq> (from_state, q) \<and> task_at t st q' i)"
| "loses_data i t _ \<longleftrightarrow> False"

text \<open>A step that puts the task to a second place.\<close>

fun doubles :: "task_id \<Rightarrow> store \<Rightarrow> server_op \<Rightarrow> bool" where
  "doubles i t (Enqueue st q j x ts) \<longleftrightarrow> j = i \<and> (\<exists>st' q'. (st', q') \<noteq> (st, q) \<and> task_at t st' q' i)"
| "doubles i t (Heartbeat q ids now) \<longleftrightarrow> i \<in> set ids \<and> (\<exists>st' q'. (st', q') \<noteq> (ACTIVE, q) \<and> task_at t st' q' i)"
| "doubles i t _ \<longleftrightarrow> False"

definition has_data :: "task_id \<Rightarrow> store \<Rightarrow> bool" where
  "has_data i t \<longleftrightarrow> (\<forall>st q. task_at t st q i \<longrightarrow> task_data t i \<noteq> None)"

definition one_place :: "task_id \<Rightarrow> store \<Rightarrow> bool" where
  "one_place i t \<longleftrightarrow> (\<forall>st q st' q'. task_at t st q i \<and> task_at t st' q' i \<longrightarrow> st = st' \<and> q = q')"

lemma has_data_frame:
  "(\<And>st q. task_at t' st q i \<Longrightarrow> \<exists>st q. task_at t st q i) \<Longrightarrow> (task_data t i \<noteq> None \<Longrightarrow> task_data t' i \<noteq> None) \<Longrightarrow>
    has_data i t \<Longrightarrow> has_data i t'"
  unfolding has_data_def by blast

lemma has_data_step:
  assumes "op_ok x" "has_data i t"
  shows "has_data i (op_in_store J C x t) \<longleftrightarrow> \<not> loses_data i t x"
proof (cases x)
  case (MoveTask j q from_state to_state unique ts mode)
  then show ?thesis
    using assms by (cases "to_state") (auto simp: has_data_def at_move move_in_store_data split: if_splits)
next
  case (Heartbeat q ids now)
  then show ?thesis
    using assms(2) unfolding Heartbeat op_in_store.simps has_data_def at_heartbeat by auto
next
  case (Reschedule q j ts)
  have "task_data t i \<noteq> None \<Longrightarrow> task_data (op_in_store J C x t) i \<noteq> None"
    by (rule data_op) (simp_all add: Reschedule)
  then show ?thesis
    using has_data_frame [of "op_in_store J C x t" i t] assms(2) by (simp add: Reschedule at_reschedule del: op_in_store.simps) blast
qed (use assms in \<open>auto simp: has_data_def at_ops task_data_take dest: first_at split: if_splits\<close>)

lemma one_place_frame:
  "(\<And>st q. task_at t' st q i \<longleftrightarrow> task_at t st q i) \<Longrightarrow> one_place i t' = one_place i t"
  by (simp add: one_place_def)

lemma one_place_more:
  assumes "one_place i t" "\<And>st' q'. task_at t' st' q' i \<longleftrightarrow> task_at t st' q' i \<or> st' = st \<and> q' = q"
  shows "one_place i t' \<longleftrightarrow> \<not> (\<exists>st' q'. (st', q') \<noteq> (st, q) \<and> task_at t st' q' i)"
proof
  assume "one_place i t'"
  moreover have "task_at t' st q i" using assms(2) by simp
  ultimately show "\<not> (\<exists>st' q'. (st', q') \<noteq> (st, q) \<and> task_at t st' q' i)"
    using assms(2) unfolding one_place_def by blast
next
  assume "\<not> (\<exists>st' q'. (st', q') \<noteq> (st, q) \<and> task_at t st' q' i)"
  then have "task_at t' st' q' i \<Longrightarrow> st' = st \<and> q' = q" for st' q'
    using assms(2) by auto
  then show "one_place i t'" unfolding one_place_def by blast
qed

lemma one_place_moved:
  assumes "one_place i t" "task_at t a q i" "\<And>st q'. task_at t' st q' i \<Longrightarrow> q' \<noteq> q \<or> st \<noteq> b \<Longrightarrow> task_at t st q' i \<and> (q' \<noteq> q \<or> st \<noteq> a)"
  shows "one_place i t'"
proof -
  have "st = b \<and> q' = q" if "task_at t' st q' i" for st q'
    using assms(3) [OF that] assms(1,2) unfolding one_place_def by blast
  then show ?thesis unfolding one_place_def by blast
qed

lemma one_place_step:
  assumes "op_ok x" "one_place i t"
  shows "one_place i (op_in_store J C x t) \<longleftrightarrow> \<not> doubles i t x"
proof (cases x)
  case (Enqueue st q j y ts)
  show ?thesis
  proof (cases "j = i")
    case True
    have "one_place i (op_in_store J C x t) \<longleftrightarrow> \<not> (\<exists>st' q'. (st', q') \<noteq> (st, q) \<and> task_at t st' q' i)"
      by (rule one_place_more [OF assms(2)]) (simp add: Enqueue True at_enqueue)
    then show ?thesis by (simp add: Enqueue True)
  next
    case False
    then have "one_place i (op_in_store J C x t) = one_place i t"
      by (intro one_place_frame) (auto simp: Enqueue at_enqueue)
    with assms(2) False show ?thesis by (simp add: Enqueue)
  qed
next
  case (MoveTask j q from_state to_state unique ts mode)
  show ?thesis
  proof (cases "j = i \<and> task_at t from_state q i \<and> (to_state = None \<or> known_mode (none_to_empty_str mode))")
    case True
    have "one_place i (op_in_store J C x t)"
      by (rule one_place_moved [OF assms(2), of from_state q _ "case to_state of Some st \<Rightarrow> st | None \<Rightarrow> from_state"])
        (use True in \<open>auto simp: MoveTask at_move split: if_splits option.splits\<close>)
    then show ?thesis by (simp add: MoveTask)
  next
    case False
    have "task_at (op_in_store J C x t) st q' i \<longleftrightarrow> task_at t st q' i" for st q'
      using False by (auto simp: MoveTask at_move)
    then have "one_place i (op_in_store J C x t)" using assms(2) by (simp only: one_place_def simp_thms)
    then show ?thesis by (simp add: MoveTask)
  qed
next
  case (Heartbeat q ids now)
  show ?thesis
  proof (cases "i \<in> set ids")
    case True
    have "one_place i (op_in_store J C x t) \<longleftrightarrow> \<not> (\<exists>st' q'. (st', q') \<noteq> (ACTIVE, q) \<and> task_at t st' q' i)"
      by (rule one_place_more [OF assms(2)]) (use True in \<open>auto simp only: Heartbeat op_in_store.simps at_heartbeat\<close>)
    with True show ?thesis by (simp only: Heartbeat doubles.simps simp_thms)
  next
    case False
    have "one_place i (op_in_store J C x t) = one_place i t"
      by (rule one_place_frame) (use False in \<open>simp only: Heartbeat op_in_store.simps at_heartbeat simp_thms\<close>)
    with assms(2) False show ?thesis by (simp only: Heartbeat doubles.simps simp_thms)
  qed
next
  case (Reschedule q j ts)
  then show ?thesis
    using assms(2) by (simp only: one_place_def at_reschedule doubles.simps simp_thms)
next
  case (TakeTasks q n now later)
  have "one_place i (op_in_store J C x t)"
  proof (cases "i \<in> set (first_queued q n t)")
    case True
    then have queued: "task_at t QUEUED q i" by (rule first_at)
    then have "\<not> task_at t SCHEDULED q i" "\<not> task_at t ACTIVE q i" "\<not> task_at t ERROR q i"
      using assms(2) by (auto simp: one_place_def)
    then show ?thesis
      by (intro one_place_moved [OF assms(2) queued, of _ ACTIVE]) (auto simp: TakeTasks at_take True split: if_splits)
  next
    case False
    then have "task_at (op_in_store J C x t) st q' i \<longleftrightarrow> task_at t st q' i" for st q'
      by (auto simp: TakeTasks at_take)
    then show ?thesis using assms(2) by (simp only: one_place_def simp_thms)
  qed
  then show ?thesis by (simp add: TakeTasks)
next
  case (QueueDue q now)
  have "one_place i (op_in_store J C x t)"
  proof (cases "i \<in> set (first_due q now (SCHEDULED_TASK_BATCH_SIZE C) t)")
    case True
    then have "task_at t SCHEDULED q i" by (rule first_at)
    then show ?thesis
      by (intro one_place_moved [OF assms(2), of SCHEDULED q _ QUEUED]) (auto simp: QueueDue at_due True split: if_splits)
  next
    case False
    then have "task_at (op_in_store J C x t) st q' i \<longleftrightarrow> task_at t st q' i" for st q'
      by (auto simp: QueueDue at_due)
    then show ?thesis using assms(2) by (simp only: one_place_def simp_thms)
  qed
  then show ?thesis by (simp add: QueueDue)
qed (use assms(2) in \<open>auto simp: one_place_def\<close>)

text \<open>An invariant that each step keeps exactly if it is not of a certain kind.\<close>

lemma exact_invariant:
  assumes "I (t 0)" "\<And>n. n < N \<Longrightarrow> I (t n) \<Longrightarrow> I (t (Suc n)) \<longleftrightarrow> \<not> B n"
  shows "(\<forall>n \<le> N. I (t n)) \<longleftrightarrow> (\<forall>n < N. \<not> B n)"
proof
  assume "\<forall>n \<le> N. I (t n)"
  with assms(2) show "\<forall>n < N. \<not> B n" by (metis Suc_leI less_imp_le_nat)
next
  assume kept: "\<forall>n < N. \<not> B n"
  have "n \<le> N \<Longrightarrow> I (t n)" for n
    by (induction n) (use assms kept in \<open>simp_all add: Suc_le_eq\<close>)
  then show "\<forall>n \<le> N. I (t n)" by blast
qed

context tiger_world
begin

lemma store_after:
  "n < length xs \<Longrightarrow> list_all op_ok xs \<Longrightarrow>
    store_of (fold (apply_op R J C) (take (Suc n) xs) s) =
      op_in_store J C (xs ! n) (store_of (fold (apply_op R J C) (take n xs) s))"
  by (simp add: take_Suc_conv_app_nth store_apply_op list_all_length del: tiger_view_simps)

end

text \<open>C1: exactly when a task keeps its data, and exactly when it stays in one place, under every
  interleaving of clients and workers. A task that starts with its data has it at every moment that it
  is anywhere, so that whoever takes it can run it, if and only if no heartbeat comes for it when it is
  gone, and no removal deletes its data while it is somewhere else as well: in another queue, or, not
  being unique, in another state. A task that starts in at most one place never gets to a second one if
  and only if it is never queued, and no heartbeat comes for it, while it is in a different place.\<close>

theorem interleaving_backed:
  assumes "tiger_world R kind p P C" "list_all op_ok xs"
    and t: "t = (\<lambda>n. tiger_view p (view R (fold (apply_op R J C) (take n xs) s)))"
    and "\<forall>st q. task_at (t 0) st q i \<longrightarrow> task_data (t 0) i \<noteq> None"
    and "\<forall>st q st' q'. task_at (t 0) st q i \<and> task_at (t 0) st' q' i \<longrightarrow> st = st' \<and> q = q'"
  shows "((\<forall>n \<le> length xs. \<forall>st q. task_at (t n) st q i \<longrightarrow> task_data (t n) i \<noteq> None) \<longleftrightarrow>
      (\<forall>n < length xs. \<not> loses_data i (t n) (xs ! n))) \<and>
    ((\<forall>n \<le> length xs. \<forall>st q st' q'. task_at (t n) st q i \<and> task_at (t n) st' q' i \<longrightarrow> st = st' \<and> q = q') \<longleftrightarrow>
      (\<forall>n < length xs. \<not> doubles i (t n) (xs ! n)))"
proof -
  have step: "t (Suc n) = op_in_store J C (xs ! n) (t n)" "op_ok (xs ! n)" if "n < length xs" for n
    using tiger_world.store_after [OF assms(1) that assms(2)] that assms(2) by (simp_all only: t list_all_length)
  have "has_data i (t 0)" "one_place i (t 0)"
    using assms(4,5) by (simp_all only: has_data_def one_place_def)
  from exact_invariant [where I = "has_data i" and t = t, OF this(1), of "length xs" "\<lambda>n. loses_data i (t n) (xs ! n)"]
    exact_invariant [where I = "one_place i" and t = t, OF this(2), of "length xs" "\<lambda>n. doubles i (t n) (xs ! n)"]
  show ?thesis
    unfolding has_data_def [symmetric] one_place_def [symmetric]
    by (simp only: step has_data_step one_place_step simp_thms)
qed

lemma mem_empty_store:
  "task_data (ex_store mem_empty) i = None" "\<not> task_at (ex_store mem_empty) st q i"
  by (simp_all add: tiger_view_def mem_update_defs task_at_def task_score_def)

theorem interleaving_backed_witness:
  "(\<exists>st. task_at (ex_store (fold (apply_op tmem num_cjson ex_config) ex_ops mem_empty)) st ''q'' ''x'') \<and>
   task_data (ex_store (fold (apply_op tmem num_cjson ex_config) ex_ops mem_empty)) ''x'' \<noteq> None"
proof -
  have "somewhere (ex_store (fold (apply_op tmem num_cjson ex_config) ex_ops mem_empty)) ''q'' ''x''"
    unfolding tiger_world.store_apply_ops [OF ex_world ex_ops_ok(1)] unfolding ex_ops_def
    by (auto simp: somewhere_def at_enqueue simp del: op_in_store.simps(2,3) intro!: somewhere_op [unfolded somewhere_def])
  moreover have "\<not> loses_data i t (ex_ops ! n)" if "n < length ex_ops" for i t n
    using that by (auto simp: ex_ops_def less_Suc_eq)
  ultimately show ?thesis
    using interleaving_backed [OF ex_world ex_ops_ok(1) refl, of num_cjson mem_empty "''x''"]
    unfolding somewhere_def by (simp add: mem_empty_store del: tiger_view_simps) (metis order.refl take_all)
qed

subsection \<open>The data is what its reader expects\<close>

text \<open>
  The data stored for a task is a JSON object that holds the identifier of this very task and the
  name of a function. Of the JSON library that the server's scripts use it is assumed that an object
  whose entry \<^verbatim>\<open>scheduled_at\<close> is changed keeps its other string entries; numbers may lose precision, and
  empty arrays come back as objects.
\<close>

definition typed_data :: "pylib \<Rightarrow> task_id \<Rightarrow> string \<Rightarrow> bool" where
  "typed_data L i x \<longleftrightarrow> x \<noteq> [] \<and> (\<exists>d name. json_loads L x = Some (JObj d) \<and>
     entry_string ''id'' d = Inr i \<and> entry_string ''func'' d = Inr name)"

definition typed :: "pylib \<Rightarrow> store \<Rightarrow> bool" where
  "typed L t \<longleftrightarrow> (\<forall>i x. task_data t i = Some x \<longrightarrow> typed_data L i x)"

fun typed_op :: "pylib \<Rightarrow> server_op \<Rightarrow> bool" where
  "typed_op L (Enqueue st q i x ts) \<longleftrightarrow> typed_data L i x"
| "typed_op L _ \<longleftrightarrow> True"

definition cjson_keeps_strings :: "pylib \<Rightarrow> cjson \<Rightarrow> bool" where
  "cjson_keeps_strings L J \<longleftrightarrow> (\<forall>x d d' ts.
     json_loads L x = Some (JObj d) \<and> cjson_decode J x = Some (JObj d') \<longrightarrow>
     (\<exists>y e. y = cjson_encode J (JObj (dict_set ''scheduled_at'' (JNum ts) d')) \<and> y \<noteq> [] \<and> json_loads L y = Some (JObj e) \<and>
       (\<forall>k v. k \<noteq> ''scheduled_at'' \<and> dict_get d k = Some (JStr v) \<longrightarrow> dict_get e k = Some (JStr v))))"

lemma entry_string_Inr: "entry_string k d = Inr v \<longleftrightarrow> dict_get d k = Some (JStr v)"
  by (auto simp: entry_string_def split: option.splits elim: json_string.elims)

lemma typed_rescheduled:
  assumes "cjson_keeps_strings L J" "typed_data L i x" "cjson_decode J x = Some (JObj d')"
  shows "typed_data L i (cjson_encode J (JObj (dict_set ''scheduled_at'' (JNum ts) d')))"
proof -
  obtain d name where d: "json_loads L x = Some (JObj d)" "dict_get d ''id'' = Some (JStr i)"
    "dict_get d ''func'' = Some (JStr name)"
    using assms(2) by (auto simp: typed_data_def entry_string_Inr)
  from assms(1) [unfolded cjson_keeps_strings_def, rule_format, of x d d' ts] d(1) assms(3) obtain y e where "y = cjson_encode J (JObj (dict_set ''scheduled_at'' (JNum ts) d'))" "y \<noteq> []"
    "json_loads L y = Some (JObj e)"
    "\<forall>k v. k \<noteq> ''scheduled_at'' \<and> dict_get d k = Some (JStr v) \<longrightarrow> dict_get e k = Some (JStr v)"
    by blast
  with d show ?thesis by (simp add: typed_data_def entry_string_Inr)
qed

lemma typed_op_in_store:
  assumes "typed_op L x" "cjson_keeps_strings L J" "typed L t"
  shows "typed L (op_in_store J C x t)"
proof (cases x)
  case (Reschedule q i ts)
  have "typed_data L i (cjson_encode J (JObj (dict_set ''scheduled_at'' (JNum ts) d)))"
    if "task_data t i = Some y" "cjson_decode J y = Some (JObj d)" for y d
    using typed_rescheduled [OF assms(2) _ that(2)] that(1) assms(3) unfolding typed_def by blast
  with assms(3) show ?thesis
    by (auto simp: Reschedule typed_def Let_def bind_eq_Some_conv split: option.split json.split)
qed (use assms(1,3) in \<open>auto simp: typed_def move_in_store_data task_data_take\<close>)

lemma typed_ops:
  "list_all (typed_op L) xs \<Longrightarrow> cjson_keeps_strings L J \<Longrightarrow> typed L t \<Longrightarrow> typed L (fold (op_in_store J C) xs t)"
  by (induction xs arbitrary: t) (simp_all add: typed_op_in_store)

text \<open>What a client queues is typed.\<close>

lemma delay_typed:
  assumes "tiger_redis R kind p" "pylib_ok L" "\<not> ALWAYS_EAGER C"
    and "the_queue T = Inr q" "task_id T = Inr i" "serialized_func T = Inr name"
    and "delay L P R C utcnow now w max_arg T s = (Inr (), T', s')"
  shows "typed_data L i (json_dumps L (JObj (t_data T')))"
proof -
  obtain ts st where t: "queue_time (get_timestamp utcnow w) now = (ts, st)" by (metis prod.exhaust)
  have "t_data T' = t_data (stamped now ts T)"
    using assms(7) unfolding delay_eq [OF assms(3-5) t] by (auto split: if_splits)
  with assms(2,5,6) show ?thesis
    by (auto simp: typed_data_def stamped_def task_id_def serialized_func_def entry_string_def)
qed

text \<open>
  What the worker makes of tasks that it has just taken: the typed ones are parsed, in order, and those
  without data are removed from the active state.
\<close>

lemma parse_active:
  assumes "tiger_world R kind p P C" "q \<noteq> []" "distinct (map fst entries)"
    and "\<forall>(i, x) \<in> set entries. colon_free i \<and> task_at (tiger_view p (view R s)) ACTIVE q i \<and>
      (\<forall>y. x = Some y \<longrightarrow> typed_data L i y)"
  shows "\<exists>Ts s'. parse_tasks L R C q now entries s = (Inr Ts, s') \<and>
    map task_id Ts = map (\<lambda>e. Inr (fst e)) (filter (\<lambda>e. snd e \<noteq> None) entries) \<and>
    (\<forall>T \<in> set Ts. \<exists>name. serialized_func T = Inr name) \<and>
    (\<forall>st q' j. task_at (tiger_view p (view R s')) st q' j \<longleftrightarrow>
      task_at (tiger_view p (view R s)) st q' j \<and> \<not> (st = ACTIVE \<and> q' = q \<and> (j, None) \<in> set entries))"
  using assms(3,4)
proof (induction entries arbitrary: s)
  case (Cons entry entries)
  note prefix = tiger_world.prefix [OF assms(1)] and redis = tiger_world.axioms(1) [OF assms(1)]
  obtain i x where entry: "entry = (i, x)" by (cases entry)
  have i: "colon_free i" "task_at (tiger_view p (view R s)) ACTIVE q i" and fresh: "i \<notin> fst ` set entries"
    and rest: "distinct (map fst entries)" "\<forall>(i, x) \<in> set entries. colon_free i \<and>
      task_at (tiger_view p (view R s)) ACTIVE q i \<and> (\<forall>y. x = Some y \<longrightarrow> typed_data L i y)"
    using Cons.prems by (auto simp: entry)
  show ?case
  proof (cases x)
    case None
    let ?T = "stored_task q [(''id'', JStr i)] (Some ACTIVE) (Some now) []"
    have T: "the_queue ?T = Inr q" "task_id ?T = Inr i" "or_else None (t_state ?T) = Some ACTIVE"
      using assms(2) by (simp_all add: the_queue_def stored_task_def task_id_def entry_string_def dict_get_def)
    from tiger_redis.move_cases [OF redis prefix T(1,2) i(1) T(3), where now = now and to_state = None and w = None
        and mode = None and s = s] i(2)
    obtain s1 where s1: "move R C now None None None None ?T s = (Inr (), ?T\<lparr>t_state := None\<rparr>, s1)"
      "tiger_view p (view R s1) = move_in_store p i q ACTIVE None (is_unique ?T) (or_now None now) (none_to_empty_str None)
        (PUBLISH_QUEUED_TASKS C) (tiger_view p (view R s))"
      by auto
    have at: "task_at (tiger_view p (view R s1)) st q' j \<longleftrightarrow>
        task_at (tiger_view p (view R s)) st q' j \<and> \<not> (st = ACTIVE \<and> q' = q \<and> j = i)" for st q' j
      unfolding s1(2) at_move by auto
    have "\<forall>(i, x) \<in> set entries. colon_free i \<and> task_at (tiger_view p (view R s1)) ACTIVE q i \<and>
        (\<forall>y. x = Some y \<longrightarrow> typed_data L i y)"
      using rest(2) fresh unfolding at by force
    from Cons.IH [OF rest(1) this] obtain Ts s2 where
      "parse_tasks L R C q now entries s1 = (Inr Ts, s2)"
      "map task_id Ts = map (\<lambda>e. Inr (fst e)) (filter (\<lambda>e. snd e \<noteq> None) entries)"
      "\<forall>T \<in> set Ts. \<exists>name. serialized_func T = Inr name"
      and at2: "\<And>st q' j. task_at (tiger_view p (view R s2)) st q' j \<longleftrightarrow>
        task_at (tiger_view p (view R s1)) st q' j \<and> \<not> (st = ACTIVE \<and> q' = q \<and> (j, None) \<in> set entries)"
      by blast
    moreover have "task_at (tiger_view p (view R s2)) st q' j \<longleftrightarrow> task_at (tiger_view p (view R s)) st q' j \<and>
        \<not> (st = ACTIVE \<and> q' = q \<and> (j, None) \<in> set (entry # entries))" for st q' j
      unfolding at2 at by (auto simp: entry None)
    ultimately show ?thesis
      by (intro exI [of _ Ts] exI [of _ s2] conjI allI) (simp_all add: entry None s1(1) del: tiger_view_simps)
  next
    case (Some y)
    then obtain d name where "y \<noteq> []" "loads_dict L y = Inr d" "entry_string ''id'' d = Inr i" "entry_string ''func'' d = Inr name"
      using Cons.prems(2) by (auto simp: entry typed_data_def loads_dict.simps)
    with Cons.IH [OF rest] show ?thesis
      by (auto simp: entry Some Let_def stored_fields simp del: tiger_view_simps)
  qed
qed simp


lemma num_cjson_keeps_strings: "cjson_keeps_strings num_lib num_cjson"
  by (auto simp: cjson_keeps_strings_def num_cjson_def json_loads_dumps [OF num_lib_ok] json_dumps_nonempty [OF num_lib_ok])

lemma ex_queued_typed: "typed num_lib (ex_store ex_queued)"
  unfolding ex_queued_def tiger_mem.store_enqueue [OF ex_config_simps(1) colon_free_x]
  by (auto simp: typed_def typed_data_def enqueue_in_store_def Let_def mem_empty_store json_loads_dumps [OF num_lib_ok]
      json_dumps_nonempty [OF num_lib_ok] simp del: tiger_view_simps)


end
