(* ===== verification/Task_Machine.thy ===== *)
theory Task_Machine
  imports Worker_Traces
begin

text \<open>
  The state machine of tasks, derived from the code: for every call of clients and workers that moves
  tasks, along which arrows it moves which of them, and that it is a sequence of the atomic operations
  of the theory Interleaving as these are used there (\<open>op_ok\<close>).
\<close>

subsection \<open>The calls\<close>

datatype call =
  Delay task int time when_arg "int option"
| Retry task time
| Cancel task time
| Delete task time
| Update_time task int when_arg
| Next_period task int time
| Take queue_name int time time
| Queue_due worker queue_name time
| Parse queue_name time "(task_id \<times> string option) list"
| Lock "task list"
| Finish bool task bool
| Requeue_expired time queue_name task_id
| Worker_heartbeat queue_name "task_id list" time

fun run_call :: "pylib \<Rightarrow> 'r program \<Rightarrow> 'r redis \<Rightarrow> cjson \<Rightarrow> config \<Rightarrow> call \<Rightarrow> 'r \<Rightarrow> 'r" where
  "run_call L P R J C (Delay T utcnow now w m) s = snd (snd (delay L P R C utcnow now w m T s))"
| "run_call L P R J C (Retry T now) s = snd (snd (retry R C now T s))"
| "run_call L P R J C (Cancel T now) s = snd (snd (cancel R C now T s))"
| "run_call L P R J C (Delete T now) s = snd (snd (delete R C now T s))"
| "run_call L P R J C (Update_time T utcnow w) s = snd (snd (task_update_scheduled_time J R C utcnow w T s))"
| "run_call L P R J C (Next_period T utcnow now) s = snd (queue_for_next_period L P R C utcnow now T s)"
| "run_call L P R J C (Take q n now later) s = snd (take_tasks R C q n now later s)"
| "run_call L P R J C (Queue_due W q now) s = snd (queue_due_tasks R C now q (W, s))"
| "run_call L P R J C (Parse q now entries) s = snd (parse_tasks L R C q now entries s)"
| "run_call L P R J C (Lock Ts) s = snd (lock_tasks L P R C Ts [] [] [] s)"
| "run_call L P R J C (Finish exit_on_timeout T success) s =
     snd (finish_task_processing L P R C exit_on_timeout T success s)"
| "run_call L P R J C (Requeue_expired now q i) s = snd (requeue_expired_task L P R C now q i s)"
| "run_call L P R J C (Worker_heartbeat q ids now) s = worker_heartbeat R C q ids now s"

text \<open>
  The arrows of each call, and the tasks that it may move. \<open>None\<close> is outside the queue: as a source,
  wherever the task may be. Taking a queued task that is active already schedules it.
\<close>

fun arrows :: "call \<Rightarrow> (task_state option \<times> task_state option) set" where
  "arrows (Delay T utcnow now w m) = {(None, Some QUEUED), (None, Some SCHEDULED)}"
| "arrows (Retry T now) = {(Some ERROR, Some QUEUED)}"
| "arrows (Cancel T now) = {(Some SCHEDULED, None)}"
| "arrows (Delete T now) = {(Some ERROR, None)}"
| "arrows (Update_time T utcnow w) = {}"
| "arrows (Next_period T utcnow now) = {(None, Some QUEUED), (None, Some SCHEDULED)}"
| "arrows (Take q n now later) = {(Some QUEUED, Some ACTIVE), (Some QUEUED, Some SCHEDULED)}"
| "arrows (Queue_due W q now) = {(Some SCHEDULED, Some QUEUED)}"
| "arrows (Parse q now entries) = {(Some ACTIVE, None)}"
| "arrows (Lock Ts) = {(Some ACTIVE, Some SCHEDULED)}"
| "arrows (Finish exit_on_timeout T success) =
     (if success then {(Some ACTIVE, None)}
      else {(Some ACTIVE, Some SCHEDULED), (Some ACTIVE, Some ERROR), (Some ACTIVE, None)})"
| "arrows (Requeue_expired now q i) = {(Some ACTIVE, Some QUEUED), (Some ACTIVE, Some ERROR), (Some ACTIVE, None)}"
| "arrows (Worker_heartbeat q ids now) = {(None, Some ACTIVE)}"

definition is_task :: "task \<Rightarrow> queue_name \<Rightarrow> task_id \<Rightarrow> bool" where
  "is_task T q i \<longleftrightarrow> the_queue T = Inr q \<and> task_id T = Inr i"

fun moves :: "call \<Rightarrow> queue_name \<Rightarrow> task_id \<Rightarrow> bool" where
  "moves (Delay T utcnow now w m) q i \<longleftrightarrow> is_task T q i"
| "moves (Retry T now) q i \<longleftrightarrow> is_task T q i"
| "moves (Cancel T now) q i \<longleftrightarrow> is_task T q i"
| "moves (Delete T now) q i \<longleftrightarrow> is_task T q i"
| "moves (Update_time T utcnow w) q i \<longleftrightarrow> False"
| "moves (Next_period T utcnow now) q i \<longleftrightarrow> the_queue T = Inr q"
| "moves (Take q' n now later) q i \<longleftrightarrow> q' = q"
| "moves (Queue_due W q' now) q i \<longleftrightarrow> q' = q"
| "moves (Parse q' now entries) q i \<longleftrightarrow> q' = q"
| "moves (Lock Ts) q i \<longleftrightarrow> (\<exists>T \<in> set Ts. is_task T q i)"
| "moves (Finish exit_on_timeout T success) q i \<longleftrightarrow> is_task T q i"
| "moves (Requeue_expired now q' j) q i \<longleftrightarrow> q' = q"
| "moves (Worker_heartbeat q' ids now) q i \<longleftrightarrow> q' = q \<and> i \<in> set ids"

text \<open>
  Identifiers are free of colons, heartbeats are for at least one task, and no runner class of the
  application is told of a permanent error, for what that does is not the library's.
\<close>

fun call_ok :: "call \<Rightarrow> bool" where
  "call_ok (Delay T utcnow now w m) \<longleftrightarrow> (\<forall>i. task_id T = Inr i \<longrightarrow> colon_free i)"
| "call_ok (Finish exit_on_timeout T success) \<longleftrightarrow> serialized_runner_class T = None"
| "call_ok (Worker_heartbeat q ids now) \<longleftrightarrow> ids \<noteq> [] \<and> list_all colon_free ids"
| "call_ok _ \<longleftrightarrow> True"

subsection \<open>Following arrows\<close>

definition follows ::
    "(task_state option \<times> task_state option) set \<Rightarrow> (queue_name \<Rightarrow> task_id \<Rightarrow> bool) \<Rightarrow> store \<Rightarrow> store \<Rightarrow> bool" where
  "follows A D t t' \<longleftrightarrow>
     (\<forall>st q i. task_at t' st q i \<and> \<not> task_at t st q i \<longrightarrow> D q i \<and>
       (\<exists>a. (a, Some st) \<in> A \<and> (\<forall>a'. a = Some a' \<longrightarrow> task_at t a' q i))) \<and>
     (\<forall>st q i. task_at t st q i \<and> \<not> task_at t' st q i \<longrightarrow> D q i \<and>
       (\<exists>b. (Some st, b) \<in> A \<and> (\<forall>b'. b = Some b' \<longrightarrow> task_at t' b' q i)))"

lemma follows_enters:
  "follows A D t t' \<Longrightarrow> task_at t' st q i \<Longrightarrow> \<not> task_at t st q i \<Longrightarrow>
    D q i \<and> (\<exists>a. (a, Some st) \<in> A \<and> (\<forall>a'. a = Some a' \<longrightarrow> task_at t a' q i))"
  by (simp add: follows_def)

lemma follows_leaves:
  "follows A D t t' \<Longrightarrow> task_at t st q i \<Longrightarrow> \<not> task_at t' st q i \<Longrightarrow>
    D q i \<and> (\<exists>b. (Some st, b) \<in> A \<and> (\<forall>b'. b = Some b' \<longrightarrow> task_at t' b' q i))"
  by (simp add: follows_def)

lemma follows_frame: "(\<And>st q i. task_at t' st q i \<longleftrightarrow> task_at t st q i) \<Longrightarrow> follows A D t t'"
  by (simp add: follows_def)

lemma follows_refl [simp]: "follows A D t t"
  by (simp add: follows_def)

lemma follows_mono: "follows A D t t' \<Longrightarrow> A \<subseteq> A' \<Longrightarrow> (\<And>q i. D q i \<Longrightarrow> D' q i) \<Longrightarrow> follows A' D' t t'"
  unfolding follows_def by blast

text \<open>Steps that move active tasks out of the active state can follow one another.\<close>

definition from_active :: "(task_state option \<times> task_state option) set \<Rightarrow> bool" where
  "from_active A \<longleftrightarrow> (\<forall>(a, b) \<in> A. a = Some ACTIVE \<and> b \<noteq> Some ACTIVE)"

lemma from_active_enters:
  assumes "from_active A" "follows A D t u" "task_at u st q i"
  shows "task_at t st q i \<or> D q i \<and> st \<noteq> ACTIVE \<and> (Some ACTIVE, Some st) \<in> A \<and> task_at t ACTIVE q i"
proof (cases "task_at t st q i")
  case False
  from follows_enters [OF assms(2,3) False] obtain a where a: "D q i" "(a, Some st) \<in> A" "\<forall>a'. a = Some a' \<longrightarrow> task_at t a' q i"
    by blast
  with assms(1) have "a = Some ACTIVE" "st \<noteq> ACTIVE" unfolding from_active_def by auto
  with a show ?thesis by simp
qed simp

lemma from_active_leaves:
  assumes "from_active A" "follows A D t u" "task_at t st q i"
  shows "task_at u st q i \<or> D q i \<and> st = ACTIVE \<and>
    (\<exists>b. (Some ACTIVE, b) \<in> A \<and> b \<noteq> Some ACTIVE \<and> (\<forall>b'. b = Some b' \<longrightarrow> task_at u b' q i))"
proof (cases "task_at u st q i")
  case False
  from follows_leaves [OF assms(2,3) False] obtain b where b: "D q i" "(Some st, b) \<in> A" "\<forall>b'. b = Some b' \<longrightarrow> task_at u b' q i"
    by blast
  with assms(1) have "st = ACTIVE" "b \<noteq> Some ACTIVE" unfolding from_active_def by auto
  with b show ?thesis by blast
qed simp

lemma follows_trans:
  assumes A: "from_active A" and "follows A D t u" "follows A D u v"
  shows "follows A D t v"
  unfolding follows_def
proof (intro conjI allI impI)
  fix st q i assume at: "task_at v st q i \<and> \<not> task_at t st q i"
  then have "D q i \<and> (Some ACTIVE, Some st) \<in> A \<and> task_at t ACTIVE q i"
    using from_active_enters [OF A assms(3), of st q i] from_active_enters [OF A assms(2), of st q i]
      from_active_enters [OF A assms(2), of ACTIVE q i] by blast
  then show "D q i" "\<exists>a. (a, Some st) \<in> A \<and> (\<forall>a'. a = Some a' \<longrightarrow> task_at t a' q i)" by auto
next
  fix st q i assume at: "task_at t st q i \<and> \<not> task_at v st q i"
  have stays: "task_at v b q i" if "task_at u b q i" "b \<noteq> ACTIVE" for b
    using from_active_leaves [OF A assms(3) that(1)] that(2) by blast
  have "D q i \<and> st = ACTIVE \<and> (\<exists>b. (Some ACTIVE, b) \<in> A \<and> (\<forall>b'. b = Some b' \<longrightarrow> task_at v b' q i))"
  proof (cases "task_at u st q i")
    case True
    from from_active_leaves [OF A assms(3) this] at show ?thesis by blast
  next
    case False
    from from_active_leaves [OF A assms(2), of st q i] at False obtain b where
      "D q i" "st = ACTIVE" "(Some ACTIVE, b) \<in> A" "b \<noteq> Some ACTIVE" "\<forall>b'. b = Some b' \<longrightarrow> task_at u b' q i"
      by blast
    with stays show ?thesis by (intro conjI exI [of _ b]) auto
  qed
  then show "D q i" "\<exists>b. (Some st, b) \<in> A \<and> (\<forall>b'. b = Some b' \<longrightarrow> task_at v b' q i)" by auto
qed

lemma follows_move:
  assumes "op_ok (MoveTask i q from_state to_state unique ts mode)" "(Some from_state, to_state) \<in> A" "D q i"
  shows "follows A D t (op_in_store J C (MoveTask i q from_state to_state unique ts mode) t)"
proof (cases "task_at t from_state q i \<and> (to_state = None \<or> known_mode (none_to_empty_str mode))")
  case True
  let ?t = "op_in_store J C (MoveTask i q from_state to_state unique ts mode) t"
  have distinct: "to_state \<noteq> Some from_state" using assms(1) by (cases from_state) auto
  have at: "task_at ?t st q' j \<longleftrightarrow> (if j \<noteq> i \<or> q' \<noteq> q then task_at t st q' j
      else st \<noteq> from_state \<and> (to_state = Some st \<or> task_at t st q i))" for st q' j
    unfolding op_in_store.simps if_P [OF True] by (rule at_move)
  show ?thesis
    unfolding follows_def
  proof (intro conjI allI impI)
    fix st q' j assume "task_at ?t st q' j \<and> \<not> task_at t st q' j"
    then have "j = i" "q' = q" "to_state = Some st" unfolding at by (auto split: if_splits)
    with True assms(2,3) show "D q' j" "\<exists>a. (a, Some st) \<in> A \<and> (\<forall>a'. a = Some a' \<longrightarrow> task_at t a' q' j)"
      by auto
  next
    fix st q' j assume "task_at t st q' j \<and> \<not> task_at ?t st q' j"
    then have "j = i" "q' = q" "st = from_state" unfolding at by (auto split: if_splits)
    with True distinct assms(2,3) show "D q' j" "\<exists>b. (Some st, b) \<in> A \<and> (\<forall>b'. b = Some b' \<longrightarrow> task_at ?t b' q' j)"
      unfolding at by auto
  qed
qed (simp only: op_in_store.simps if_False follows_refl)

text \<open>Both: a sequence of operations that follows arrows.\<close>

definition machine_step ::
    "cjson \<Rightarrow> config \<Rightarrow> (task_state option \<times> task_state option) set \<Rightarrow> (queue_name \<Rightarrow> task_id \<Rightarrow> bool) \<Rightarrow> store \<Rightarrow> store \<Rightarrow> bool" where
  "machine_step J C A D t t' \<longleftrightarrow> op_trace J C t t' \<and> follows A D t t'"

lemma machine_refl [simp]: "machine_step J C A D t t"
  by (simp add: machine_step_def)

lemma machine_op: "op_ok x \<Longrightarrow> follows A D t (op_in_store J C x t) \<Longrightarrow> machine_step J C A D t (op_in_store J C x t)"
  unfolding machine_step_def by (intro conjI op_trace_step op_trace_refl)

lemma machine_trans:
  "from_active A \<Longrightarrow> machine_step J C A D t u \<Longrightarrow> machine_step J C A D u v \<Longrightarrow>
    machine_step J C A D t v"
  unfolding machine_step_def by (blast intro: op_trace_trans follows_trans)

lemma machine_mono: "machine_step J C A D t t' \<Longrightarrow> A \<subseteq> A' \<Longrightarrow> (\<And>q i. D q i \<Longrightarrow> D' q i) \<Longrightarrow> machine_step J C A' D' t t'"
  unfolding machine_step_def by (blast intro: follows_mono)

lemma machine_ids: "machine_step J C A D t t' \<Longrightarrow> ids_colon_free t \<Longrightarrow> ids_colon_free t'"
  unfolding machine_step_def by (blast intro: op_trace_ids)

subsection \<open>The machine of each call\<close>

context tiger_world
begin

lemma machine_move:
  assumes "move R C now from_state to_state w mode T s = (r, T', s')" "or_else from_state (t_state T) = Some st"
    and "may_move st to_state" "(Some st, to_state) \<in> A" "\<And>q i. is_task T q i \<Longrightarrow> D q i" "ids_colon_free (store_of s)"
  shows "machine_step J C A D (store_of s) (store_of s')"
proof (cases "s' = s")
  case False
  then obtain q i where T: "the_queue T = Inr q" "task_id T = Inr i"
    and moved: "move_task R p i q st to_state (is_unique T) (or_now w now) mode (PUBLISH_QUEUED_TASKS C) s = Inr s'"
    using assms(1,2) by (auto simp: move_def split: sum.splits exn.splits if_splits)
  have "task_at (store_of s) st q i"
    using moved move_task_not_found [of s st q i] by fastforce
  then have "colon_free i" using assms(6) by (simp add: ids_colon_free_def del: tiger_view_simps)
  then have ok: "op_ok (MoveTask i q st to_state (is_unique T) (or_now w now) mode)" using assms(3) by simp
  have "apply_op R J C (MoveTask i q st to_state (is_unique T) (or_now w now) mode) s = s'"
    using moved by simp
  then have "store_of s' = op_in_store J C (MoveTask i q st to_state (is_unique T) (or_now w now) mode) (store_of s)"
    using store_apply_op [OF ok, of J s] by (simp only:)
  moreover have "D q i" using assms(5) T by (simp add: is_task_def)
  ultimately show ?thesis
    using machine_op [OF ok follows_move [OF ok assms(4)]] by (simp only:)
qed simp

lemma machine_enqueue:
  assumes "colon_free i" "st = QUEUED \<or> st = SCHEDULED" "D q i"
  shows "machine_step J C {(None, Some QUEUED), (None, Some SCHEDULED)} D (store_of s) (store_of (enqueue R C st q i x ts s))"
proof -
  have ok: "op_ok (Enqueue st q i x ts)" using assms(1,2) by simp
  have "follows {(None, Some QUEUED), (None, Some SCHEDULED)} D t (op_in_store J C (Enqueue st q i x ts) t)" for t
    using assms(2,3) unfolding follows_def op_in_store.simps at_enqueue by auto
  from machine_op [OF ok this] store_apply_op [OF ok, of J s] show ?thesis by (simp only: apply_op.simps)
qed

lemma machine_delay:
  assumes "delay L P R C utcnow now w max_arg T s = (r, T', s')" "\<not> ALWAYS_EAGER C"
    and "\<And>i. task_id T = Inr i \<Longrightarrow> colon_free i" "\<And>q i. is_task T q i \<Longrightarrow> D q i"
  shows "machine_step J C {(None, Some QUEUED), (None, Some SCHEDULED)} D (store_of s) (store_of s')"
proof (cases "s' = s")
  case False
  obtain ts state where ts: "queue_time (get_timestamp utcnow w) now = (ts, state)" by (metis prod.exhaust)
  have id: "task_id (set_entry ''scheduled_at'' a (set_entry ''time_last_queued'' b T)) = task_id T" for a b
    by (simp add: task_id_def entry_string_def)
  obtain q i x where "the_queue T = Inr q" "task_id T = Inr i" "s' = enqueue R C state q i x ts s"
    using assms(1,2) False unfolding delay_def ts Let_def prod.case
    by (auto simp: id split: sum.splits if_splits option.splits)
  with assms(3,4) queue_time_state [OF ts] show ?thesis
    by (simp add: machine_enqueue is_task_def del: tiger_view_simps)
qed simp

lemma machine_next_period:
  assumes "queue_for_next_period L P R C utcnow now T s = (r, s')" "\<not> ALWAYS_EAGER C" "pylib_ok L"
    and "\<And>q i. the_queue T = Inr q \<Longrightarrow> D q i"
  shows "machine_step J C {(None, Some QUEUED), (None, Some SCHEDULED)} D (store_of s) (store_of s')"
proof (cases "s' = s")
  case False
  then obtain T' T'' w m r' where T': "renewed_clone L P T = Inr T'" "delay L P R C utcnow now w m T' s = (r', T'', s')"
    using assms(1) by (auto simp: queue_for_next_period_def split: sum.splits option.splits prod.splits)
  obtain j where j: "task_id T' = Inr j" "colon_free j" by (rule renewed_clone_id [OF T'(1) assms(3)])
  have "the_queue T' = the_queue T"
    using T'(1) by (auto simp: renewed_clone_def clone_def bind_result_Inr_iff the_queue_def split: option.splits if_splits)
  with j assms(4) show ?thesis
    by (intro machine_delay [OF T'(2) assms(2)]) (auto simp: is_task_def)
qed simp

lemma machine_time: "read_time P s = (now, s') \<Longrightarrow> store_of s' = store_of s"
  using view_read_time [of s] by simp

lemma machine_lock_tasks:
  assumes A: "A = {(Some ACTIVE, Some SCHEDULED)}"
  shows "lock_tasks L P R C Ts lock_ids locks ready s = (r, s') \<Longrightarrow> (\<And>T q i. T \<in> set Ts \<Longrightarrow> is_task T q i \<Longrightarrow> D q i) \<Longrightarrow>
    ids_colon_free (store_of s) \<Longrightarrow> machine_step J C A D (store_of s) (store_of s')"
proof (induction Ts arbitrary: lock_ids locks ready s)
  case (Cons T Ts)
  have active: "from_active A" by (simp add: A from_active_def)
  have IH: "machine_step J C A D (store_of u) (store_of s')"
    if "lock_tasks L P R C Ts a b c u = (r, s')" "ids_colon_free (store_of u)" for a b c u
    by (rule Cons.IH [OF that(1) _ that(2)]) (use Cons.prems(2) in auto)
  show ?case
  proof (cases "has_lock T")
    case False
    with IH [of lock_ids locks "ready @ [T]" s] Cons.prems show ?thesis by simp
  next
    case lock: True
    show ?thesis
    proof (cases "task_lock_id L T")
      case (Inr lock_id)
      let ?k = "tiger_key p [''lockv2'', lock_id]"
      show ?thesis
      proof (cases "lock_id \<in> set lock_ids")
        case True
        with IH [of lock_ids locks "ready @ [T]" s] Cons.prems lock Inr show ?thesis by simp
      next
        case False
        obtain token s1 where s1: "r_lock_acquire R ?k (ACTIVE_TASK_UPDATE_TIMEOUT C) s = (token, s1)" by fastforce
        then have store1: "store_of s1 = store_of s"
          using store_lock_acquire [of "[lock_id]" "ACTIVE_TASK_UPDATE_TIMEOUT C" s] by simp
        show ?thesis
        proof (cases token)
          case (Some tk)
          with IH Cons.prems(1,3) lock Inr False s1 show ?thesis
            by (simp add: Let_def store1 [symmetric] del: tiger_view_simps)
        next
          case None
          obtain now s2 where s2: "read_time P s1 = (now, s2)" by fastforce
          then have store2: "store_of s2 = store_of s" using machine_time [OF s2] store1 by simp
          obtain r3 T3 s3 where s3: "move R C now (Some ACTIVE) (Some SCHEDULED) (Some (now + LOCK_RETRY C)) (Some ''min'') T s2 = (r3, T3, s3)"
            by (metis prod.exhaust)
          have step: "machine_step J C A D (store_of s2) (store_of s3)"
            by (rule machine_move [OF s3]) (use Cons.prems(2,3) store2 in \<open>auto simp: A simp del: tiger_view_simps\<close>)
          show ?thesis
          proof (cases r3)
            case (Inl e)
            then have "s' = s3" using Cons.prems(1) lock Inr False s1 None s2 s3 by (simp add: Let_def)
            with step store2 show ?thesis by (simp only:)
          next
            case (Inr u)
            then have rest: "lock_tasks L P R C Ts lock_ids locks ready s3 = (r, s')"
              using Cons.prems(1) lock \<open>task_lock_id L T = Inr lock_id\<close> False s1 None s2 s3 by (simp add: Let_def)
            have "ids_colon_free (store_of s3)"
              by (rule machine_ids [OF step]) (use store2 Cons.prems(3) in \<open>simp only:\<close>)
            from machine_trans [OF active step IH [OF rest this]] show ?thesis by (simp only: store2)
          qed
        qed
      qed
    qed (use Cons.prems(1) lock in simp)
  qed
qed simp

lemma machine_parse_tasks:
  assumes A: "A = {(Some ACTIVE, None)}"
  shows "parse_tasks L R C q now entries s = (r, s') \<Longrightarrow> (\<And>i. D q i) \<Longrightarrow> ids_colon_free (store_of s) \<Longrightarrow>
    machine_step J C A D (store_of s) (store_of s')"
proof (induction entries arbitrary: s r s')
  case (Cons entry entries)
  obtain i x where entry: "entry = (i, x)" by (cases entry)
  have active: "from_active A" by (simp add: A from_active_def)
  have step: "machine_step J C A D (store_of s) (store_of s1)"
    if "move R C now None None None None (stored_task q d (Some ACTIVE) ts xs) s = (r1, T1, s1)" for d ts xs r1 T1 s1
    by (rule machine_move [OF that]) (use Cons.prems(2,3) in \<open>auto simp: A is_task_def the_queue_def stored_task_def split: if_splits\<close>)
  have dropped: "machine_step J C A D (store_of s) (store_of s2)"
    if "move R C now None None None None (stored_task q d (Some ACTIVE) ts xs) s = (r1, T1, s1)"
      "parse_tasks L R C q now entries s1 = (r2, s2)" for d ts xs r1 T1 s1 r2 s2
    using machine_trans [OF active step [OF that(1)] Cons.IH [OF that(2) Cons.prems(2) machine_ids [OF step [OF that(1)] Cons.prems(3)]]] .
  show ?case
  proof (cases "x = None \<or> x = Some []")
    case True
    with Cons.prems(1) step dropped show ?thesis
      by (auto simp: entry split: prod.splits sum.splits)
  next
    case False
    have kept: "machine_step J C A D (store_of s) (store_of s'')" if "parse_tasks L R C q now entries s = (r'', s'')" for r'' s''
      by (rule Cons.IH [OF that Cons.prems(2,3)])
    from False Cons.prems(1) step dropped kept show ?thesis
      by (cases "loads_dict L (the x)")
        (auto simp: entry Let_def simp del: tiger_view_simps split: if_splits prod.splits sum.splits
          elim!: bind_state_keeps [where G = "\<lambda>u. machine_step J C A D (store_of s) (store_of u)"])
  qed
qed simp

lemma bind_state_cases:
  assumes "bind_state x f = (r, s')"
  obtains (raised) e where "x = (Inl e, s')" "r = Inl e" | (bound) y t where "x = (Inr y, t)" "f y t = (r, s')"
  using assms that by (cases x; cases "fst x") auto

lemma move_runner_class: "move R C now from_state to_state w mode T s = (r, T', s') \<Longrightarrow> serialized_runner_class T' = serialized_runner_class T"
  by (auto simp: move_def serialized_runner_class_def split: sum.splits option.splits exn.splits if_splits)

lemma machine_finish:
  assumes "finish_task_processing L P R C exit_on_timeout T success s = (r, s')" "serialized_runner_class T = None"
    and "A = (if success then {(Some ACTIVE, None)}
      else {(Some ACTIVE, Some SCHEDULED), (Some ACTIVE, Some ERROR), (Some ACTIVE, None)})"
    and "\<And>q i. is_task T q i \<Longrightarrow> D q i" "ids_colon_free (store_of s)"
  shows "machine_step J C A D (store_of s) (store_of s')"
proof -
  obtain now s1 where s1: "read_time P s = (now, s1)" by fastforce
  note store1 = machine_time [OF s1]
  have step: "machine_step J C A D (store_of s) (store_of s2)"
    if "move R C now' (Some ACTIVE) to_state w m T s1 = (r2, T2, s2)" "(Some ACTIVE, to_state) \<in> A" for now' to_state w m r2 T2 s2
    unfolding store1 [symmetric]
    by (rule machine_move [OF that(1)]) (use that(2) assms(3-5) in \<open>auto simp: store1 simp del: tiger_view_simps split: if_splits\<close>)
  have failed: "machine_step J C A D (store_of s) (store_of s2)"
    if "finish_failed P R C T execution now' st w log_error s1 = (r2, s2)" "st = ERROR \<or> st = SCHEDULED" "\<not> success"
    for execution now' st w log_error r2 s2
  proof -
    have "\<exists>to_state w r3 T3. move R C now' (Some ACTIVE) to_state w None T s1 = (r3, T3, s2) \<and> (Some ACTIVE, to_state) \<in> A"
    proof (cases "st = ERROR \<and> \<not> log_error")
      case True
      obtain r3 T3 s3 where "move R C now' (Some ACTIVE) None None None T s1 = (r3, T3, s3)" by (metis prod.exhaust)
      moreover from this have "s3 = s2" using that(1) True by (simp add: finish_failed_def)
      ultimately show ?thesis using assms(3) that(3) by auto
    next
      case False
      obtain r3 T3 s3 where moved: "move R C now' (Some ACTIVE) (Some st) (Some w) None T s1 = (r3, T3, s3)" by (metis prod.exhaust)
      moreover from this have "s3 = s2"
        using that(1) False move_runner_class [OF moved] assms(2) by (cases r3) (auto simp: finish_failed_def)
      ultimately show ?thesis using assms(3) that(2,3) by auto
    qed
    with step show ?thesis by blast
  qed
  show ?thesis
  proof (cases "bind_result (serialized_func T) (\<lambda>_. task_id T)")
    case (Inl e)
    with assms(1) show ?thesis by (simp add: finish_task_processing_def)
  next
    case known: (Inr i)
    show ?thesis
    proof (cases success)
      case True
      obtain r2 T2 s2 where moved: "move R C now (Some ACTIVE) None None None T s1 = (r2, T2, s2)"
        by (metis prod.exhaust)
      have "s' = s2"
        using assms(1) by (simp add: finish_task_processing_def known s1 moved True)
      moreover have "(Some ACTIVE, None) \<in> A" using assms(3) True by simp
      ultimately show ?thesis using step [OF moved] by simp
    next
      case False
      have "s' = s1 \<or> (\<exists>execution st w log_error r2.
          finish_failed P R C T execution now st w log_error s1 = (r2, s') \<and> (st = ERROR \<or> st = SCHEDULED))"
        using assms(1)
        by (auto simp: finish_task_processing_def known s1 False dest!: next_state_final
            elim!: bind_state_cases split: prod.splits) blast+
      with failed False store1 show ?thesis
        by (auto simp del: tiger_view_simps)
    qed
  qed
qed

lemma machine_requeue_expired:
  assumes "requeue_expired_task L P R C now q i s = (r, s')"
    and A: "A = {(Some ACTIVE, Some QUEUED), (Some ACTIVE, Some ERROR), (Some ACTIVE, None)}"
    and "\<And>i. D q i" "ids_colon_free (store_of s)"
  shows "machine_step J C A D (store_of s) (store_of s')"
proof -
  have active: "from_active A" by (simp add: A from_active_def)
  have queue: "is_task (stored_task q d st ts xs) q' j \<Longrightarrow> q' = q" for d st ts xs q' j
    by (auto simp: is_task_def the_queue_def stored_task_def split: if_splits)
  have moved: "machine_step J C A D (store_of u) (store_of u')"
    if "move R C now from_state to_state w m (stored_task q d (Some ACTIVE) ts xs) u = (r1, T1, u')"
      "from_state = None \<or> from_state = Some ACTIVE" "to_state \<in> {Some QUEUED, Some ERROR, None}" "ids_colon_free (store_of u)"
    for from_state to_state w m d ts xs u r1 T1 u'
    by (rule machine_move [OF that(1)]) (use that(2-4) assms(3) in \<open>auto simp: A dest!: queue\<close>)
  have loaded: "\<exists>d ts xs. T = stored_task q d (Some ACTIVE) ts xs" if "from_id L R C q ACTIVE i 0 s = Inr T" for T
    using that by (auto simp: from_id_def bind_result_Inr_iff split: option.splits if_splits)
  obtain attempt s1 where attempt: "(case from_id L R C q ACTIVE i 0 s of
           Inl e \<Rightarrow> (Inl e, s)
         | Inr T \<Rightarrow>
             (case (if should_retry_on (resolve_class P) (is_subclass P) T (exception_name JobTimeoutException)
                then move R C now (Some ACTIVE) (Some QUEUED) (Some now) (Some ''nx'') T s
                else move R C now (Some ACTIVE) (Some ERROR) (Some now) None T s) of
                (r, _, s') \<Rightarrow> (r, s'))) = (attempt, s1)" (is "?attempt = _")
    by fastforce
  have first: "machine_step J C A D (store_of s) (store_of s1)"
    using attempt assms(4) by (auto split: sum.splits prod.splits if_splits dest!: loaded intro: moved)
  have "s' = s1 \<or> (\<exists>r2 T2. move R C now None None None None (stored_task q [(''id'', JStr i)] (Some ACTIVE) None []) s1 = (r2, T2, s'))"
    using assms(1) unfolding requeue_expired_task_def Let_def attempt
    by (auto split: sum.splits exn.splits option.splits if_splits prod.splits)
  then show ?thesis
  proof
    assume "\<exists>r2 T2. move R C now None None None None (stored_task q [(''id'', JStr i)] (Some ACTIVE) None []) s1 = (r2, T2, s')"
    then obtain r2 T2 where "move R C now None None None None (stored_task q [(''id'', JStr i)] (Some ACTIVE) None []) s1 = (r2, T2, s')"
      by blast
    from machine_trans [OF active first moved [OF this]] machine_ids [OF first assms(4)] show ?thesis by simp
  qed (use first in simp)
qed

text \<open>The calls that are one operation.\<close>

lemma machine_operations:
  "machine_step J C {(Some QUEUED, Some ACTIVE), (Some QUEUED, Some SCHEDULED)} (\<lambda>q' i. q' = q) (store_of s)
    (store_of (snd (take_tasks R C q n now later s)))"
  "machine_step J C {(Some SCHEDULED, Some QUEUED)} (\<lambda>q' i. q' = q) (store_of s)
    (store_of (snd (queue_due_tasks R C now q (W, s))))"
  "ids \<noteq> [] \<Longrightarrow> list_all colon_free ids \<Longrightarrow>
    machine_step J C {(None, Some ACTIVE)} (\<lambda>q' i. q' = q \<and> i \<in> set ids) (store_of s) (store_of (worker_heartbeat R C q ids now s))"
proof -
  have "follows {(Some QUEUED, Some ACTIVE), (Some QUEUED, Some SCHEDULED)} (\<lambda>q' i. q' = q) t
      (op_in_store J C (TakeTasks q n now later) t)" for t
    unfolding follows_def
  proof (intro conjI allI impI)
    fix st q' i assume "task_at (op_in_store J C (TakeTasks q n now later) t) st q' i \<and> \<not> task_at t st q' i"
    then have "q' = q" "i \<in> set (first_queued q n t)" "st = ACTIVE \<or> st = SCHEDULED"
      unfolding op_in_store.simps at_take by (auto split: if_splits)
    then show "q' = q" "\<exists>a. (a, Some st) \<in> {(Some QUEUED, Some ACTIVE), (Some QUEUED, Some SCHEDULED)} \<and>
        (\<forall>a'. a = Some a' \<longrightarrow> task_at t a' q' i)"
      using first_at(1) by auto
  next
    fix st q' i assume "task_at t st q' i \<and> \<not> task_at (op_in_store J C (TakeTasks q n now later) t) st q' i"
    then have "q' = q" "i \<in> set (first_queued q n t)" "st = QUEUED"
      unfolding op_in_store.simps at_take by (cases st; auto split: if_splits)+
    then show "q' = q" "\<exists>b. (Some st, b) \<in> {(Some QUEUED, Some ACTIVE), (Some QUEUED, Some SCHEDULED)} \<and>
        (\<forall>b'. b = Some b' \<longrightarrow> task_at (op_in_store J C (TakeTasks q n now later) t) b' q' i)"
      unfolding op_in_store.simps at_take by (auto intro: exI [of _ "Some ACTIVE"])
  qed
  from machine_op [OF _ this] store_apply_op [of "TakeTasks q n now later" J s]
  show "machine_step J C {(Some QUEUED, Some ACTIVE), (Some QUEUED, Some SCHEDULED)} (\<lambda>q' i. q' = q) (store_of s)
      (store_of (snd (take_tasks R C q n now later s)))"
    by (simp del: tiger_view_simps op_in_store.simps)
  have due: "follows {(Some SCHEDULED, Some QUEUED)} (\<lambda>q' i. q' = q) t (op_in_store J C (QueueDue q now) t)" for t
    unfolding follows_def op_in_store.simps at_due
    by (auto dest: first_at(2) split: if_splits)
  let ?due = "apply_op R J C (QueueDue q now) s"
  have "machine_step J C {(Some SCHEDULED, Some QUEUED)} (\<lambda>q' i. q' = q) (store_of s) (store_of ?due)"
    using machine_op [OF _ due] store_apply_op [of "QueueDue q now" J s]
    by (simp del: tiger_view_simps op_in_store.simps apply_op.simps)
  moreover have "snd (queue_due_tasks R C now q (W, s)) \<in> {?due, apply_op R J C (Announce q) ?due}"
    by (auto simp: queue_due_tasks_def Let_def split: prod.splits)
  moreover have "store_of (apply_op R J C (Announce q) ?due) = send (activity_channel p) q (store_of ?due)"
    using store_apply_op [of "Announce q" J ?due] by (simp del: tiger_view_simps apply_op.simps)
  ultimately show "machine_step J C {(Some SCHEDULED, Some QUEUED)} (\<lambda>q' i. q' = q) (store_of s)
      (store_of (snd (queue_due_tasks R C now q (W, s))))"
    using op_trace_step [of J C "store_of s" "store_of ?due" "Announce q"]
    by (auto simp: machine_step_def follows_def simp del: tiger_view_simps apply_op.simps)
  assume ids: "ids \<noteq> []" "list_all colon_free ids"
  have "follows {(None, Some ACTIVE)} (\<lambda>q' i. q' = q \<and> i \<in> set ids) t (op_in_store J C (Heartbeat q ids now) t)" for t
    unfolding follows_def op_in_store.simps at_heartbeat by auto
  from machine_op [OF _ this] store_apply_op [of "Heartbeat q ids now" J s] ids
  show "machine_step J C {(None, Some ACTIVE)} (\<lambda>q' i. q' = q \<and> i \<in> set ids) (store_of s) (store_of (worker_heartbeat R C q ids now s))"
    by (simp del: tiger_view_simps op_in_store.simps)
qed

lemma machine_update_time:
  assumes "task_update_scheduled_time J R C utcnow w T s = (r, T', s')" "ids_colon_free (store_of s)"
  shows "machine_step J C {} (\<lambda>q i. False) (store_of s) (store_of s')"
proof (cases "s' = s")
  case False
  then obtain ts q i x where "update_scheduled_time R J (queue_key p SCHEDULED q) (task_key p i) ts i s = (x, s')"
    using assms(1) by (auto simp: task_update_scheduled_time_def split: option.splits if_splits sum.splits prod.splits)
  then have i: "s' = apply_op R J C (Reschedule q i ts) s" by simp
  have "task_at (store_of s) SCHEDULED q i"
    using False unfolding i
    by (auto simp: update_scheduled_time_def update_scheduled_time_script_def redis_law key_law Let_def task_at_def task_score_def
        split: option.splits)
  then have ok: "op_ok (Reschedule q i ts)" using assms(2) by (simp add: ids_colon_free_def del: tiger_view_simps)
  show ?thesis
    unfolding i store_apply_op [OF ok] by (rule machine_op [OF ok follows_frame]) (rule at_reschedule)
qed simp

end

lemma moves_all:
  "moves (Update_time T utcnow w) = (\<lambda>q i. False)" "moves (Take q n now later) = (\<lambda>q' i. q' = q)"
  "moves (Queue_due W q now) = (\<lambda>q' i. q' = q)" "moves (Worker_heartbeat q ids now) = (\<lambda>q' i. q' = q \<and> i \<in> set ids)"
  by (auto simp: fun_eq_iff)

text \<open>C17: the state machine of tasks, whatever state the server is in and whoever calls: queueing,
  retrying, cancelling, deleting and rescheduling a task, queueing the next run of a periodic one,
  taking queued tasks, queueing those that are due, reading and locking what was taken, finishing,
  requeueing an expired task and the heartbeat. A call moves only tasks that it names (\<open>moves\<close>), and
  each of them only along an arrow of this call (\<open>arrows\<close>): a task that is newly in a state was
  before in the state at the start of one of its arrows to there, and one that has left a state is
  removed, or in the state at the end of one of its arrows from there. And all a call does to the
  data is a sequence of the atomic operations, with only the arguments that \<open>op_ok\<close> allows: the arrows
  of \<open>move_task\<close> are those that its callers use. (Not in eager mode, for identifiers without colons, and
  if no runner class of the application is told of a permanent error, for what that does is its own.)\<close>

theorem calls_follow_machine:
  assumes "tiger_world R kind p P C" "pylib_ok L" "\<not> ALWAYS_EAGER C" "call_ok x"
    and t: "t = tiger_view p (view R s)" and t': "t' = tiger_view p (view R (run_call L P R J C x s))"
    and "\<forall>st q i. task_at t st q i \<longrightarrow> colon_free i"
  shows "(\<forall>st q i. task_at t' st q i \<and> \<not> task_at t st q i \<longrightarrow> moves x q i \<and>
      (\<exists>a. (a, Some st) \<in> arrows x \<and> (\<forall>a'. a = Some a' \<longrightarrow> task_at t a' q i))) \<and>
    (\<forall>st q i. task_at t st q i \<and> \<not> task_at t' st q i \<longrightarrow> moves x q i \<and>
      (\<exists>b. (Some st, b) \<in> arrows x \<and> (\<forall>b'. b = Some b' \<longrightarrow> task_at t' b' q i))) \<and>
    (\<exists>xs. list_all op_ok xs \<and> t' = fold (op_in_store J C) xs t)"
proof -
  note world = assms(1) and ids = assms(7) [unfolded t, folded ids_colon_free_def]
  have "machine_step J C (arrows x) (moves x) t t'"
  proof (cases x)
    case (Delay T utcnow now w m)
    obtain r T' s' where run: "delay L P R C utcnow now w m T s = (r, T', s')" by (metis prod.exhaust)
    from tiger_world.machine_delay [OF world run assms(3)] assms(4) show ?thesis by (simp add: run t t' Delay)
  next
    case (Retry T now)
    obtain r T' s' where run: "move R C now (Some ERROR) (Some QUEUED) None None T s = (r, T', s')" by (metis prod.exhaust)
    from tiger_world.machine_move [OF world run _ _ _ _ ids] show ?thesis by (simp add: run t t' Retry retry_def)
  next
    case (Cancel T now)
    obtain r T' s' where run: "move R C now (Some SCHEDULED) None None None T s = (r, T', s')" by (metis prod.exhaust)
    from tiger_world.machine_move [OF world run _ _ _ _ ids] show ?thesis by (simp add: run t t' Cancel cancel_def)
  next
    case (Delete T now)
    obtain r T' s' where run: "move R C now (Some ERROR) None None None T s = (r, T', s')" by (metis prod.exhaust)
    from tiger_world.machine_move [OF world run _ _ _ _ ids] show ?thesis by (simp add: run t t' Delete delete_def)
  next
    case (Update_time T utcnow w)
    obtain r T' s' where run: "task_update_scheduled_time J R C utcnow w T s = (r, T', s')" by (metis prod.exhaust)
    from tiger_world.machine_update_time [OF world run ids] show ?thesis by (simp add: run t t' Update_time moves_all)
  next
    case (Next_period T utcnow now)
    obtain r s' where run: "queue_for_next_period L P R C utcnow now T s = (r, s')" by fastforce
    from tiger_world.machine_next_period [OF world run assms(3,2)] show ?thesis by (simp add: run t t' Next_period)
  next
    case (Take q n now later)
    from tiger_world.machine_operations(1) [OF world, of J q s n now later] show ?thesis by (simp add: t t' Take moves_all)
  next
    case (Queue_due W q now)
    from tiger_world.machine_operations(2) [OF world] show ?thesis by (simp add: t t' Queue_due moves_all)
  next
    case (Parse q now entries)
    obtain r s' where run: "parse_tasks L R C q now entries s = (r, s')" by fastforce
    from tiger_world.machine_parse_tasks [OF world refl run _ ids] show ?thesis by (simp add: run t t' Parse)
  next
    case (Lock Ts)
    obtain r s' where run: "lock_tasks L P R C Ts [] [] [] s = (r, s')" by fastforce
    have named: "moves (Lock Ts) q i" if "T \<in> set Ts" "is_task T q i" for T q i
      using that by auto
    have "machine_step J C {(Some ACTIVE, Some SCHEDULED)} (moves (Lock Ts)) (tiger_view p (view R s)) (tiger_view p (view R s'))"
      by (rule tiger_world.machine_lock_tasks [OF world refl run _ ids]) (rule named)
    then show ?thesis by (simp add: run t t' Lock del: moves.simps)
  next
    case (Finish exit_on_timeout T success)
    obtain r s' where run: "finish_task_processing L P R C exit_on_timeout T success s = (r, s')" by fastforce
    from tiger_world.machine_finish [OF world run _ refl _ ids] assms(4) show ?thesis by (simp add: run t t' Finish)
  next
    case (Requeue_expired now q i)
    obtain r s' where run: "requeue_expired_task L P R C now q i s = (r, s')" by fastforce
    from tiger_world.machine_requeue_expired [OF world run refl _ ids] show ?thesis by (simp add: run t t' Requeue_expired)
  next
    case (Worker_heartbeat q ids now)
    with tiger_world.machine_operations(3) [OF world, of ids J q s now] assms(4) show ?thesis by (simp add: t t' moves_all)
  qed
  then show ?thesis
    unfolding machine_step_def op_trace_def follows_def by blast
qed

text \<open>A failed task that is retried: it is not in the error state any more, so it is queued.\<close>

definition ex_retried :: task where
  "ex_retried = stored_task ''q'' [(''id'', JStr ''x'')] (Some ERROR) (Some 5) []"

theorem calls_follow_machine_witness:
  "\<exists>r T' s'. retry tmem ex_config 9 ex_retried ex_failed = (r, T', s') \<and>
    \<not> task_at (ex_store s') ERROR ''q'' ''x'' \<and> task_at (ex_store s') QUEUED ''q'' ''x''"
proof -
  obtain r T' s' where run: "retry tmem ex_config 9 ex_retried ex_failed = (r, T', s')" by (metis prod.exhaust)
  have T: "the_queue ex_retried = Inr ''q''" "task_id ex_retried = Inr ''x''"
    by (simp_all add: ex_retried_def the_queue_def stored_task_def task_id_def entry_string_def dict_get_def)
  have "\<not> task_at (ex_store s') ERROR ''q'' ''x''"
    using tiger_redis.move_cases [OF tiger_mem.tiger_redis_axioms ex_config_simps(1) T, where from_state = "Some ERROR" and st = ERROR
        and now = 9 and to_state = "Some QUEUED" and w = None and mode = None and s = ex_failed] run
    by (auto simp: retry_def at_move simp del: tiger_view_simps)
  with calls_follow_machine [OF ex_world num_lib_ok ex_config_simps(2), of "Retry ex_retried 9" _ ex_failed, OF _ refl refl] run
  show ?thesis by (auto simp del: tiger_view_simps)
qed

end
