(* ===== verification/Launch.thy ===== *)
theory Launch
  imports Worker_Queues
begin

text \<open>
  How a worker is started: \<^verbatim>\<open>TaskTiger.run_worker\<close>, the command line that calls it (\<^verbatim>\<open>run_worker\<close> in
  \<^verbatim>\<open>tasktiger.py\<close>), and the unit-test mixin that runs two workers and reports the failed tasks
  (\<^verbatim>\<open>test_helpers.py\<close>). Importing a module is a parameter; how an instance is made is in the theory Startup.
\<close>

subsection \<open>Options\<close>

text \<open>\<^verbatim>\<open>str.split\<close> with a separator of one character, and \<^verbatim>\<open>str.strip\<close>.\<close>

fun str_split :: "char \<Rightarrow> string \<Rightarrow> string list" where
  "str_split c [] = [[]]"
| "str_split c (x # xs) =
     (if x = c then [] # str_split c xs
      else case str_split c xs of [] \<Rightarrow> [[x]] | w # ws \<Rightarrow> (x # w) # ws)"

definition whitespace :: "char \<Rightarrow> bool" where
  "whitespace c \<longleftrightarrow> of_char c \<in> set [9, 10, 11, 12, 13, 28, 29, 30, 31, 32, 133, 160 :: nat]"

definition str_strip :: "string \<Rightarrow> string" where
  "str_strip x = rev (dropWhile whitespace (rev (dropWhile whitespace x)))"

text \<open>An option that names queues; an empty one is no option.\<close>

definition queue_names :: "string option \<Rightarrow> queue_name list option" where
  "queue_names x = (case x of None \<Rightarrow> None | Some s \<Rightarrow> if s = [] then None else Some (str_split (CHR '','') s))"

definition module_names :: "string option \<Rightarrow> string list" where
  "module_names x = filter (\<lambda>m. m \<noteq> []) (map str_strip (str_split (CHR '','') (case x of None \<Rightarrow> [] | Some s \<Rightarrow> s)))"

fun import_modules :: "(string \<Rightarrow> 'r \<Rightarrow> unit result \<times> 'r) \<Rightarrow> string list \<Rightarrow> 'r \<Rightarrow> unit result \<times> 'r" where
  "import_modules import_module [] s = (Inr (), s)"
| "import_modules import_module (m # ms) s =
     bind_state (import_module m s) (\<lambda>_ s'. import_modules import_module ms s')"

record worker_options =
  queues_option :: "string option"
  module_option :: "string option"
  exclude_option :: "string option"
  max_workers_option :: "int option"
  tracebacks_option :: "bool option"

subsection \<open>Starting a worker\<close>

text \<open>
  The modules are imported before the worker is made. \<open>executor\<close> is how the worker executes tasks,
  \<open>funcs\<close> the periodic functions that the imports have registered.
\<close>

definition launched_worker ::
    "(string \<Rightarrow> 'r \<Rightarrow> unit result \<times> 'r) \<Rightarrow> config \<Rightarrow> string \<Rightarrow> worker_options \<Rightarrow> 'r \<Rightarrow> worker result \<times> 'r" where
  "launched_worker import_module C uuid opts s =
     bind_state (import_modules import_module (module_names (module_option opts)) s) (\<lambda>_ s'.
       (new_worker C uuid (queue_names (queues_option opts)) (queue_names (exclude_option opts)) None
          (max_workers_option opts) (tracebacks_option opts), s'))"

definition tiger_run_worker ::
    "pylib \<Rightarrow> (string \<Rightarrow> string \<Rightarrow> bool) \<Rightarrow> 'r program \<Rightarrow> 'r redis \<Rightarrow> config \<Rightarrow> 'r executor
      \<Rightarrow> (string \<times> task_func) list \<Rightarrow> (string \<Rightarrow> 'r \<Rightarrow> unit result \<times> 'r) \<Rightarrow> string \<Rightarrow> worker_options
      \<Rightarrow> task_id \<Rightarrow> int \<Rightarrow> ('r \<Rightarrow> bool) \<Rightarrow> iteration list \<Rightarrow> 'r \<Rightarrow> (unit result \<times> 'r) option" where
  "tiger_run_worker L matches P R C E funcs import_module uuid opts fresh_id utcnow stopped its s =
     (case launched_worker import_module C uuid opts s of
        (Inl e, s1) \<Rightarrow> Some (Inl e, s1)
      | (Inr W, s1) \<Rightarrow>
          (case worker_main L matches P R C E funcs fresh_id utcnow stopped False False its W s1 of
             None \<Rightarrow> None
           | Some (r, _, s2) \<Rightarrow> Some (r, s2)))"

subsection \<open>The command line\<close>

datatype executor_class = ForkExecutor | SyncExecutor

definition executor_class_of :: "string option \<Rightarrow> executor_class result" where
  "executor_class_of x =
     (if x = None \<or> x = Some [] \<or> x = Some ''fork'' then Inr ForkExecutor
      else if x = Some ''sync'' then Inr SyncExecutor
      else Inl (UserException ''click.exceptions:ClickException'' True))"

text \<open>Minutes as a \<^verbatim>\<open>timedelta\<close> in microseconds; zero means no limit.\<close>

definition exit_after_td :: "int option \<Rightarrow> int option" where
  "exit_after_td minutes = (case minutes of None \<Rightarrow> None | Some n \<Rightarrow> if n = 0 then None else Some (n * 60 * 1000000))"

definition cli_run_worker ::
    "(executor_class \<Rightarrow> int option \<Rightarrow> worker_options \<Rightarrow> 'r \<Rightarrow> (unit result \<times> 'r) option)
      \<Rightarrow> string option \<Rightarrow> int option \<Rightarrow> worker_options \<Rightarrow> 'r \<Rightarrow> (unit result \<times> 'r) option" where
  "cli_run_worker run executor exit_after opts s =
     (case executor_class_of executor of
        Inl e \<Rightarrow> Some (Inl e, s)
      | Inr c \<Rightarrow> run c (exit_after_td exit_after) opts s)"

lemma str_split_join:
  "xs \<noteq> [] \<Longrightarrow> list_all (\<lambda>x. c \<notin> set x) xs \<Longrightarrow> str_split c (str_join [c] xs) = xs"
proof (induction "[c]" xs rule: str_join.induct)
  case (2 x)
  then show ?case by (induction x) auto
next
  case (3 x y ys)
  have "str_split c (x @ c # zs) = x # str_split c zs" if "c \<notin> set x" for x zs
    using that by (induction x) auto
  with 3 show ?case by simp
qed simp

lemma str_join_eq_Nil: "str_join sep xs = [] \<Longrightarrow> sep \<noteq> [] \<Longrightarrow> xs = [] \<or> xs = [[]]"
  by (induction sep xs rule: str_join.induct) auto

lemma queue_names_join:
  assumes "list_all (\<lambda>q. CHR '','' \<notin> set q) qs" "qs \<noteq> []" "qs \<noteq> [[]]"
  shows "queue_names (Some (str_join '','' qs)) = Some qs"
  using assms str_split_join [OF assms(2,1)] str_join_eq_Nil [of "'',''" qs] by (auto simp: queue_names_def)

lemma queue_names_None: "queue_names None = None"
  by (simp add: queue_names_def)

text \<open>A worker that is started with the names of queues, joined by commas, processes exactly the
  queues that these names select, with their sub-queues, whatever the configuration says; without the
  option the configured ones. It is started only if every module can be imported, and not with a
  negative number of workers per queue.\<close>

theorem launched_worker_queues:
  assumes "list_all (\<lambda>q. CHR '','' \<notin> set q) qs" "qs \<noteq> []" "qs \<noteq> [[]]"
    and "queues_option opts = Some (str_join '','' qs)" "exclude_option opts = None"
    and "launched_worker import_module C uuid opts s = (r, s')"
  shows "case r of
      Inr W \<Rightarrow> (\<forall>q. worker_includes W q \<longleftrightarrow> queue_included (remdups qs) (remdups (EXCLUDE_QUEUES C)) q) \<and>
        import_modules import_module (module_names (module_option opts)) s = (Inr (), s') \<and>
        (\<forall>n \<in> set_option (max_workers_option opts). 0 \<le> n)
    | Inl e \<Rightarrow> import_modules import_module (module_names (module_option opts)) s = (Inl e, s') \<or>
        e = AssertionError \<and> (\<exists>n \<in> set_option (max_workers_option opts). n < 0)"
proof (cases "import_modules import_module (module_names (module_option opts)) s")
  case (Pair r1 s1)
  show ?thesis
  proof (cases r1)
    case (Inl e)
    with Pair assms(6) show ?thesis by (auto simp: launched_worker_def)
  next
    case (Inr u)
    with Pair assms(2,6) show ?thesis
      by (auto simp: launched_worker_def assms(4,5) queue_names_join [OF assms(1-3)] queue_names_None new_worker_def
        queues_or_def the_list_def worker_includes_def Let_def split: if_splits option.splits)
  qed
qed

text \<open>A worker started for two queues.\<close>

definition ex_options :: worker_options where
  "ex_options = \<lparr>queues_option = Some ''a,b.c'', module_option = Some '' tasks ,'', exclude_option = None,
     max_workers_option = None, tracebacks_option = None\<rparr>"

theorem launched_worker_queues_witness:
  "\<exists>W. launched_worker (\<lambda>m s. (Inr (), s)) default_config ''w'' ex_options () = (Inr W, ()) \<and>
    worker_includes W ''b.c'' = queue_included [''a'', ''b.c''] [] ''b.c''"
proof -
  obtain r s' where run: "launched_worker (\<lambda>m s. (Inr (), s)) default_config ''w'' ex_options () = (r, s')"
    by (cases "launched_worker (\<lambda>m s. (Inr (), s)) default_config ''w'' ex_options ()")
  have imported: "import_modules (\<lambda>m s. (Inr (), s)) ms () = (Inr (), ())" for ms by (induction ms) simp_all
  have "case r of
      Inr W \<Rightarrow> (\<forall>q. worker_includes W q \<longleftrightarrow> queue_included (remdups [''a'', ''b.c'']) (remdups (EXCLUDE_QUEUES default_config)) q) \<and>
        import_modules (\<lambda>m s. (Inr (), s)) (module_names (module_option ex_options)) () = (Inr (), s') \<and>
        (\<forall>n \<in> set_option (max_workers_option ex_options). 0 \<le> n)
    | Inl e \<Rightarrow> import_modules (\<lambda>m s. (Inr (), s)) (module_names (module_option ex_options)) () = (Inl e, s') \<or>
        e = AssertionError \<and> (\<exists>n \<in> set_option (max_workers_option ex_options). n < 0)"
    by (rule launched_worker_queues [OF _ _ _ _ _ run]) (simp_all add: ex_options_def)
  then show ?thesis
    using run by (cases r) (auto simp: imported ex_options_def default_config_def)
qed

subsection \<open>The unit-test mixin\<close>

text \<open>
  The mixin prints the traceback of the last execution of every failed task, which may be missing:
  an empty list of executions raises \<^verbatim>\<open>IndexError\<close>, an execution without traceback \<^verbatim>\<open>KeyError\<close>.
\<close>

fun print_failures :: "task list \<Rightarrow> unit result" where
  "print_failures [] = Inr ()"
| "print_failures (T # Ts) =
     (case t_executions T of
        [] \<Rightarrow> Inl IndexError
      | JObj d # _ \<Rightarrow> if dict_get d ''traceback'' = None then Inl KeyError else print_failures Ts
      | _ \<Rightarrow> Inl TypeError)"

fun report_errors :: "pylib \<Rightarrow> 'r redis \<Rightarrow> config \<Rightarrow> 'r \<Rightarrow> queue_name list \<Rightarrow> bool \<Rightarrow> bool result" where
  "report_errors L R C s [] has_errors = Inr has_errors"
| "report_errors L R C s (q # qs) has_errors =
     bind_result (tasks_from_queue L R C q ERROR 0 1000 1 False s) (\<lambda>(n, Ts).
     bind_result (print_failures Ts) (\<lambda>_.
       report_errors L R C s qs (has_errors \<or> Ts \<noteq> [])))"

text \<open>\<open>run\<close> is a worker's main loop with \<^verbatim>\<open>once\<close>; the second run finds the tasks that are due by then.\<close>

definition mixin_run_worker ::
    "pylib \<Rightarrow> 'r redis \<Rightarrow> config \<Rightarrow> ('r \<Rightarrow> unit result \<times> 'r) \<Rightarrow> bool \<Rightarrow> 'r \<Rightarrow> unit result \<times> 'r" where
  "mixin_run_worker L R C run raise_on_errors s =
     bind_state (run s) (\<lambda>_ s1.
     bind_state (run s1) (\<lambda>_ s2.
     bind_state (report_errors L R C s2 (r_smembers R (state_key (REDIS_PREFIX C) ERROR) s2) False, s2) (\<lambda>has_errors s2.
       (if has_errors \<and> raise_on_errors then Inl (UserException ''builtins:Exception'' True) else Inr (), s2))))"

end
