(* ===== verification/Startup.thy ===== *)
theory Startup
  imports Launch Task_Tiger
begin

text \<open>
  How an instance comes to be: \<^verbatim>\<open>TaskTiger.__init__\<close> and \<^verbatim>\<open>TaskTiger.init\<close> with the user's configuration
  and the late initialisation, the class property of the current instance, the address of the server
  on the command line, and the command of \<^verbatim>\<open>flask_script.py\<close>. The client's connection is a value of
  an unknown type; \<open>structlog\<close> is only told to set itself up.
\<close>

subsection \<open>The configuration\<close>

text \<open>
  An entry of the user's \<^verbatim>\<open>config\<close>. A key that \<^verbatim>\<open>init\<close> does not know is stored, and nobody reads it.
\<close>

datatype setting =
    Set_REDIS_PREFIX string
  | Set_DEFAULT_QUEUE queue_name
  | Set_SELECT_TIMEOUT rat
  | Set_SELECT_BATCH_TIMEOUT rat
  | Set_ALWAYS_EAGER bool
  | Set_DEFAULT_RETRY_METHOD retry_method
  | Set_LOCK_RETRY rat
  | Set_SCHEDULED_TASK_BATCH_SIZE int
  | Set_DEFAULT_HARD_TIMEOUT rat
  | Set_ACTIVE_TASK_UPDATE_TIMER rat
  | Set_ACTIVE_TASK_UPDATE_TIMEOUT rat
  | Set_REQUEUE_EXPIRED_TASKS_INTERVAL rat
  | Set_REQUEUE_EXPIRED_TASKS_BATCH_SIZE int
  | Set_QUEUE_SCHEDULED_TASKS_TIME rat
  | Set_BATCH_QUEUES "(queue_name \<times> int) list"
  | Set_STATS_INTERVAL rat
  | Set_SINGLE_WORKER_QUEUES "queue_name list"
  | Set_ONLY_QUEUES "queue_name list"
  | Set_EXCLUDE_QUEUES "queue_name list"
  | Set_STORE_TRACEBACKS bool
  | Set_POLL_TASK_QUEUES_INTERVAL rat
  | Set_PUBLISH_QUEUED_TASKS bool
  | Set_other string

fun config_update :: "setting \<Rightarrow> config \<Rightarrow> config" where
  "config_update (Set_REDIS_PREFIX v) C = C\<lparr>REDIS_PREFIX := v\<rparr>"
| "config_update (Set_DEFAULT_QUEUE v) C = C\<lparr>DEFAULT_QUEUE := v\<rparr>"
| "config_update (Set_SELECT_TIMEOUT v) C = C\<lparr>SELECT_TIMEOUT := v\<rparr>"
| "config_update (Set_SELECT_BATCH_TIMEOUT v) C = C\<lparr>SELECT_BATCH_TIMEOUT := v\<rparr>"
| "config_update (Set_ALWAYS_EAGER v) C = C\<lparr>ALWAYS_EAGER := v\<rparr>"
| "config_update (Set_DEFAULT_RETRY_METHOD v) C = C\<lparr>DEFAULT_RETRY_METHOD := v\<rparr>"
| "config_update (Set_LOCK_RETRY v) C = C\<lparr>LOCK_RETRY := v\<rparr>"
| "config_update (Set_SCHEDULED_TASK_BATCH_SIZE v) C = C\<lparr>SCHEDULED_TASK_BATCH_SIZE := v\<rparr>"
| "config_update (Set_DEFAULT_HARD_TIMEOUT v) C = C\<lparr>DEFAULT_HARD_TIMEOUT := v\<rparr>"
| "config_update (Set_ACTIVE_TASK_UPDATE_TIMER v) C = C\<lparr>ACTIVE_TASK_UPDATE_TIMER := v\<rparr>"
| "config_update (Set_ACTIVE_TASK_UPDATE_TIMEOUT v) C = C\<lparr>ACTIVE_TASK_UPDATE_TIMEOUT := v\<rparr>"
| "config_update (Set_REQUEUE_EXPIRED_TASKS_INTERVAL v) C = C\<lparr>REQUEUE_EXPIRED_TASKS_INTERVAL := v\<rparr>"
| "config_update (Set_REQUEUE_EXPIRED_TASKS_BATCH_SIZE v) C = C\<lparr>REQUEUE_EXPIRED_TASKS_BATCH_SIZE := v\<rparr>"
| "config_update (Set_QUEUE_SCHEDULED_TASKS_TIME v) C = C\<lparr>QUEUE_SCHEDULED_TASKS_TIME := v\<rparr>"
| "config_update (Set_BATCH_QUEUES v) C = C\<lparr>BATCH_QUEUES := v\<rparr>"
| "config_update (Set_STATS_INTERVAL v) C = C\<lparr>STATS_INTERVAL := v\<rparr>"
| "config_update (Set_SINGLE_WORKER_QUEUES v) C = C\<lparr>SINGLE_WORKER_QUEUES := v\<rparr>"
| "config_update (Set_ONLY_QUEUES v) C = C\<lparr>ONLY_QUEUES := v\<rparr>"
| "config_update (Set_EXCLUDE_QUEUES v) C = C\<lparr>EXCLUDE_QUEUES := v\<rparr>"
| "config_update (Set_STORE_TRACEBACKS v) C = C\<lparr>STORE_TRACEBACKS := v\<rparr>"
| "config_update (Set_POLL_TASK_QUEUES_INTERVAL v) C = C\<lparr>POLL_TASK_QUEUES_INTERVAL := v\<rparr>"
| "config_update (Set_PUBLISH_QUEUED_TASKS v) C = C\<lparr>PUBLISH_QUEUED_TASKS := v\<rparr>"
| "config_update (Set_other k) C = C"

subsection \<open>The instance\<close>

record 'c tiger =
  tiger_config :: "config option"
  tiger_periodic_task_funcs :: "(string \<times> task_func) list"
  tiger_structlog :: bool
  tiger_connection :: "'c option"

text \<open>\<open>local_server\<close> is the connection that the client library makes without an address.\<close>

definition tiger_init ::
    "'c \<Rightarrow> 'c option \<Rightarrow> setting list option \<Rightarrow> bool \<Rightarrow> 'c tiger \<Rightarrow> unit result \<times> 'c tiger" where
  "tiger_init local_server connection user setup_structlog I =
     (if tiger_config I \<noteq> None then (Inl RuntimeError, I)
      else (Inr (), I
        \<lparr>tiger_config := Some (fold config_update (case user of None \<Rightarrow> [] | Some es \<Rightarrow> es) default_config),
         tiger_structlog := (tiger_structlog I \<or> setup_structlog),
         tiger_connection := Some (case connection of None \<Rightarrow> local_server | Some c \<Rightarrow> c)\<rparr>))"

definition new_tiger ::
    "'c \<Rightarrow> 'c option \<Rightarrow> setting list option \<Rightarrow> bool \<Rightarrow> bool \<Rightarrow> 'c tiger result" where
  "new_tiger local_server connection user setup_structlog lazy_init =
     (let I = \<lparr>tiger_config = None, tiger_periodic_task_funcs = [], tiger_structlog = False, tiger_connection = None\<rparr> in
      if lazy_init then
        (if connection = None \<and> user = None \<and> \<not> setup_structlog then Inr I else Inl AssertionError)
      else case tiger_init local_server connection user setup_structlog I of
        (Inl e, _) \<Rightarrow> Inl e
      | (Inr _, I') \<Rightarrow> Inr I')"

text \<open>\<^verbatim>\<open>TaskTiger.current_instance\<close>; the context holds the instance while tasks are executed.\<close>

definition current_instance :: "'c tiger option \<Rightarrow> 'c tiger result" where
  "current_instance g_tiger = (case g_tiger of None \<Rightarrow> Inl RuntimeError | Some I \<Rightarrow> Inr I)"

text \<open>An instance can be made first and initialised later, once; the result is that of doing both at once.\<close>

theorem lazy_init_equiv:
  assumes "new_tiger local_server None None False True = Inr I"
  shows "(case tiger_init local_server connection user setup_structlog I of
      (Inl e, _) \<Rightarrow> Inl e | (Inr _, I') \<Rightarrow> Inr I') =
    new_tiger local_server connection user setup_structlog False \<and>
    (\<exists>I'. tiger_init local_server connection user setup_structlog I = (Inr (), I') \<and>
      tiger_init local_server connection' user' setup_structlog' I' = (Inl RuntimeError, I'))"
  using assms by (auto simp: new_tiger_def tiger_init_def)

lemma fold_config_update_other:
  "fold config_update (map Set_other ks) C = C"
  by (induction ks arbitrary: C) simp_all

subsection \<open>Numbers on the command line\<close>

text \<open>
  \<^verbatim>\<open>int\<close> of a string: white space around, a sign, and digits with single underscores between them.
\<close>

definition is_digit :: "char \<Rightarrow> bool" where
  "is_digit c \<longleftrightarrow> of_char c \<in> {48..57 :: nat}"

fun digits_of :: "string \<Rightarrow> string option" where
  "digits_of [] = None"
| "digits_of [c] = (if is_digit c then Some [c] else None)"
| "digits_of (c # d # cs) =
     (if \<not> is_digit c then None
      else map_option ((#) c) (if d = CHR ''_'' then digits_of cs else digits_of (d # cs)))"

definition py_int :: "string \<Rightarrow> int result" where
  "py_int x =
     (case str_strip x of
        [] \<Rightarrow> Inl ValueError
      | c # cs \<Rightarrow>
          let ds = digits_of (if c \<in> {CHR ''+'', CHR ''-''} then cs else c # cs)
          in case ds of
               None \<Rightarrow> Inl ValueError
             | Some ds \<Rightarrow> Inr (if c = CHR ''-'' then - int (nat_of_dec ds) else int (nat_of_dec ds)))"

text \<open>
  The arguments of the client's connection that \<^verbatim>\<open>run_worker\<close> makes: host, port, database and password.
\<close>

definition or_number :: "string option \<Rightarrow> int \<Rightarrow> int result" where
  "or_number x n = (case x of None \<Rightarrow> Inr n | Some s \<Rightarrow> if s = [] then Inr n else py_int s)"

definition cli_connection ::
    "string option \<Rightarrow> string option \<Rightarrow> string option \<Rightarrow> string option
      \<Rightarrow> (string option \<times> int \<times> int \<times> string option) result" where
  "cli_connection host port db password =
     bind_result (or_number port 6379) (\<lambda>p.
     bind_result (or_number db 0) (\<lambda>d. Inr (host, p, d, password)))"

lemma str_strip_plain:
  assumes "\<forall>c \<in> set x. \<not> whitespace c"
  shows "str_strip x = x"
proof -
  have plain: "dropWhile whitespace ys = ys" if "\<forall>c \<in> set ys. \<not> whitespace c" for ys
    using that by (cases ys) simp_all
  show ?thesis using assms by (simp add: str_strip_def plain [of x] plain [of "rev x"])
qed

lemma dec_digits: "list_all is_digit (dec_of_nat n)"
proof (induction n rule: dec_of_nat.induct)
  case (1 n)
  have "is_digit (char_of (48 + k))" if "k < 10" for k :: nat
    using that by (simp add: is_digit_def)
  with 1 show ?case by (subst dec_of_nat.simps) simp
qed

lemma digits_of_digits: "ds \<noteq> [] \<Longrightarrow> list_all is_digit ds \<Longrightarrow> digits_of ds = Some ds"
proof (induction ds rule: digits_of.induct)
  case (3 c d cs)
  moreover have "d \<noteq> CHR ''_''" using 3 by (auto simp: is_digit_def)
  ultimately show ?case by simp
qed simp_all

lemma py_int_dec: "py_int (dec_of_nat n) = Inr (int n)"
proof -
  have "\<not> whitespace c" if "is_digit c" for c
    using that by (auto simp: is_digit_def whitespace_def)
  then have "str_strip (dec_of_nat n) = dec_of_nat n"
    using dec_digits [of n] by (intro str_strip_plain) (auto simp: list_all_iff)
  moreover obtain c cs where cs: "dec_of_nat n = c # cs" using dec_of_nat_nonempty [of n] by (cases "dec_of_nat n") auto
  moreover have "c \<noteq> CHR ''+''" "c \<noteq> CHR ''-''"
    using dec_digits [of n] unfolding cs by (auto simp: is_digit_def)
  ultimately show ?thesis
    using digits_of_digits [OF dec_of_nat_nonempty dec_digits, of n] nat_of_dec_of_nat [of n]
    by (simp add: py_int_def)
qed

text \<open>Without port and database the connection is to those of a local server.\<close>

theorem cli_connection_numbers:
  "cli_connection host (Some (dec_of_nat port)) (Some (dec_of_nat db)) password = Inr (host, int port, int db, password)"
  "cli_connection host None None password = Inr (host, 6379, 0, password)"
  by (simp_all add: cli_connection_def or_number_def py_int_dec dec_of_nat_nonempty)

subsection \<open>The command of Flask\<close>

text \<open>
  The instance, or a function that returns it; \<open>setup\<close> is what a subclass does before the worker runs.
  The command keeps the instance that it has asked for.
\<close>

datatype ('c, 'w) tiger_source = Instance "'c tiger" | Factory "'w \<Rightarrow> 'c tiger \<times> 'w"

definition flask_run ::
    "('w \<Rightarrow> 'w) \<Rightarrow> ('c tiger \<Rightarrow> string list \<Rightarrow> 'w \<Rightarrow> 'a \<times> 'w) \<Rightarrow> string list \<Rightarrow> ('c, 'w) tiger_source \<Rightarrow> 'w
      \<Rightarrow> 'a \<times> ('c, 'w) tiger_source \<times> 'w" where
  "flask_run setup run_worker_with_args args source w =
     (let (I, w1) = (case source of Instance I \<Rightarrow> (I, w) | Factory f \<Rightarrow> f w);
          (r, w2) = run_worker_with_args I args (setup w1)
      in (r, Instance I, w2))"

end
