(* ===== verification/Script_Loading.thy ===== *)
theory Script_Loading
  imports Startup "HOL-Library.Multiset"
begin

text \<open>
  How \<^verbatim>\<open>RedisScripts\<close> builds the text of a script that is read from a file and includes others as local
  functions, and how it tells from the server's version whether scripts are replicated by their
  commands.
\<close>

definition newline :: string where
  "newline = [CHR 0x0A]"

definition LOCAL_FUNC_TEMPLATE :: "string \<Rightarrow> string \<Rightarrow> string" where
  "LOCAL_FUNC_TEMPLATE func_name func_body =
     newline @ ''local function '' @ func_name @ ''(KEYS, ARGV)'' @ newline @ ''    '' @ func_body @ newline @
       ''end'' @ newline @ newline"

text \<open>The functions to include are a dictionary, which is gone through in the order of the sorted names.\<close>

definition register_script_from_file :: "string \<Rightarrow> (string \<times> string) list \<Rightarrow> string" where
  "register_script_from_file script include_functions =
     (if include_functions = [] then script
      else str_join newline
        (map (\<lambda>f. LOCAL_FUNC_TEMPLATE f (case map_of include_functions f of None \<Rightarrow> [] | Some body \<Rightarrow> body))
           (sort (map fst include_functions)) @ [script]))"

text \<open>The text, and with it the hash under which the server knows the script, does not depend on the order
  in which the functions are given.\<close>

theorem script_text_unordered:
  assumes "mset fs = mset fs'" "distinct (map fst fs)"
  shows "register_script_from_file script fs = register_script_from_file script fs'"
proof -
  have keys: "mset (map fst fs) = mset (map fst fs')" using assms(1) by simp
  then have names: "sort (map fst fs) = sort (map fst fs')"
    by (intro properties_for_sort) simp_all
  have "distinct (map fst fs')" using assms(2) mset_eq_imp_distinct_iff [OF keys] by blast
  then have "map_of fs = map_of fs'"
    using assms(2) mset_eq_setD [OF assms(1)] by (simp add: map_of_inject_set)
  moreover have "fs = [] \<longleftrightarrow> fs' = []" using assms(1) by auto
  ultimately show ?thesis by (simp only: register_script_from_file_def names)
qed

definition server_replicates_commands :: "string \<Rightarrow> bool result" where
  "server_replicates_commands redis_version =
     bind_result (map_result py_int (take 2 (str_split (CHR ''.'') redis_version))) can_replicate_commands"

theorem server_replicates_iff:
  "server_replicates_commands (str_join ''.'' (map dec_of_nat (major # minor # parts))) =
    Inr (3 < major \<or> major = 3 \<and> 2 \<le> minor)"
proof -
  have no_dot: "CHR ''.'' \<notin> set (dec_of_nat n)" for n
    using dec_digits [of n] by (auto simp: list_all_iff is_digit_def)
  have "str_split (CHR ''.'') (str_join ''.'' (map dec_of_nat (major # minor # parts))) =
      map dec_of_nat (major # minor # parts)"
    by (rule str_split_join) (simp_all add: no_dot list_all_iff)
  then show ?thesis by (auto simp: server_replicates_commands_def py_int_dec)
qed

end
