(* ===== verification/Rollbar_Handler.thy ===== *)
theory Rollbar_Handler
  imports Launch
begin

text \<open>
  The logging handler of \<^verbatim>\<open>rollbar.py\<close>, which reports the JSON events of the worker's log to Rollbar and
  decides by their title which of them are the same. What the package \<^verbatim>\<open>rollbar\<close> provides is a
  parameter: the levels that it supports, the least level to report, the handler for messages that are
  no JSON, and the call that reports one. So is \<^verbatim>\<open>str\<close> of a JSON value.
\<close>

record log_record =
  levelname :: string
  levelno :: int
  msg :: string
  rollbar_uuid :: "string option"

record 'w rollbar =
  SUPPORTED_LEVELS :: "string list"
  notify_level :: int
  super_emit :: "log_record \<Rightarrow> 'w \<Rightarrow> unit result \<times> 'w"
  report_message :: "json \<Rightarrow> string \<Rightarrow> dict \<Rightarrow> 'w \<Rightarrow> string option \<times> 'w"
  str_of :: "json \<Rightarrow> string"

subsection \<open>Titles\<close>

definition title_keys :: "string list" where
  "title_keys = [''event'', ''func'', ''exception_name'', ''queue'']"

definition format_field :: "(json \<Rightarrow> string) \<Rightarrow> string \<Rightarrow> json \<Rightarrow> string result" where
  "format_field str field v =
     (if field = ''queue'' then
        (case v of JStr x \<Rightarrow> Inr (field @ ''='' @ hd (str_split (CHR ''.'') x)) | _ \<Rightarrow> Inl AttributeError)
      else Inr (field @ ''='' @ str v))"

definition format_title :: "(json \<Rightarrow> string) \<Rightarrow> string \<Rightarrow> dict \<Rightarrow> string result" where
  "format_title str pre d =
     bind_result
       (map_result (\<lambda>(k, v). format_field str k v)
         (List.map_filter (\<lambda>k. map_option (Pair k) (dict_get d k)) title_keys))
       (\<lambda>fields. Inr (pre @ '': '' @ str_join '' '' fields))"

subsection \<open>Reporting\<close>

text \<open>\<^verbatim>\<open>str.lower\<close>.\<close>

definition lower_char :: "char \<Rightarrow> char" where
  "lower_char c =
     (let n = of_char c :: nat in
      if 65 \<le> n \<and> n \<le> 90 \<or> 192 \<le> n \<and> n \<le> 222 \<and> n \<noteq> 215 then char_of (n + 32) else c)"

definition rollbar_emit :: "pylib \<Rightarrow> 'w rollbar \<Rightarrow> string \<Rightarrow> log_record \<Rightarrow> 'w \<Rightarrow> unit result \<times> log_record \<times> 'w" where
  "rollbar_emit L B pre rec w =
     (let level = map lower_char (levelname rec) in
      if level \<notin> set (SUPPORTED_LEVELS B) then (Inr (), rec, w)
      else if levelno rec < notify_level B then (Inr (), rec, w)
      else case json_loads L (msg rec) of
        None \<Rightarrow> (case super_emit B rec w of (r, w') \<Rightarrow> (r, rec, w'))
      | Some (JObj d) \<Rightarrow>
          (case format_title (str_of B) pre d of
             Inl e \<Rightarrow> (Inl e, rec, w)
           | Inr title \<Rightarrow>
               let d' = dict_set ''fingerprint'' (JStr title) (dict_set ''title'' (JStr title) d);
                   message = get_default d' ''traceback'' (JStr title);
                   payload = filter (\<lambda>(k, v). k \<noteq> ''traceback'') d';
                   (uuid, w') = report_message B message level payload w
               in (Inr (), if uuid = None \<or> uuid = Some [] then rec else rec\<lparr>rollbar_uuid := uuid\<rparr>, w'))
      | Some _ \<Rightarrow> (Inl TypeError, rec, w))"

text \<open>The queue that a sub-queue belongs to.\<close>

definition main_queue :: "json option \<Rightarrow> string option" where
  "main_queue v = (case v of Some (JStr x) \<Rightarrow> Some (hd (str_split (CHR ''.'') x)) | _ \<Rightarrow> None)"

text \<open>Events are told apart by their kind, function, exception and main queue only: the title of an event
  is that of any other one with the same of these, whatever else they say and whichever sub-queue
  they come from.\<close>

theorem title_groups:
  assumes "\<And>k. k \<in> {''event'', ''func'', ''exception_name''} \<Longrightarrow> dict_get d k = dict_get d' k"
    and "dict_get d ''queue'' = None \<longleftrightarrow> dict_get d' ''queue'' = None"
    and "main_queue (dict_get d ''queue'') = main_queue (dict_get d' ''queue'')"
  shows "format_title str pre d = format_title str pre d'"
  using assms
  by (auto simp: format_title_def title_keys_def List.map_filter_simps format_field_def main_queue_def
      split: option.splits sum.splits json.splits)

text \<open>An event of a level that is reported: its title is also its fingerprint, the message is its
  traceback, or else the title, and the traceback is not sent twice.\<close>

theorem event_reported:
  assumes "map lower_char (levelname rec) \<in> set (SUPPORTED_LEVELS B)" "notify_level B \<le> levelno rec"
    and "json_loads L (msg rec) = Some (JObj d)" "format_title (str_of B) pre d = Inr title"
  shows "\<exists>payload. rollbar_emit L B pre rec w =
      (let (uuid, w') = report_message B
          (case dict_get d ''traceback'' of None \<Rightarrow> JStr title | Some tb \<Rightarrow> tb) (map lower_char (levelname rec)) payload w
       in (Inr (), if uuid = None \<or> uuid = Some [] then rec else rec\<lparr>rollbar_uuid := uuid\<rparr>, w')) \<and>
    dict_get payload ''traceback'' = None \<and>
    (\<forall>k. k = ''traceback'' \<or> dict_get payload k =
      (if k = ''title'' \<or> k = ''fingerprint'' then Some (JStr title) else dict_get d k))"
proof -
  have set: "dict_get (dict_set k v d) j = (if j = k then Some v else dict_get d j)" for k v d j
    by (induction k v d rule: dict_set.induct) (auto simp: dict_get_def)
  have keep: "dict_get (filter (\<lambda>(k, v). k \<noteq> x) d) j = (if j = x then None else dict_get d j)" for x d j
    by (induction d) (auto simp: dict_get_def)
  let ?d' = "dict_set ''fingerprint'' (JStr title) (dict_set ''title'' (JStr title) d)"
  show ?thesis
    using assms
    by (intro exI [of _ "filter (\<lambda>(k, v). k \<noteq> ''traceback'') ?d'"])
      (auto simp: rollbar_emit_def Let_def get_default_def set keep split: prod.split)
qed

end
