(* ===== verification/Scan_Script.thy ===== *)
theory Scan_Script
  imports Prelude
begin

text \<open>
  The diagnostic script \<^verbatim>\<open>scripts/redis_scan.py\<close>, which goes through the keys of a server, writes a line
  for each, and may set their time to live. The client library is a parameter: the script makes it
  without \<^verbatim>\<open>decode_responses\<close>, so that types come as bytes, which never equal a string.
\<close>

datatype py_text = PyStr string | PyBytes string

text \<open>Times to live are \<open>- 1\<close> for a key without one, as the server reports them.\<close>

record 's client =
  c_type :: "string \<Rightarrow> 's \<Rightarrow> py_text"
  c_strlen :: "string \<Rightarrow> 's \<Rightarrow> int"
  c_zcard :: "string \<Rightarrow> 's \<Rightarrow> int"
  c_scard :: "string \<Rightarrow> 's \<Rightarrow> int"
  c_llen :: "string \<Rightarrow> 's \<Rightarrow> int"
  c_hlen :: "string \<Rightarrow> 's \<Rightarrow> int"
  c_ttl :: "string \<Rightarrow> 's \<Rightarrow> int"
  c_persist :: "string \<Rightarrow> 's \<Rightarrow> 's"
  c_expire :: "string \<Rightarrow> int \<Rightarrow> 's \<Rightarrow> 's"

definition get_size :: "'s client \<Rightarrow> string \<Rightarrow> py_text \<Rightarrow> 's \<Rightarrow> int" where
  "get_size client k key_type s =
     (if key_type = PyStr ''string'' then c_strlen client k s
      else if key_type = PyStr ''zset'' then c_zcard client k s
      else if key_type = PyStr ''set'' then c_scard client k s
      else if key_type = PyStr ''list'' then c_llen client k s
      else if key_type = PyStr ''hash'' then c_hlen client k s
      else - 1)"

text \<open>A line of the log: the key, its type, its old and new time to live, and its size.\<close>

type_synonym log_line = "string \<times> py_text \<times> int \<times> int option \<times> int"

definition scan_key :: "'s client \<Rightarrow> int option \<Rightarrow> string \<Rightarrow> 's \<Rightarrow> log_line \<times> 's" where
  "scan_key client set_ttl k s =
     (let key_type = c_type client k s;
          size_of_key = get_size client k key_type s;
          ttl = c_ttl client k s;
          (new_ttl, s') =
            (if set_ttl = Some (- 1) then (Some (- 1), if ttl \<noteq> - 1 then c_persist client k s else s)
             else case set_ttl of
               Some t \<Rightarrow> if ttl = - 1 then (Some t, c_expire client k t s) else (None, s)
             | None \<Rightarrow> (None, s))
      in ((k, key_type, ttl, new_ttl, size_of_key), s'))"

fun scan_keys :: "'s client \<Rightarrow> int option \<Rightarrow> string list \<Rightarrow> 's \<Rightarrow> log_line list \<times> 's" where
  "scan_keys client set_ttl [] s = ([], s)"
| "scan_keys client set_ttl (k # ks) s =
     (let (line, s1) = scan_key client set_ttl k s; (rest, s2) = scan_keys client set_ttl ks s1
      in (line # rest, s2))"

text \<open>
  The loop over the pages of the scan, until the cursor is zero or a signal has come; each page is what
  the server returns: the cursor, the keys, and whether a signal came before the next round.
\<close>

fun scan_pages :: "'s client \<Rightarrow> int option \<Rightarrow> (nat \<times> string list \<times> bool) list \<Rightarrow> 's \<Rightarrow> (log_line list \<times> 's) option" where
  "scan_pages client set_ttl [] s = None"
| "scan_pages client set_ttl ((cursor, ks, interrupted) # pages) s =
     (let (lines, s1) = scan_keys client set_ttl ks s in
      if cursor = 0 \<or> interrupted then Some (lines, s1)
      else case scan_pages client set_ttl pages s1 of
        None \<Rightarrow> None | Some (rest, s2) \<Rightarrow> Some (lines @ rest, s2))"

text \<open>\<^verbatim>\<open>run\<close>: setting times to live needs a pattern. \<open>None\<close> in the result is \<^verbatim>\<open>sys.exit(1)\<close>.\<close>

definition scan_run ::
    "'s client \<Rightarrow> string option \<Rightarrow> int option \<Rightarrow> (nat \<times> string list \<times> bool) list \<Rightarrow> 's
      \<Rightarrow> (log_line list option \<times> 's) option" where
  "scan_run client pattern set_ttl pages s =
     (if set_ttl \<noteq> None \<and> pattern = None then Some (None, s)
      else case scan_pages client set_ttl pages s of
        None \<Rightarrow> None | Some (lines, s') \<Rightarrow> Some (Some lines, s'))"

subsection \<open>What the script does\<close>

lemma get_size_bytes: "get_size client k (PyBytes t) s = - 1"
  by (simp add: get_size_def)

lemma scan_keys_unchanged: "snd (scan_keys client None ks s) = s"
  by (induction ks arbitrary: s) (simp_all add: scan_key_def Let_def split_beta)

text \<open>Without a time to live to set the script only reads.\<close>

lemma scan_run_reads:
  "scan_run client pattern None pages s = Some (lines, s') \<Longrightarrow> s' = s"
proof -
  have "scan_pages client None pages s = Some (lines, s') \<Longrightarrow> s' = s" for lines
  proof (induction pages arbitrary: s lines)
    case (Cons page pages)
    then show ?case
      using scan_keys_unchanged [of client "fst (snd page)" s]
      by (cases page) (auto simp: split_beta Let_def split: if_splits option.splits)
  qed simp
  then show "scan_run client pattern None pages s = Some (lines, s') \<Longrightarrow> s' = s"
    by (auto simp: scan_run_def split: option.splits)
qed

text \<open>With a client that returns bytes every size is reported as unknown.\<close>

lemma scan_sizes_unknown:
  assumes "\<And>k s. \<exists>t. c_type client k s = PyBytes t"
  shows "\<forall>(k, t, old, new, n) \<in> set (fst (scan_keys client set_ttl ks s)). n = - 1"
proof (induction ks arbitrary: s)
  case (Cons k ks)
  obtain t where "c_type client k s = PyBytes t" using assms by blast
  then have "snd (snd (snd (snd (fst (scan_key client set_ttl k s))))) = - 1"
    by (simp add: scan_key_def get_size_bytes split_beta Let_def)
  with Cons show ?case by (auto simp: split_beta Let_def)
qed simp

text \<open>A time to live is only set where there was none.\<close>

lemma scan_key_ttl:
  "t \<noteq> - 1 \<Longrightarrow> snd (scan_key client (Some t) k s) = (if c_ttl client k s = - 1 then c_expire client k t s else s)"
  by (simp add: scan_key_def Let_def)

end
