(* ===== verification/Spec2Isabelle.thy ===== *)
theory Spec2Isabelle
  imports Schedules Redis_Semaphore Tiger_Properties Timeouts Process Exclusive_Execution Worker_Drain Retry_Cycle Worker_Recovery
    Worker_Traces Stored_Data Task_Machine Script_Loading Rollbar_Handler Scan_Script
begin

text \<open>
  TaskTiger, a Python task queue on Redis: a verification library for the package \<^verbatim>\<open>tasktiger\<close>.

  \<^bold>\<open>The program.\<close> A client queues a call of a function: a \<^verbatim>\<open>Task\<close> (\<^verbatim>\<open>task.py\<close>) is written to Redis as
  a JSON string under its identifier, and the identifier goes into the sorted set of its queue for one
  of the states queued, active, scheduled and error. For each state a set lists the queues that have
  tasks in it. A worker (\<^verbatim>\<open>worker.py\<close>) takes identifiers out of the queued sets, makes them active, has
  them executed in groups by an executor (\<^verbatim>\<open>executor.py\<close>) that calls the functions by a runner
  (\<^verbatim>\<open>runner.py\<close>), and then removes, reschedules or fails each task. Meanwhile heartbeats renew the
  scores of active tasks; tasks without heartbeats expire and are queued again by any worker. All
  changes of a task's state are Lua scripts that Redis runs atomically (\<^verbatim>\<open>redis_scripts.py\<close>,
  \<^verbatim>\<open>lua/move_task.lua\<close>), and so are the semaphores that bound the workers of a queue
  (\<^verbatim>\<open>redis_semaphore.py\<close>, \<^verbatim>\<open>lua/semaphore.lua\<close>).

  \<^bold>\<open>The server and the application as parameters.\<close> Redis, its client library and the application's
  functions are not part of the repository. The server is a record of commands over an unknown type
  of states, whose documented behaviour are the laws of the locale \<open>redis_server\<close> (Redis_Server);
  \<open>mem_redis\<close> is a server in memory that obeys them, on which the locales are interpreted and all
  witnesses run. The locale \<open>tiger_redis\<close> (Tiger_Keys) adds which type of value each of TaskTiger's
  keys has, \<open>tiger_world\<close> (Worker_Laws) that reading the clock changes no data. The application and
  the machine are the record \<open>program\<close> (Runners), JSON, hashes and digits the record \<open>pylib\<close>.
  Every operation is a function from the server's state to a result and a new state; exceptions are
  values of the type \<open>exn\<close>, and an operation that raises returns \<open>Inl\<close> with the state it leaves.

  \<^bold>\<open>The theories, bottom up.\<close>
  \<^item> Prelude: results, sorted sets as a type, signed slices, reachability (locale
    \<open>inductive_invariant\<close>). Redis_Server and Tiger_Keys: the server and the layout of the keys.
  \<^item> Internals (\<^verbatim>\<open>_internal.py\<close>), Schedules (\<^verbatim>\<open>retry.py\<close>, \<^verbatim>\<open>schedule.py\<close>): pure helpers, with the
    equivalence of the queue filter with the longest matching prefix, of the identifiers of unique
    tasks with the calls they name, and of the next period with the first grid point after now.
  \<^item> Redis_Scripts, Script_Properties (\<^verbatim>\<open>redis_scripts.py\<close>), Move_Task, Move_Properties
    (\<^verbatim>\<open>move_task.lua\<close>), Queue_Spec: every script as written, and the abstract store \<open>store\<close> that the
    scripts refine: \<open>tiger_view\<close> reads it off the server, \<open>move_in_store\<close> is the specification of a
    move. Its invariants are \<open>indexed\<close>, a state lists exactly its non-empty queues, and \<open>backed\<close>,
    every task has its data.
  \<^item> Redis_Semaphore: the semaphore, and the bound on its holders in every run of requests, releases
    and system locks (an inductive step relation).
  \<^item> Task_Data, Runners, Tasks, Task_Laws, Task_Properties (\<^verbatim>\<open>task.py\<close>, \<^verbatim>\<open>runner.py\<close>, the configuration
    and the decorator of \<^verbatim>\<open>tasktiger.py\<close>): the constructor, queueing, moving, loading and cloning of
    tasks, with what each does on every branch.
  \<^item> Executors, Execution_Laws, Worker_Executions (\<^verbatim>\<open>executor.py\<close>): the execution of a group, its
    record when it fails, and the wait for a forked child. Forked_Child: the child, its exit status,
    and where the two executors agree. Process: signals, context managers and the second threads.
  \<^item> Timeouts (\<^verbatim>\<open>timeouts.py\<close>): the alarm of the process, the block that runs code under a limit, and
    that a task which exceeds its limit is recorded as failed.
  \<^item> Workers, Worker_Tasks, Worker_Run (\<^verbatim>\<open>worker.py\<close>, \<^verbatim>\<open>utils.py\<close>): every operation of the worker, up to
    its main loop. Worker_Closure is their interface to the server: in the locale \<open>worker_closure\<close>
    whatever the few operations that the worker is made of keep is kept by its main loop, and with
    heartbeats (\<open>fork_closure\<close>) by the forking executor. Execution_Laws interprets it for the index
    of queues, Worker_Traces for sequences of operations. Worker_Laws refines the worker's pops;
    Worker_Properties, Worker_Queues, Worker_Selection and Worker_Locks hold what taking, finishing,
    failing, requeueing and locking tasks do.
  \<^item> Task_Lifecycle: the way of a task through all components, from the client that queues it to the
    worker that executes and removes it. Worker_Drain: a worker that is run once works off its queues.
    Retry_Cycle: a task that keeps failing, from the queue through its retries to the errors.
    Worker_Recovery: the regular search of a worker for due tasks and for those of a worker that died.
  \<^item> Interleaving: any number of clients and workers. The datatype \<open>server_op\<close> lists the atomic
    operations of the library, \<open>apply_op\<close> runs one on the server and \<open>op_in_store\<close> on the abstract
    store. For every sequence: it refines the one on the store, keeps the index but for late
    heartbeats, and loses no task that is not removed. Stored_Data: in every sequence, exactly when a
    task keeps its data and when it stays in one place, and that all data is what its readers expect.
    Exclusive_Execution: in every sequence, a task is handed out as often as it leaves the active
    state. Worker_Traces: the life of a worker, with what others do whenever it looks at the clock or
    executes tasks, is such a sequence; and the exact index of a worker that executes its tasks itself.
    Task_Machine: the datatype \<open>call\<close> lists the calls that move tasks; each is a sequence of operations
    and follows its arrows of the state machine.
  \<^item> Task_Tiger, Tiger_Properties (the rest of \<^verbatim>\<open>tasktiger.py\<close>, \<^verbatim>\<open>migrations.py\<close>, \<^verbatim>\<open>logging.py\<close>):
    statistics of queues, the purge of failed tasks, the migration of counters. Stats (\<^verbatim>\<open>stats.py\<close>):
    the statistics thread. Startup, Launch (\<^verbatim>\<open>tasktiger.py\<close>, \<^verbatim>\<open>flask_script.py\<close>, \<^verbatim>\<open>test_helpers.py\<close>): how
    instances and workers are started. Script_Loading: how the scripts' texts are put together.
    Rollbar_Handler (\<^verbatim>\<open>rollbar.py\<close>): the report of logged events. Scan_Script: the diagnostic script
    \<^verbatim>\<open>scripts/redis_scan.py\<close>.

  \<^bold>\<open>Loops and bounds.\<close> A loop that waits for the outside takes the observations of its rounds as a
  list and has no value when the list ends first: \<open>run_loop\<close> (one \<open>iteration\<close> each), \<open>pubsub_loop\<close> and
  \<open>wait_for_child\<close>. Which round ends them, and with what, is proved
  (\<open>pubsub_returns\<close>, \<open>fork_execute_returns\<close>, \<open>worker_drains\<close>); \<open>worker_main_traced\<close> and
  \<open>sync_worker_indexed\<close> speak of every list. The purge of a
  queue, page by page, takes fuel, for which two more than its number of failed tasks is
  enough (\<open>purge_pages_empty_iff\<close>). Times, scores and delays are rational numbers where the code has
  floats; counts and limits are integers.

  \<^bold>\<open>What the theorems rest on.\<close> Identifiers of tasks contain no colon, since keys are joined by colons
  without escaping; those that the library makes have none (\<open>gen_id_colon_free\<close>,
  \<open>colon_free_unique_id\<close>). A worker with the synchronous executor keeps the index exactly, if no
  heartbeat comes for a queue that has no active task any more (\<open>sync_worker_indexed\<close>), its second
  thread and the functions included, which in the model are what calling a function brings. The loop of
  the forking executor can send such a heartbeat itself: one that comes after another worker has
  requeued the task leaves an entry that the index does not list (\<open>heartbeat_index\<close>); what is left then is
  \<open>nearly_indexed\<close> (\<open>interleaving_indexed\<close>, \<open>worker_main_traced\<close>). Such a heartbeat can also leave a task
  without its data, and so can the removal of a task that is in two queues, which share its data;
  \<open>interleaving_backed\<close> says exactly when. That stored data stays well-typed needs that the JSON of the
  server's scripts keeps the other strings of an object in which one entry is set
  (\<open>cjson_keeps_strings\<close>); numbers may lose precision and empty lists come back as objects. The
  operations of the sequences are used as \<open>op_ok\<close> says, which for the library's own calls is proved
  (\<open>calls_follow_machine\<close>, \<open>worker_main_traced\<close>).

  A retry or a recovery counts in rounds of the worker, between which only time passes
  (\<open>retries_bounded\<close>, \<open>expired_tasks_recovered\<close>); that there are as many rounds as one wants if the
  clock goes on is \<open>retry_rounds_exist\<close>.

  \<^bold>\<open>Not modelled.\<close> The parsing of the command line is that of click and argparse, the set-up of structlog
  is a flag. The fork, the handler of \<^verbatim>\<open>SIGCHLD\<close> and the pipe of \<^verbatim>\<open>executor.py\<close> are operating-system
  calls: the child is what its parent observes of it. How a child ends by an exception is that of
  Python: \<open>exit_byte\<close> is the part of the argument of \<^verbatim>\<open>sys.exit\<close> that the parent sees. In Timeouts code under a limit is a list of
  steps with durations, which neither handle the exception that interrupts them nor clean up after it,
  and a signal that comes when the block is left already but its handler there not yet entered is not
  represented; elsewhere what a function does under its limit is the parameter \<open>call_func\<close>, and what
  the heartbeat thread of the synchronous executor does meanwhile (\<open>periodic_heartbeat\<close>) is among the
  changes that calling a function may bring. The executors' functions leave out the context managers
  of \<^verbatim>\<open>CHILD_CONTEXT_MANAGERS\<close>, of which there are none by default (\<open>with_contexts_none\<close>).
  The time for which a waiting loop sleeps only shows in the clock that it reads. Logging and the worker's reports to the statistics thread,
  which only logs, are left out.
\<close>

end
